theory Spec2Isabelle
  imports Complex_Main "HOL-Library.Sublist"
begin

section \<open>Python strings\<close>

text \<open>
  A Python \<open>str\<close> is a sequence of Unicode code points, so it is a list of naturals.
  The owner-id marker of the bot starts with U+2502 (BOX DRAWINGS LIGHT VERTICAL), which
  lies outside ASCII. ASCII literals of the source are written as HOL strings and
  converted with \<open>ascii\<close>.
\<close>

type_synonym pystr = "nat list"

definition ascii :: "string \<Rightarrow> pystr" where
  "ascii s = map of_char s"

text \<open>\<open>str.lower()\<close> on the ASCII letters; every other code point is kept.\<close>

definition lower_cp :: "nat \<Rightarrow> nat" where
  "lower_cp c = (if 65 \<le> c \<and> c \<le> 90 then c + 32 else c)"

definition lower :: "pystr \<Rightarrow> pystr" where
  "lower s = map lower_cp s"

text \<open>\<open>s.startswith(p)\<close>, \<open>s.startswith((p1, p2))\<close>, \<open>s.endswith(p)\<close> and \<open>p in s\<close>.\<close>

definition startswith :: "pystr \<Rightarrow> string \<Rightarrow> bool" where
  "startswith s p = prefix (ascii p) s"

definition startswith_any :: "pystr \<Rightarrow> string list \<Rightarrow> bool" where
  "startswith_any s ps = list_ex (startswith s) ps"

definition endswith :: "pystr \<Rightarrow> pystr \<Rightarrow> bool" where
  "endswith s p = suffix p s"

definition contains :: "pystr \<Rightarrow> pystr \<Rightarrow> bool" where
  "contains s p = sublist p s"

text \<open>\<open>str(n)\<close> for a non-negative integer: its decimal digits.\<close>

fun str_nat :: "nat \<Rightarrow> pystr" where
  "str_nat n = (if n < 10 then [48 + n] else str_nat (n div 10) @ [48 + n mod 10])"

declare str_nat.simps [simp del]

text \<open>
  \<open>s.replace(old, "")\<close> for a non-empty \<open>old\<close>: every occurrence of \<open>old\<close>, found from
  left to right without overlap, is removed.
\<close>

fun remove_all :: "pystr \<Rightarrow> pystr \<Rightarrow> pystr" where
  "remove_all old [] = []"
| "remove_all old (c # cs) =
     (if old \<noteq> [] \<and> prefix old (c # cs)
      then remove_all old (drop (length old - 1) cs)
      else c # remove_all old cs)"

text \<open>
  \<open>str.isspace()\<close> for one code point, and \<open>" ".join(s.split())\<close>: \<open>split\<close> without
  arguments cuts at runs of whitespace and yields no empty word.
\<close>

definition isspace :: "nat \<Rightarrow> bool" where
  "isspace c \<longleftrightarrow>
     (9 \<le> c \<and> c \<le> 13) \<or> (28 \<le> c \<and> c \<le> 32) \<or> c = 133 \<or> c = 160 \<or> c = 5760 \<or>
     (8192 \<le> c \<and> c \<le> 8202) \<or> c = 8232 \<or> c = 8233 \<or> c = 8239 \<or> c = 8287 \<or> c = 12288"

fun split_acc :: "pystr \<Rightarrow> pystr \<Rightarrow> pystr list" where
  "split_acc w [] = (if w = [] then [] else [w])"
| "split_acc w (c # cs) =
     (if isspace c then (if w = [] then split_acc [] cs else w # split_acc [] cs)
      else split_acc (w @ [c]) cs)"

definition split :: "pystr \<Rightarrow> pystr list" where
  "split s = split_acc [] s"

fun join :: "pystr \<Rightarrow> pystr list \<Rightarrow> pystr" where
  "join sep [] = []"
| "join sep [w] = w"
| "join sep (w # v # ws) = w @ sep @ join sep (v # ws)"

definition normalize_whitespace :: "pystr \<Rightarrow> pystr" where
  "normalize_whitespace s = join [32] (split s)"

section \<open>Configuration, tags and threads\<close>

text \<open>
  The constants of \<open>helpforums_pre/constants.py\<close> are parameters of the model. A compiled
  pattern is represented by its \<open>search\<close>: whether it matches somewhere in a string.
\<close>

type_synonym caution_type = string

record config =
  HELP_FORUM_CHANNEL_IDS :: "(string \<times> nat) list"
  FORUM_THREAD_TAG_LIMIT :: nat
  INVALID_HELP_THREAD_TITLE_TYPES :: "caution_type list"
  INVALID_HELP_THREAD_TITLE_SCANNING_ENABLED :: "caution_type \<Rightarrow> bool"
  INVALID_HELP_THREAD_TITLE_REGEX_PATTERNS :: "caution_type \<Rightarrow> pystr \<Rightarrow> bool"
  THREAD_TITLE_TOO_SHORT_SLOWMODE_DELAY :: nat
  THREAD_DELETION_MESSAGE_THRESHOLD :: int
  bot_user_id :: nat

record forum_tag =
  tag_id :: nat
  tag_name :: pystr

record thread =
  thread_id :: nat
  parent_id :: nat
  owner_id :: nat
  name :: pystr
  applied_tags :: "forum_tag list"
  archived :: bool
  locked :: bool
  flags_pinned :: bool
  archiver_id :: "nat option"
  created_at :: "real option"
  slowmode_delay :: nat
  auto_archive_duration :: nat
  message_count :: nat
  last_message_id :: "nat option"

text \<open>\<open>any(tag.name.lower().startswith(p) for tag in tags)\<close>\<close>

definition any_tag_startswith :: "forum_tag list \<Rightarrow> string list \<Rightarrow> bool" where
  "any_tag_startswith tags ps = list_ex (\<lambda>tag. startswith_any (lower (tag_name tag)) ps) tags"

section \<open>Title and tag validators\<close>

definition normalized_thread_name :: "thread \<Rightarrow> pystr" where
  "normalized_thread_name thread =
     normalize_whitespace (remove_all (9474 # str_nat (owner_id thread)) (name thread))"

definition get_help_forum_channel_thread_name_cautions :: "config \<Rightarrow> thread \<Rightarrow> caution_type list" where
  "get_help_forum_channel_thread_name_cautions cfg thread =
     filter (\<lambda>caution_type.
        INVALID_HELP_THREAD_TITLE_SCANNING_ENABLED cfg caution_type \<and>
        INVALID_HELP_THREAD_TITLE_REGEX_PATTERNS cfg caution_type (normalized_thread_name thread))
      (INVALID_HELP_THREAD_TITLE_TYPES cfg)"

definition validate_regulars_help_forum_channel_thread_tags :: "thread \<Rightarrow> bool" where
  "validate_regulars_help_forum_channel_thread_tags thread =
     (let tags = applied_tags thread in
      if tags \<noteq> [] \<and> \<not> any_tag_startswith tags [''solved'', ''invalid'']
      then
        (let issue_tags = filter (\<lambda>tag. startswith (lower (tag_name tag)) ''issue'') tags;
             aspect_tags =
               filter (\<lambda>tag. \<not> startswith_any (lower (tag_name tag)) [''issue'', ''unsolved'']) tags
         in if length issue_tags = 0 \<or> length issue_tags > 1 \<or> aspect_tags = []
            then False else True)
      else True)"

text \<open>
  The tag rule in the words of the specification: the tag set is empty, or holds a
  \<open>solved\<close> or \<open>invalid\<close> tag, or holds exactly one issue tag and one to three aspect
  tags.
\<close>

definition validate_topic_tags_spec :: "forum_tag list \<Rightarrow> bool" where
  "validate_topic_tags_spec tags =
     (let n_issue = length (filter (\<lambda>tag. startswith (lower (tag_name tag)) ''issue'') tags);
          n_aspect = length
            (filter (\<lambda>tag. \<not> startswith_any (lower (tag_name tag)) [''issue'', ''unsolved'']) tags)
      in tags = [] \<or> any_tag_startswith tags [''solved'', ''invalid''] \<or>
         (n_issue = 1 \<and> 1 \<le> n_aspect \<and> n_aspect \<le> 3))"

section \<open>The owner-id marker of a thread name\<close>

definition owner_id_suffix :: "thread \<Rightarrow> pystr" where
  "owner_id_suffix thread = 9474 # str_nat (owner_id thread)"

definition lacks_owner_id :: "thread \<Rightarrow> bool" where
  "lacks_owner_id thread =
     (\<not> (endswith (name thread) (owner_id_suffix thread) \<or>
         contains (name thread) (str_nat (owner_id thread))))"

definition name_with_owner_id_suffix :: "thread \<Rightarrow> pystr" where
  "name_with_owner_id_suffix thread =
     (if length (name thread) < 72 then name thread else take 72 (name thread) @ ascii ''...'')
     @ owner_id_suffix thread"

text \<open>
  The value of \<open>thread_edits["name"]\<close>, if the entry is set: the same expression stands in
  \<open>on_thread_create\<close>, in the archived branch of \<open>on_thread_update\<close> and in
  \<open>force_help_thread_archive_after_timeout\<close>.
\<close>

definition owner_id_name_edit :: "thread \<Rightarrow> pystr option" where
  "owner_id_name_edit thread =
     (if lacks_owner_id thread then Some (name_with_owner_id_suffix thread) else None)"

text \<open>The rule as an operation on the thread: the name after the edit, if there is one.\<close>

definition apply_owner_id_rule :: "thread \<Rightarrow> thread" where
  "apply_owner_id_rule thread =
     (case owner_id_name_edit thread of None \<Rightarrow> thread | Some n \<Rightarrow> thread\<lparr>name := n\<rparr>)"

section \<open>Removal of a check-mark reaction\<close>

text \<open>
  The guard of \<open>msg.unpin\<close> in \<open>on_raw_reaction_remove\<close>. The reaction found on the message
  is \<open>None\<close> or carries its count; \<open>by_admin\<close> is the truth value of
  \<open>payload.member and payload.member.guild_permissions.administrator\<close>.
\<close>

definition unpin_guard :: "bool \<Rightarrow> int option \<Rightarrow> bool \<Rightarrow> bool" where
  "unpin_guard msg_pinned white_check_mark_reaction by_admin =
     (msg_pinned \<and>
      (case white_check_mark_reaction of
         None \<Rightarrow> True
       | Some count \<Rightarrow> count < 4 \<or> (count < 2 \<and> by_admin)))"

section \<open>Persistence\<close>

text \<open>
  \<open>BadHelpThreadData\<close> and \<open>InactiveHelpThreadData\<close>. A Python set of message ids is a list
  without duplicates; its order is the order in which the set is iterated.
\<close>

record bad_row =
  bad_thread_id :: nat
  last_cautioned_ts :: real
  caution_message_ids :: "nat list"

record inactive_row =
  inactive_thread_id :: nat
  last_active_ts :: real
  alert_message_id :: "nat option"

text \<open>
  Modelled from the spec: the two tables are declared in the migrations of the extension,
  which are not among the source files. The statement of the save operations, \<open>INSERT ...
  ON CONFLICT DO UPDATE SET ... WHERE thread_id == :thread_id\<close>, names no conflict target:
  with what it conflicts is decided by the constraints the table declares. The
  specification keys both record kinds by thread id, so \<open>thread_id\<close> is taken as the unique
  key of each table, and an \<open>INSERT\<close> conflicts exactly with a stored row of the same
  \<open>thread_id\<close>.

  A table is the list of its rows. The \<open>INSERT\<close> overwrites the row it conflicts with (the
  \<open>SET\<close> clause assigns every column, and the \<open>WHERE\<close> clause holds of that row) and
  appends the row when there is no conflict; \<open>DELETE ... WHERE thread_id == :thread_id\<close>
  drops every row of that key.
\<close>

fun sql_insert_on_conflict_update :: "('r \<Rightarrow> nat) \<Rightarrow> 'r \<Rightarrow> 'r list \<Rightarrow> 'r list" where
  "sql_insert_on_conflict_update key new [] = [new]"
| "sql_insert_on_conflict_update key new (row # rows) =
     (if key row = key new then new # rows
      else row # sql_insert_on_conflict_update key new rows)"

definition sql_delete :: "('r \<Rightarrow> nat) \<Rightarrow> nat \<Rightarrow> 'r list \<Rightarrow> 'r list" where
  "sql_delete key k rows = filter (\<lambda>row. key row \<noteq> k) rows"

definition sql_exists :: "('r \<Rightarrow> nat) \<Rightarrow> nat \<Rightarrow> 'r list \<Rightarrow> bool" where
  "sql_exists key k rows = list_ex (\<lambda>row. key row = k) rows"

definition sql_select_first :: "('r \<Rightarrow> nat) \<Rightarrow> nat \<Rightarrow> 'r list \<Rightarrow> 'r option" where
  "sql_select_first key k rows = find (\<lambda>row. key row = k) rows"

text \<open>The invariant of a table: no two rows share a thread id.\<close>

definition unique_thread_ids :: "('r \<Rightarrow> nat) \<Rightarrow> 'r list \<Rightarrow> bool" where
  "unique_thread_ids key rows = distinct (map key rows)"

section \<open>The platform and the state of the bot\<close>

text \<open>
  The exceptions the handlers can meet. \<open>NotFound\<close> and \<open>Forbidden\<close> are subclasses of
  \<open>discord.HTTPException\<close>; \<open>HTTPException\<close> stands for any other HTTP failure (a server
  error, say). \<open>LookupError\<close> is raised by the fetch operations of the persistence layer,
  \<open>KeyError\<close> by a dictionary lookup, \<open>AttributeError\<close> by an attribute of \<open>None\<close>.
\<close>

datatype exn = NotFound | Forbidden | HTTPException | LookupError | KeyError | AttributeError

definition is_HTTPException :: "exn \<Rightarrow> bool" where
  "is_HTTPException e = (e = NotFound \<or> e = Forbidden \<or> e = HTTPException)"

definition is_NotFound :: "exn \<Rightarrow> bool" where
  "is_NotFound e = (e = NotFound)"

text \<open>
  Message types of the platform, as far as the handlers tell them apart.
  \<open>Message.is_system()\<close> is false exactly for the types \<open>default\<close>, \<open>reply\<close>,
  \<open>chat_input_command\<close>, \<open>context_menu_command\<close> and \<open>thread_starter_message\<close>.
\<close>

datatype message_type =
  MT_default | MT_reply | MT_chat_input_command | MT_context_menu_command |
  MT_thread_starter_message | MT_pins_add | MT_channel_name_change

record message =
  message_id :: nat
  channel_id :: nat
  author_id :: nat
  author_bot :: bool
  message_type :: message_type
  message_pinned :: bool

text \<open>
  \<open>created_at\<close> of a message or partial message is read off its id
  (\<open>discord.utils.snowflake_time\<close>): the bits above the lowest 22 are the milliseconds
  since the first second of 2015. The value is the \<open>timestamp()\<close>, in seconds.
\<close>

definition snowflake_time :: "nat \<Rightarrow> real" where
  "snowflake_time i = real (i div 2 ^ 22 + 1420070400000) / 1000"

definition message_created_at :: "message \<Rightarrow> real" where
  "message_created_at m = snowflake_time (message_id m)"

definition is_system :: "message \<Rightarrow> bool" where
  "is_system m =
     (message_type m \<notin> {MT_default, MT_reply, MT_chat_input_command, MT_context_menu_command,
        MT_thread_starter_message})"

record member =
  member_id :: nat
  manage_threads_in :: "nat list"
  administrator :: bool

text \<open>An entry of the audit log: the id of its target and of the user who acted.\<close>

record audit_entry =
  target_id :: "nat option"
  user_id :: "nat option"

record forum_channel =
  forum_id :: nat
  available_tags :: "forum_tag list"
  default_thread_slowmode_delay :: nat
  default_auto_archive_duration :: nat
  threads :: "thread list"
  archived_threads :: "thread list"

datatype channel = ForumChannel forum_channel | OtherChannel nat

fun id_of_channel :: "channel \<Rightarrow> nat" where
  "id_of_channel (ForumChannel f) = forum_id f"
| "id_of_channel (OtherChannel i) = i"

text \<open>
  The entries of the dictionary \<open>thread_edits\<close> passed to \<open>thread.edit\<close> (the \<open>reason\<close> is
  left out).
\<close>

record thread_edits =
  edit_name :: "pystr option"
  edit_applied_tags :: "forum_tag list option"
  edit_slowmode_delay :: "nat option"
  edit_auto_archive_duration :: "nat option"
  edit_archived :: "bool option"

definition no_edits :: thread_edits where
  "no_edits = \<lparr>edit_name = None, edit_applied_tags = None, edit_slowmode_delay = None,
     edit_auto_archive_duration = None, edit_archived = None\<rparr>"

text \<open>The requests the bot sends to the platform, and what it sends as a message.\<close>

datatype request =
  FetchMessage nat nat | PinMessage nat nat | SendMessage nat | DeleteMessage nat nat |
  EditThread nat | DeleteThread nat | History nat | FetchChannel nat | FetchMember nat |
  ArchivedThreads nat | AuditLogs

datatype content =
  TitleCaution caution_type | TagsCaution | SolvedAlert | InactiveAlert | DeletionWarning

text \<open>What the bot did, in order: the effects a handler leaves behind.\<close>

datatype event =
  Pinned nat nat | Sent nat nat content | Deleted nat nat | Edited nat thread_edits |
  ThreadDeleted nat | Slept nat | TaskCreated nat

text \<open>
  The state a handler runs in: the two tables, the messages on the platform (newest
  first), the members and channels with the client's caches, the thread updates of the
  audit log (newest first), the clock, the id the next message gets, the requests that
  fail and how, and the effects so far.

  \<open>autocommit\<close> is the setting of \<open>db_engine\<close>, the \<open>AsyncEngine\<close> that is handed to the
  cog: whether a connection commits every statement by itself (isolation level
  \<open>AUTOCOMMIT\<close>). The default of an engine is not to: what a connection did is rolled
  back when the connection is closed without a commit.
\<close>

record world =
  bad_help_thread_data :: "bad_row list"
  inactive_help_thread_data :: "inactive_row list"
  autocommit :: bool
  messages :: "message list"
  message_cache :: "nat list"
  members :: "member list"
  member_cache :: "nat list"
  channels :: "channel list"
  channel_cache :: "nat list"
  audit_log :: "audit_entry list"
  clock :: real
  next_message_id :: nat
  faults :: "request \<Rightarrow> exn option"
  effects :: "event list"

text \<open>
  A coroutine is a function from the state to a result, an exception or a value, and the
  state it leaves. An exception keeps the effects that happened before it.
\<close>

type_synonym 'a io = "world \<Rightarrow> (exn + 'a) \<times> world"

definition io_return :: "'a \<Rightarrow> 'a io" where
  "io_return x = (\<lambda>w. (Inr x, w))"

definition io_raise :: "exn \<Rightarrow> 'a io" where
  "io_raise e = (\<lambda>w. (Inl e, w))"

definition io_bind :: "'a io \<Rightarrow> ('a \<Rightarrow> 'b io) \<Rightarrow> 'b io" where
  "io_bind m f = (\<lambda>w. case m w of (Inl e, w') \<Rightarrow> (Inl e, w') | (Inr x, w') \<Rightarrow> f x w')"

definition io_then :: "'a io \<Rightarrow> 'b io \<Rightarrow> 'b io" where
  "io_then m n = io_bind m (\<lambda>_. n)"

definition io_when :: "bool \<Rightarrow> unit io \<Rightarrow> unit io" where
  "io_when b m = (if b then m else io_return ())"

text \<open>\<open>try: m except E: h\<close>, where \<open>catches\<close> tells the exceptions of class \<open>E\<close>.\<close>

definition try_except :: "'a io \<Rightarrow> (exn \<Rightarrow> bool) \<Rightarrow> 'a io \<Rightarrow> 'a io" where
  "try_except m catches h =
     (\<lambda>w. case m w of (Inl e, w') \<Rightarrow> if catches e then h w' else (Inl e, w')
                     | (Inr x, w') \<Rightarrow> (Inr x, w'))"

text \<open>\<open>try: m finally: f\<close>: \<open>f\<close> runs in either case, and its own exception wins.\<close>

definition try_finally :: "'a io \<Rightarrow> unit io \<Rightarrow> 'a io" where
  "try_finally m f =
     (\<lambda>w. case m w of
        (r, w') \<Rightarrow> (case f w' of (Inl e, w'') \<Rightarrow> (Inl e, w'') | (Inr _, w'') \<Rightarrow> (r, w'')))"

text \<open>A \<open>for\<close> loop without \<open>break\<close>: the body runs for each element until one raises.\<close>

fun io_foreach :: "'a list \<Rightarrow> ('a \<Rightarrow> unit io) \<Rightarrow> unit io" where
  "io_foreach [] body = io_return ()"
| "io_foreach (x # xs) body = io_then (body x) (io_foreach xs body)"

text \<open>\<open>[await f(x) for x in xs]\<close>\<close>

fun io_map :: "('a \<Rightarrow> 'b io) \<Rightarrow> 'a list \<Rightarrow> 'b list io" where
  "io_map f [] = io_return []"
| "io_map f (x # xs) = io_bind (f x) (\<lambda>y. io_bind (io_map f xs) (\<lambda>ys. io_return (y # ys)))"

definition record_effect :: "event \<Rightarrow> world \<Rightarrow> world" where
  "record_effect ev w = w\<lparr>effects := effects w @ [ev]\<rparr>"

text \<open>A request that the platform refuses raises; otherwise it goes on.\<close>

definition request :: "request \<Rightarrow> 'a io \<Rightarrow> 'a io" where
  "request r m = (\<lambda>w. case faults w r of Some e \<Rightarrow> (Inl e, w) | None \<Rightarrow> m w)"

subsection \<open>Requests\<close>

definition find_message :: "nat \<Rightarrow> nat \<Rightarrow> world \<Rightarrow> message option" where
  "find_message tid mid w = find (\<lambda>m. channel_id m = tid \<and> message_id m = mid) (messages w)"

text \<open>\<open>thread.fetch_message(id)\<close>\<close>

definition fetch_message :: "nat \<Rightarrow> nat \<Rightarrow> message io" where
  "fetch_message tid mid =
     request (FetchMessage tid mid)
       (\<lambda>w. case find_message tid mid w of None \<Rightarrow> (Inl NotFound, w) | Some m \<Rightarrow> (Inr m, w))"

text \<open>The message of that id in the client's cache, as \<open>thread.last_message\<close> and
  \<open>thread.starter_message\<close> read it.\<close>

definition cached_message :: "nat \<Rightarrow> nat \<Rightarrow> world \<Rightarrow> message option" where
  "cached_message tid mid w =
     (if mid \<in> set (message_cache w) then find_message tid mid w else None)"

text \<open>\<open>message.pin()\<close>\<close>

definition pin :: "nat \<Rightarrow> nat \<Rightarrow> unit io" where
  "pin tid mid =
     request (PinMessage tid mid)
       (\<lambda>w. case find_message tid mid w of
          None \<Rightarrow> (Inl NotFound, w)
        | Some _ \<Rightarrow>
            (Inr (),
             record_effect (Pinned tid mid)
               (w\<lparr>messages :=
                    map (\<lambda>m. if channel_id m = tid \<and> message_id m = mid
                             then m\<lparr>message_pinned := True\<rparr> else m) (messages w)\<rparr>)))"

text \<open>\<open>thread.send(...)\<close>: the new message is the bot's, gets a fresh id and is the newest.\<close>

definition send :: "config \<Rightarrow> nat \<Rightarrow> content \<Rightarrow> message io" where
  "send cfg tid c =
     request (SendMessage tid)
       (\<lambda>w. let m = \<lparr>message_id = next_message_id w, channel_id = tid,
                      author_id = bot_user_id cfg, author_bot = True,
                      message_type = MT_default, message_pinned = False\<rparr>
            in (Inr m,
                record_effect (Sent tid (message_id m) c)
                  (w\<lparr>messages := m # messages w, next_message_id := Suc (next_message_id w)\<rparr>)))"

text \<open>\<open>thread.get_partial_message(id).delete()\<close>\<close>

definition delete_message :: "nat \<Rightarrow> nat \<Rightarrow> unit io" where
  "delete_message tid mid =
     request (DeleteMessage tid mid)
       (\<lambda>w. case find_message tid mid w of
          None \<Rightarrow> (Inl NotFound, w)
        | Some _ \<Rightarrow>
            (Inr (),
             record_effect (Deleted tid mid)
               (w\<lparr>messages :=
                    filter (\<lambda>m. \<not> (channel_id m = tid \<and> message_id m = mid)) (messages w)\<rparr>)))"

text \<open>\<open>thread.edit(**thread_edits)\<close>\<close>

definition edit :: "nat \<Rightarrow> thread_edits \<Rightarrow> unit io" where
  "edit tid edits = request (EditThread tid) (\<lambda>w. (Inr (), record_effect (Edited tid edits) w))"

text \<open>\<open>thread.delete()\<close>\<close>

definition delete_thread :: "nat \<Rightarrow> unit io" where
  "delete_thread tid =
     request (DeleteThread tid)
       (\<lambda>w. (Inr (),
             record_effect (ThreadDeleted tid) (w\<lparr>messages := filter (\<lambda>m. channel_id m \<noteq> tid) (messages w)\<rparr>)))"

text \<open>\<open>[m async for m in thread.history(limit=n)]\<close>: the newest \<open>n\<close> messages.\<close>

definition history :: "nat \<Rightarrow> nat \<Rightarrow> message list io" where
  "history tid limit =
     request (History tid)
       (\<lambda>w. (Inr (take limit (filter (\<lambda>m. channel_id m = tid) (messages w))), w))"

text \<open>\<open>asyncio.sleep(n)\<close> and \<open>time.time()\<close>\<close>

definition sleep :: "nat \<Rightarrow> unit io" where
  "sleep n = (\<lambda>w. (Inr (), record_effect (Slept n) (w\<lparr>clock := clock w + real n\<rparr>)))"

definition time_time :: "real io" where
  "time_time = (\<lambda>w. (Inr (clock w), w))"

text \<open>\<open>bot.get_channel(id) or await bot.fetch_channel(id)\<close>\<close>

definition get_or_fetch_channel :: "nat \<Rightarrow> channel io" where
  "get_or_fetch_channel cid =
     (\<lambda>w. case find (\<lambda>c. id_of_channel c = cid) (channels w) of
        Some c \<Rightarrow> if cid \<in> set (channel_cache w) then (Inr c, w)
                  else request (FetchChannel cid) (io_return c) w
      | None \<Rightarrow> request (FetchChannel cid) (io_raise NotFound) w)"

text \<open>\<open>guild.get_member(id) or await guild.fetch_member(id)\<close>\<close>

definition get_or_fetch_member :: "nat \<Rightarrow> member io" where
  "get_or_fetch_member uid =
     (\<lambda>w. case find (\<lambda>m. member_id m = uid) (members w) of
        Some m \<Rightarrow> if uid \<in> set (member_cache w) then (Inr m, w)
                  else request (FetchMember uid) (io_return m) w
      | None \<Rightarrow> request (FetchMember uid) (io_raise NotFound) w)"

text \<open>
  \<open>forum_channel.archived_threads(limit=20)\<close>, and the thread updates among the newest 20
  entries of the audit log.
\<close>

definition fetch_archived_threads :: "forum_channel \<Rightarrow> thread list io" where
  "fetch_archived_threads f =
     request (ArchivedThreads (forum_id f)) (io_return (take 20 (archived_threads f)))"

definition audit_logs :: "audit_entry list io" where
  "audit_logs = request AuditLogs (\<lambda>w. (Inr (take 20 (audit_log w)), w))"

text \<open>\<open>d[k]\<close> on a dictionary\<close>

definition dict_get :: "(string \<times> nat) list \<Rightarrow> string \<Rightarrow> nat io" where
  "dict_get d k = (case map_of d k of None \<Rightarrow> io_raise KeyError | Some v \<Rightarrow> io_return v)"

subsection \<open>The persistence operations of the cog\<close>

text \<open>
  The two save operations run their statement in \<open>async with self.db_engine.begin()\<close>,
  which commits at the end of the block. The other operations run theirs in \<open>async with
  self.db_engine.connect()\<close> and never call \<open>commit\<close>: the \<open>DELETE\<close> of the two delete
  operations lasts only on an engine that commits by itself.
\<close>

definition bad_help_thread_data_exists :: "nat \<Rightarrow> bool io" where
  "bad_help_thread_data_exists tid =
     (\<lambda>w. (Inr (sql_exists bad_thread_id tid (bad_help_thread_data w)), w))"

definition fetch_bad_help_thread_data :: "nat \<Rightarrow> bad_row io" where
  "fetch_bad_help_thread_data tid =
     (\<lambda>w. case sql_select_first bad_thread_id tid (bad_help_thread_data w) of
        None \<Rightarrow> (Inl LookupError, w)
      | Some row \<Rightarrow> (Inr row, w))"

definition save_bad_help_thread_data :: "bad_row \<Rightarrow> unit io" where
  "save_bad_help_thread_data data =
     (\<lambda>w. (Inr (),
        w\<lparr>bad_help_thread_data :=
            sql_insert_on_conflict_update bad_thread_id data (bad_help_thread_data w)\<rparr>))"

definition delete_bad_help_thread_data :: "nat \<Rightarrow> unit io" where
  "delete_bad_help_thread_data tid =
     (\<lambda>w. (Inr (),
        if autocommit w
        then w\<lparr>bad_help_thread_data := sql_delete bad_thread_id tid (bad_help_thread_data w)\<rparr>
        else w))"

definition inactive_help_thread_data_exists :: "nat \<Rightarrow> bool io" where
  "inactive_help_thread_data_exists tid =
     (\<lambda>w. (Inr (sql_exists inactive_thread_id tid (inactive_help_thread_data w)), w))"

definition fetch_inactive_help_thread_data :: "nat \<Rightarrow> inactive_row io" where
  "fetch_inactive_help_thread_data tid =
     (\<lambda>w. case sql_select_first inactive_thread_id tid (inactive_help_thread_data w) of
        None \<Rightarrow> (Inl LookupError, w)
      | Some row \<Rightarrow> (Inr row, w))"

definition save_inactive_help_thread_data :: "inactive_row \<Rightarrow> unit io" where
  "save_inactive_help_thread_data data =
     (\<lambda>w. (Inr (),
        w\<lparr>inactive_help_thread_data :=
            sql_insert_on_conflict_update inactive_thread_id data (inactive_help_thread_data w)\<rparr>))"

definition delete_inactive_help_thread_data :: "nat \<Rightarrow> unit io" where
  "delete_inactive_help_thread_data tid =
     (\<lambda>w. (Inr (),
        if autocommit w
        then w\<lparr>inactive_help_thread_data :=
               sql_delete inactive_thread_id tid (inactive_help_thread_data w)\<rparr>
        else w))"

section \<open>The handlers of the cog\<close>

definition in_help_forum :: "config \<Rightarrow> thread \<Rightarrow> bool" where
  "in_help_forum cfg thread \<longleftrightarrow> parent_id thread \<in> set (map snd (HELP_FORUM_CHANNEL_IDS cfg))"

text \<open>
  \<open>thread.parent or bot.get_channel(thread.parent_id) or await
  bot.fetch_channel(thread.parent_id)\<close>, of which the handlers read forum attributes.
\<close>

definition parent_forum :: "thread \<Rightarrow> forum_channel io" where
  "parent_forum thread =
     io_bind (get_or_fetch_channel (parent_id thread))
       (\<lambda>c. case c of ForumChannel f \<Rightarrow> io_return f | OtherChannel _ \<Rightarrow> io_raise AttributeError)"

text \<open>\<open>thread.starter_message or await thread.fetch_message(thread.id)\<close>\<close>

definition starter_message_of :: "thread \<Rightarrow> message io" where
  "starter_message_of thread =
     (\<lambda>w. case cached_message (thread_id thread) (thread_id thread) w of
        Some m \<Rightarrow> (Inr m, w)
      | None \<Rightarrow> fetch_message (thread_id thread) (thread_id thread) w)"

text \<open>The message ids of a list of messages as a Python set.\<close>

definition id_set :: "message list \<Rightarrow> nat list" where
  "id_set ms = remdups (map message_id ms)"

definition set_union :: "nat list \<Rightarrow> nat list \<Rightarrow> nat list" where
  "set_union xs ys = xs @ filter (\<lambda>y. y \<notin> set xs) (remdups ys)"

subsection \<open>Cautions\<close>

definition caution_about_help_forum_channel_thread_name ::
  "config \<Rightarrow> thread \<Rightarrow> caution_type list \<Rightarrow> message list io" where
  "caution_about_help_forum_channel_thread_name cfg thread caution_types =
     io_map (\<lambda>caution_type. send cfg (thread_id thread) (TitleCaution caution_type)) caution_types"

text \<open>The text of the tag caution names the forum \<open>python\<close>.\<close>

definition caution_about_regulars_help_forum_channel_thread_tags ::
  "config \<Rightarrow> thread \<Rightarrow> message io" where
  "caution_about_regulars_help_forum_channel_thread_tags cfg thread =
     io_bind (dict_get (HELP_FORUM_CHANNEL_IDS cfg) ''python'')
       (\<lambda>_. send cfg (thread_id thread) TagsCaution)"

definition send_help_thread_solved_alert :: "config \<Rightarrow> thread \<Rightarrow> unit io" where
  "send_help_thread_solved_alert cfg thread =
     io_bind (send cfg (thread_id thread) SolvedAlert) (\<lambda>_. io_return ())"

text \<open>
  \<open>thread.parent_id == HELP_FORUM_CHANNEL_IDS["regulars"] and not
  validate_regulars_help_forum_channel_thread_tags(thread)\<close>
\<close>

definition regulars_tags_invalid :: "config \<Rightarrow> thread \<Rightarrow> bool io" where
  "regulars_tags_invalid cfg thread =
     io_bind (dict_get (HELP_FORUM_CHANNEL_IDS cfg) ''regulars'')
       (\<lambda>regulars. io_return (parent_id thread = regulars \<and>
                       \<not> validate_regulars_help_forum_channel_thread_tags thread))"

text \<open>The first tag of the forum whose name starts with \<open>unsolved\<close>, put in front.\<close>

definition insert_unsolved_tag :: "forum_channel \<Rightarrow> forum_tag list \<Rightarrow> forum_tag list" where
  "insert_unsolved_tag parent new_tags =
     (case find (\<lambda>tag. startswith (lower (tag_name tag)) ''unsolved'') (available_tags parent) of
        None \<Rightarrow> new_tags
      | Some tag \<Rightarrow> tag # new_tags)"

subsection \<open>\<open>on_thread_create\<close>\<close>

text \<open>
  Lines 275 to 291: the tags of a thread with room for one more get the forum's
  \<open>unsolved\<close> tag in front. Only here the parent is asked for its \<open>available_tags\<close>, which
  a channel that is no forum does not have.
\<close>

definition on_thread_create_tags :: "config \<Rightarrow> channel \<Rightarrow> thread \<Rightarrow> thread_edits io" where
  "on_thread_create_tags cfg parent thread =
     (let tags = applied_tags thread in
      if length tags < FORUM_THREAD_TAG_LIMIT cfg \<or>
         (length tags = FORUM_THREAD_TAG_LIMIT cfg \<and> any_tag_startswith tags [''solved''])
      then (case parent of
              OtherChannel _ \<Rightarrow> io_raise AttributeError
            | ForumChannel forum_channel \<Rightarrow>
                io_return
                  (no_edits\<lparr>edit_applied_tags :=
                     Some (insert_unsolved_tag forum_channel
                             (filter (\<lambda>tag. \<not> startswith (lower (tag_name tag)) ''solved'')
                                tags))\<rparr>))
      else io_return no_edits)"

text \<open>
  Lines 293 to 343, after the tags: the cautions, the record and the edit. The local
  variables \<open>thread_edits\<close>, \<open>issues_found\<close> and \<open>caution_messages\<close> are passed from step to
  step.
\<close>

definition on_thread_create_checks :: "config \<Rightarrow> thread \<Rightarrow> thread_edits \<Rightarrow> unit io" where
  "on_thread_create_checks cfg thread thread_edits =
     (let caution_types = get_help_forum_channel_thread_name_cautions cfg thread
      in
      io_bind
        (if caution_types \<noteq> []
         then io_bind (caution_about_help_forum_channel_thread_name cfg thread caution_types)
                (\<lambda>msgs. io_return
                   (True, msgs,
                    if ''thread_title_too_short'' \<in> set caution_types
                    then thread_edits\<lparr>edit_slowmode_delay :=
                           Some (THREAD_TITLE_TOO_SHORT_SLOWMODE_DELAY cfg)\<rparr>
                    else thread_edits))
         else io_return (False, [], thread_edits))
        (\<lambda>(issues_found, caution_messages, thread_edits).
      io_bind (regulars_tags_invalid cfg thread) (\<lambda>bad_tags.
      io_bind
        (if bad_tags
         then io_bind (caution_about_regulars_help_forum_channel_thread_tags cfg thread)
                (\<lambda>msg. io_return (True, caution_messages @ [msg]))
         else io_return (issues_found, caution_messages))
        (\<lambda>(issues_found, caution_messages).
      io_bind (bad_help_thread_data_exists (thread_id thread)) (\<lambda>exists.
      io_bind
        (if issues_found \<and> \<not> exists
         then io_bind time_time (\<lambda>now.
                save_bad_help_thread_data
                  \<lparr>bad_thread_id = thread_id thread, last_cautioned_ts = now,
                   caution_message_ids = id_set caution_messages\<rparr>)
         else io_return ())
        (\<lambda>_.
      let thread_edits = thread_edits\<lparr>edit_name := owner_id_name_edit thread\<rparr>
      in io_when (thread_edits \<noteq> no_edits) (edit (thread_id thread) thread_edits)))))))"

text \<open>The body of the \<open>try\<close> statement, lines 258 to 343.\<close>

definition on_thread_create_body :: "config \<Rightarrow> thread \<Rightarrow> unit io" where
  "on_thread_create_body cfg thread =
     io_bind (starter_message_of thread) (\<lambda>starter.
     io_bind (pin (thread_id thread) (message_id starter)) (\<lambda>_.
     io_bind (get_or_fetch_channel (parent_id thread)) (\<lambda>parent.
     io_bind (on_thread_create_tags cfg parent thread) (on_thread_create_checks cfg thread))))"

definition on_thread_create :: "config \<Rightarrow> thread \<Rightarrow> unit io" where
  "on_thread_create cfg thread =
     io_when (in_help_forum cfg thread)
       (try_except (on_thread_create_body cfg thread) is_HTTPException (io_return ()))"

subsection \<open>\<open>on_thread_update\<close>\<close>

text \<open>
  The user of the newest audit-log entry, among the newest 20 thread updates, that targets
  the thread and names a user.
\<close>

definition updater_in :: "thread \<Rightarrow> audit_entry list \<Rightarrow> nat option" where
  "updater_in after entries =
     (case find (\<lambda>action. target_id action = Some (thread_id after) \<and> user_id action \<noteq> None)
             entries of
        None \<Rightarrow> None
      | Some action \<Rightarrow> user_id action)"

definition find_updater_id :: "thread \<Rightarrow> nat option io" where
  "find_updater_id after = io_bind audit_logs (\<lambda>entries. io_return (updater_in after entries))"

text \<open>
  Lines 371 to 424: a changed name is checked against the title rules, otherwise changed
  tags against the tag rule. The result is \<open>(thread_edits, caution_messages,
  bad_thread_name, bad_thread_tags)\<close>.
\<close>

definition check_name_or_tags ::
  "config \<Rightarrow> thread \<Rightarrow> thread \<Rightarrow> nat option \<Rightarrow> (thread_edits \<times> message list \<times> bool \<times> bool) io" where
  "check_name_or_tags cfg before after updater_id =
     (if name before \<noteq> name after \<and> updater_id \<noteq> Some (bot_user_id cfg) then
        (let caution_types = get_help_forum_channel_thread_name_cautions cfg after in
         if caution_types \<noteq> [] then
           io_bind (caution_about_help_forum_channel_thread_name cfg after caution_types) (\<lambda>msgs.
           if ''thread_title_too_short'' \<in> set caution_types \<and>
              slowmode_delay after < THREAD_TITLE_TOO_SHORT_SLOWMODE_DELAY cfg
           then io_return
                  (no_edits\<lparr>edit_slowmode_delay := Some (THREAD_TITLE_TOO_SHORT_SLOWMODE_DELAY cfg)\<rparr>,
                   msgs, True, False)
           else if ''thread_title_too_short'' \<notin> set caution_types \<and>
              slowmode_delay after = THREAD_TITLE_TOO_SHORT_SLOWMODE_DELAY cfg
           then io_bind (parent_forum after) (\<lambda>parent.
                  io_return
                    (no_edits\<lparr>edit_slowmode_delay := Some (default_thread_slowmode_delay parent)\<rparr>,
                     msgs, True, False))
           else io_return (no_edits, msgs, True, False))
         else io_return (no_edits, [], False, False))
      else if applied_tags before \<noteq> applied_tags after \<and> updater_id \<noteq> Some (bot_user_id cfg) then
        io_bind (regulars_tags_invalid cfg after) (\<lambda>bad_tags.
          if bad_tags
          then io_bind (caution_about_regulars_help_forum_channel_thread_tags cfg after)
                 (\<lambda>msg. io_return (no_edits, [msg], False, True))
          else io_return (no_edits, [], False, False))
      else io_return (no_edits, [], False, False))"

text \<open>Lines 427 to 451: the record of a thread found bad is created, then extended.\<close>

definition record_cautions :: "thread \<Rightarrow> message list \<Rightarrow> unit io" where
  "record_cautions after caution_messages =
     io_bind (bad_help_thread_data_exists (thread_id after)) (\<lambda>exists.
     io_bind
       (if \<not> exists
        then io_bind time_time (\<lambda>now.
               save_bad_help_thread_data
                 \<lparr>bad_thread_id = thread_id after, last_cautioned_ts = now,
                  caution_message_ids = id_set caution_messages\<rparr>)
        else io_return ())
       (\<lambda>_.
     io_bind (fetch_bad_help_thread_data (thread_id after)) (\<lambda>bad_thread_data.
     io_bind time_time (\<lambda>now.
       save_bad_help_thread_data
         \<lparr>bad_thread_id = thread_id after, last_cautioned_ts = now,
          caution_message_ids =
            set_union (caution_message_ids bad_thread_data) (id_set caution_messages)\<rparr>))))"

text \<open>\<open>try: await after.get_partial_message(msg_id).delete() except discord.NotFound: pass\<close>\<close>

definition delete_if_found :: "nat \<Rightarrow> nat \<Rightarrow> unit io" where
  "delete_if_found tid mid = try_except (delete_message tid mid) is_NotFound (io_return ())"

text \<open>
  Lines 453 to 494, the resolution: a thread with a record, edited by someone other than
  the bot, that has no title caution and no invalid tags any more, loses the slowmode
  penalty, its caution messages and its record.
\<close>

definition resolve_cautions :: "config \<Rightarrow> thread \<Rightarrow> nat option \<Rightarrow> thread_edits \<Rightarrow> thread_edits io" where
  "resolve_cautions cfg after updater_id thread_edits =
     io_bind (bad_help_thread_data_exists (thread_id after)) (\<lambda>exists.
     if exists \<and> updater_id \<noteq> Some (bot_user_id cfg) then
       io_bind
         (if get_help_forum_channel_thread_name_cautions cfg after \<noteq> [] then io_return True
          else regulars_tags_invalid cfg after)
         (\<lambda>still_bad.
       if \<not> still_bad then
         io_bind
           (if slowmode_delay after = THREAD_TITLE_TOO_SHORT_SLOWMODE_DELAY cfg
            then io_bind (parent_forum after) (\<lambda>parent.
                   io_return (thread_edits\<lparr>edit_slowmode_delay :=
                                Some (default_thread_slowmode_delay parent)\<rparr>))
            else io_return thread_edits)
           (\<lambda>thread_edits.
         io_bind (fetch_bad_help_thread_data (thread_id after)) (\<lambda>bad_thread_data.
         io_bind (io_foreach (caution_message_ids bad_thread_data) (delete_if_found (thread_id after)))
           (\<lambda>_.
         io_bind (delete_bad_help_thread_data (thread_id after)) (\<lambda>_.
         io_return thread_edits))))
       else io_return thread_edits)
     else io_return thread_edits)"

text \<open>Lines 496 to 567: a thread newly marked as solved, or not solved any more.\<close>

definition solved_transitions :: "config \<Rightarrow> thread \<Rightarrow> thread \<Rightarrow> thread_edits \<Rightarrow> thread_edits io" where
  "solved_transitions cfg before after thread_edits =
     (let solved_in_before = any_tag_startswith (applied_tags before) [''solved''];
          solved_in_after = any_tag_startswith (applied_tags after) [''solved'']
      in
      if \<not> solved_in_before \<and> solved_in_after then
        io_bind (send_help_thread_solved_alert cfg after) (\<lambda>_.
        io_bind (inactive_help_thread_data_exists (thread_id after)) (\<lambda>exists.
        io_bind
          (if exists
           then io_bind (fetch_inactive_help_thread_data (thread_id after)) (\<lambda>inactive_thread_data.
                  try_finally
                    (case alert_message_id inactive_thread_data of
                       None \<Rightarrow> io_return ()
                     | Some mid \<Rightarrow>
                         if mid \<noteq> 0 then delete_if_found (thread_id after) mid else io_return ())
                    (delete_inactive_help_thread_data (thread_id after)))
           else io_return ())
          (\<lambda>_.
        io_return
          (thread_edits\<lparr>edit_auto_archive_duration := Some 60,
             edit_applied_tags :=
               Some (filter (\<lambda>tag. \<not> startswith (lower (tag_name tag)) ''unsolved'')
                       (applied_tags after))\<rparr>))))
      else if solved_in_before \<and> \<not> solved_in_after then
        io_bind (parent_forum after) (\<lambda>parent.
        io_return
          (thread_edits\<lparr>edit_auto_archive_duration := Some (default_auto_archive_duration parent),
             edit_slowmode_delay :=
               (if slowmode_delay after = 60 then Some (default_thread_slowmode_delay parent)
                else None),
             edit_applied_tags :=
               Some (if length (applied_tags after) < FORUM_THREAD_TAG_LIMIT cfg
                     then insert_unsolved_tag parent (applied_tags after)
                     else applied_tags after)\<rparr>))
      else io_return thread_edits)"

text \<open>Lines 355 to 573: the thread is neither archived nor locked.\<close>

definition on_thread_update_open :: "config \<Rightarrow> thread \<Rightarrow> thread \<Rightarrow> unit io" where
  "on_thread_update_open cfg before after =
     io_bind (find_updater_id after) (\<lambda>updater_id.
     io_bind (check_name_or_tags cfg before after updater_id)
       (\<lambda>(thread_edits, caution_messages, bad_thread_name, bad_thread_tags).
     io_bind
       (if bad_thread_name \<or> bad_thread_tags
        then io_bind (record_cautions after caution_messages) (\<lambda>_. io_return thread_edits)
        else io_bind (resolve_cautions cfg after updater_id thread_edits)
               (solved_transitions cfg before after))
       (\<lambda>thread_edits.
     io_when (thread_edits \<noteq> no_edits)
       (io_then (sleep 5) (edit (thread_id after) thread_edits)))))"

text \<open>Lines 575 to 606: the thread is archived, not locked, and solved.\<close>

definition archived_thread_edits :: "forum_channel \<Rightarrow> thread \<Rightarrow> thread_edits" where
  "archived_thread_edits parent after =
     (let thread_edits =
            (if slowmode_delay after = default_thread_slowmode_delay parent
             then no_edits\<lparr>edit_slowmode_delay := Some 60\<rparr> else no_edits)
      in thread_edits\<lparr>edit_name := owner_id_name_edit after\<rparr>)"

definition on_thread_update_archived :: "thread \<Rightarrow> unit io" where
  "on_thread_update_archived after =
     io_when (any_tag_startswith (applied_tags after) [''solved''])
       (io_bind (parent_forum after) (\<lambda>parent.
        let thread_edits = archived_thread_edits parent after in
        io_when (thread_edits \<noteq> no_edits)
          (io_then (edit (thread_id after) (no_edits\<lparr>edit_archived := Some False\<rparr>))
          (io_then (sleep 5)
             (edit (thread_id after) (thread_edits\<lparr>edit_archived := Some True\<rparr>))))))"

definition on_thread_update :: "config \<Rightarrow> thread \<Rightarrow> thread \<Rightarrow> unit io" where
  "on_thread_update cfg before after =
     io_when (in_help_forum cfg after)
       (try_except
          (if \<not> (archived after \<or> locked after) then on_thread_update_open cfg before after
           else if archived after \<and> \<not> locked after then on_thread_update_archived after
           else io_return ())
          is_HTTPException (io_return ()))"

subsection \<open>The last activity of a thread\<close>

text \<open>
  \<open>fetch_last_thread_message\<close>: the cached last message, else the fetched one, else the
  newest of the history. \<open>fetch_last_thread_activity_dt\<close> runs the same search and returns
  the creation time of the message found, or that of the thread.
\<close>

definition fetch_last_thread_message :: "thread \<Rightarrow> message option io" where
  "fetch_last_thread_message thread =
     (\<lambda>w. case (case last_message_id thread of
                  None \<Rightarrow> None
                | Some mid \<Rightarrow> cached_message (thread_id thread) mid w) of
        Some m \<Rightarrow> (Inr (Some m), w)
      | None \<Rightarrow>
          io_bind
            (case last_message_id thread of
               None \<Rightarrow> io_return None
             | Some mid \<Rightarrow>
                 try_except
                   (io_bind (fetch_message (thread_id thread) mid) (\<lambda>m. io_return (Some m)))
                   is_NotFound (io_return None))
            (\<lambda>found. case found of
               Some m \<Rightarrow> io_return (Some m)
             | None \<Rightarrow>
                 try_except
                   (io_bind (history (thread_id thread) 1)
                      (\<lambda>ms. io_return (case ms of [] \<Rightarrow> None | m # _ \<Rightarrow> Some m)))
                   is_HTTPException (io_return None))
            w)"

definition fetch_last_thread_activity_dt :: "thread \<Rightarrow> real option io" where
  "fetch_last_thread_activity_dt thread =
     io_bind (fetch_last_thread_message thread)
       (\<lambda>last_message. io_return (case last_message of
                                   None \<Rightarrow> created_at thread
                                 | Some m \<Rightarrow> Some (message_created_at m)))"

text \<open>\<open>dt.timestamp()\<close>, where \<open>dt\<close> may be \<open>None\<close>\<close>

definition timestamp :: "real option \<Rightarrow> real io" where
  "timestamp dt = (case dt of None \<Rightarrow> io_raise AttributeError | Some t \<Rightarrow> io_return t)"

subsection \<open>The inactivity sweep\<close>

text \<open>
  \<open>(not await self.inactive_help_thread_data_exists(id)) or (await
  self.fetch_inactive_help_thread_data(id))["last_active_ts"] < last_active_ts\<close>
\<close>

definition no_fresher_alert :: "thread \<Rightarrow> real \<Rightarrow> bool io" where
  "no_fresher_alert help_thread ts =
     io_bind (inactive_help_thread_data_exists (thread_id help_thread)) (\<lambda>exists.
       if \<not> exists then io_return True
       else io_bind (fetch_inactive_help_thread_data (thread_id help_thread))
              (\<lambda>inactive_thread_data. io_return (last_active_ts inactive_thread_data < ts)))"

text \<open>
  \<open>help_thread.archived and help_thread.archiver_id and (help_thread.archiver_id ==
  help_thread.owner_id or forum_channel.permissions_for(member).manage_threads)\<close>, where
  \<open>member\<close> is the archiver, from the cache or fetched.
\<close>

definition alert_suppressed :: "forum_channel \<Rightarrow> thread \<Rightarrow> bool io" where
  "alert_suppressed forum_channel help_thread =
     (if archived help_thread then
        (case archiver_id help_thread of
           None \<Rightarrow> io_return False
         | Some archiver \<Rightarrow>
             if archiver = 0 then io_return False
             else if archiver = owner_id help_thread then io_return True
             else io_bind (get_or_fetch_member archiver)
                    (\<lambda>m. io_return (forum_id forum_channel \<in> set (manage_threads_in m))))
      else io_return False)"

text \<open>Lines 804 to 853: the thread has been inactive for more than 23 hours 30 minutes.\<close>

definition alert_inactive_thread :: "config \<Rightarrow> forum_channel \<Rightarrow> thread \<Rightarrow> real \<Rightarrow> unit io" where
  "alert_inactive_thread cfg forum_channel help_thread ts =
     io_bind (no_fresher_alert help_thread ts) (\<lambda>due.
     io_when due
       (io_bind (alert_suppressed forum_channel help_thread) (\<lambda>suppressed.
        io_when (\<not> suppressed)
          (io_bind (send cfg (thread_id help_thread) InactiveAlert) (\<lambda>alert_message.
           save_inactive_help_thread_data
             \<lparr>inactive_thread_id = thread_id help_thread,
              last_active_ts = message_created_at alert_message,
              alert_message_id = Some (message_id alert_message)\<rparr>)))))"

text \<open>Lines 854 to 889: there was activity after the alert, which is deleted.\<close>

definition retract_alert :: "thread \<Rightarrow> real \<Rightarrow> unit io" where
  "retract_alert help_thread ts =
     io_bind (inactive_help_thread_data_exists (thread_id help_thread)) (\<lambda>exists.
     io_when exists
       (io_bind (fetch_inactive_help_thread_data (thread_id help_thread)) (\<lambda>inactive_thread_data.
        case alert_message_id inactive_thread_data of
          None \<Rightarrow> io_return ()
        | Some mid \<Rightarrow>
            io_when (mid \<noteq> 0 \<and> snowflake_time mid < ts)
              (try_except
                 (io_bind (fetch_last_thread_message help_thread) (\<lambda>last_message.
                    case last_message of
                      None \<Rightarrow> io_return ()
                    | Some m \<Rightarrow>
                        io_when (\<not> is_system m)
                          (try_finally
                             (delete_if_found (thread_id help_thread) mid)
                             (save_inactive_help_thread_data
                                \<lparr>inactive_thread_id = thread_id help_thread,
                                 last_active_ts = message_created_at m,
                                 alert_message_id = None\<rparr>))))
                 is_NotFound (io_return ())))))"

text \<open>Lines 787 to 889: the body of the \<open>try\<close> statement for one thread.\<close>

definition inactive_help_thread_alert_body ::
  "config \<Rightarrow> forum_channel \<Rightarrow> real \<Rightarrow> thread \<Rightarrow> unit io" where
  "inactive_help_thread_alert_body cfg forum_channel now_ts help_thread =
     (case created_at help_thread of
        None \<Rightarrow> io_return ()
      | Some _ \<Rightarrow>
          io_when (\<not> (locked help_thread \<or> flags_pinned help_thread \<or>
                      any_tag_startswith (applied_tags help_thread) [''solved'']))
            (io_bind (io_bind (fetch_last_thread_activity_dt help_thread) timestamp) (\<lambda>ts.
               if now_ts - ts > 3600 * 23 + 1800
               then alert_inactive_thread cfg forum_channel help_thread ts
               else retract_alert help_thread ts)))"

text \<open>One iteration of the loop over the threads: \<open>try: ... except discord.HTTPException: pass\<close>\<close>

definition inactive_help_thread_alert_thread ::
  "config \<Rightarrow> forum_channel \<Rightarrow> real \<Rightarrow> thread \<Rightarrow> unit io" where
  "inactive_help_thread_alert_thread cfg forum_channel now_ts help_thread =
     try_except (inactive_help_thread_alert_body cfg forum_channel now_ts help_thread)
       is_HTTPException (io_return ())"

text \<open>
  The sweep over the forums. A channel that is no forum ends the whole sweep (\<open>return\<close>);
  the archived threads are fetched before the loop over the threads begins.
\<close>

fun inactive_help_thread_alert_forums :: "config \<Rightarrow> channel list \<Rightarrow> unit io" where
  "inactive_help_thread_alert_forums cfg [] = io_return ()"
| "inactive_help_thread_alert_forums cfg (OtherChannel _ # rest) = io_return ()"
| "inactive_help_thread_alert_forums cfg (ForumChannel forum_channel # rest) =
     io_bind time_time (\<lambda>now_ts.
     io_bind (fetch_archived_threads forum_channel) (\<lambda>archived.
     io_then
       (io_foreach (threads forum_channel @ archived)
          (inactive_help_thread_alert_thread cfg forum_channel now_ts))
       (inactive_help_thread_alert_forums cfg rest)))"

definition inactive_help_thread_alert :: "config \<Rightarrow> unit io" where
  "inactive_help_thread_alert cfg =
     io_bind (io_map get_or_fetch_channel (map snd (HELP_FORUM_CHANNEL_IDS cfg)))
       (inactive_help_thread_alert_forums cfg)"

subsection \<open>The sweep for threads without starter message\<close>

definition help_thread_deletion_checks_task :: "thread \<Rightarrow> unit io" where
  "help_thread_deletion_checks_task help_thread =
     (\<lambda>w. (Inr (), record_effect (TaskCreated (thread_id help_thread)) w))"

text \<open>
  One thread of the sweep: only \<open>discord.NotFound\<close> is handled around the fetch of the
  starter message. The deletion checks are started as a task of their own.
\<close>

definition delete_help_threads_without_starter_message_thread :: "thread \<Rightarrow> unit io" where
  "delete_help_threads_without_starter_message_thread help_thread =
     io_bind
       (try_except (io_bind (starter_message_of help_thread) (\<lambda>_. io_return True))
          is_NotFound (io_return False))
       (\<lambda>starter_exists.
          if starter_exists then io_return ()
          else help_thread_deletion_checks_task help_thread)"

text \<open>A channel that is no forum has no threads to offer: an \<open>AttributeError\<close>.\<close>

definition delete_help_threads_without_starter_message :: "config \<Rightarrow> unit io" where
  "delete_help_threads_without_starter_message cfg =
     io_bind (io_map get_or_fetch_channel (map snd (HELP_FORUM_CHANNEL_IDS cfg)))
       (\<lambda>forum_channels.
          io_foreach forum_channels
            (\<lambda>c. case c of
               OtherChannel _ \<Rightarrow> io_raise AttributeError
             | ForumChannel forum_channel \<Rightarrow>
                 io_bind (fetch_archived_threads forum_channel) (\<lambda>archived.
                   io_foreach (threads forum_channel @ archived)
                     delete_help_threads_without_starter_message_thread)))"

subsection \<open>The archive-timeout sweep\<close>

definition force_archive_edits :: "forum_channel \<Rightarrow> thread \<Rightarrow> thread_edits" where
  "force_archive_edits forum_channel help_thread =
     (let thread_edits = no_edits\<lparr>edit_archived := Some True\<rparr>;
          thread_edits =
            (if any_tag_startswith (applied_tags help_thread) [''solved''] \<and>
                slowmode_delay help_thread = default_thread_slowmode_delay forum_channel
             then thread_edits\<lparr>edit_slowmode_delay := Some 60\<rparr> else thread_edits)
      in case owner_id_name_edit help_thread of
           None \<Rightarrow> thread_edits
         | Some n \<Rightarrow> thread_edits\<lparr>edit_archived := Some False, edit_name := Some n\<rparr>)"

definition force_help_thread_archive_after_timeout_body ::
  "forum_channel \<Rightarrow> real \<Rightarrow> thread \<Rightarrow> unit io" where
  "force_help_thread_archive_after_timeout_body forum_channel now_ts help_thread =
     (case created_at help_thread of
        None \<Rightarrow> io_return ()
      | Some _ \<Rightarrow>
          io_when (\<not> (archived help_thread \<or> locked help_thread \<or> flags_pinned help_thread))
            (io_bind (io_bind (fetch_last_thread_activity_dt help_thread) timestamp) (\<lambda>ts.
               io_when ((now_ts - ts) / 60 > real (auto_archive_duration help_thread))
                 (edit (thread_id help_thread) (force_archive_edits forum_channel help_thread)))))"

fun force_help_thread_archive_after_timeout_forums :: "channel list \<Rightarrow> unit io" where
  "force_help_thread_archive_after_timeout_forums [] = io_return ()"
| "force_help_thread_archive_after_timeout_forums (OtherChannel _ # rest) = io_return ()"
| "force_help_thread_archive_after_timeout_forums (ForumChannel forum_channel # rest) =
     io_bind time_time (\<lambda>now_ts.
     io_then
       (io_foreach (threads forum_channel)
          (\<lambda>help_thread.
             try_except (force_help_thread_archive_after_timeout_body forum_channel now_ts help_thread)
               is_HTTPException (io_return ())))
       (force_help_thread_archive_after_timeout_forums rest))"

definition force_help_thread_archive_after_timeout :: "config \<Rightarrow> unit io" where
  "force_help_thread_archive_after_timeout cfg =
     io_bind (io_map get_or_fetch_channel (map snd (HELP_FORUM_CHANNEL_IDS cfg)))
       force_help_thread_archive_after_timeout_forums"

subsection \<open>The deletion checks\<close>

text \<open>
  The loop over the history: a message counts when its author is no bot and its type is
  \<open>MessageType.default\<close>; the loop ends when the count reaches the threshold.
\<close>

fun count_member_messages :: "int \<Rightarrow> int \<Rightarrow> message list \<Rightarrow> int" where
  "count_member_messages threshold member_msg_count [] = member_msg_count"
| "count_member_messages threshold member_msg_count (thread_message # rest) =
     (if \<not> author_bot thread_message \<and> message_type thread_message = MT_default
      then (if member_msg_count + 1 \<ge> threshold then member_msg_count + 1
            else count_member_messages threshold (member_msg_count + 1) rest)
      else count_member_messages threshold member_msg_count rest)"

definition help_thread_deletion_checks :: "config \<Rightarrow> thread \<Rightarrow> unit io" where
  "help_thread_deletion_checks cfg thread =
     try_except
       (io_bind (history (thread_id thread) (max (message_count thread) 100)) (\<lambda>msgs.
        let member_msg_count =
              count_member_messages (THREAD_DELETION_MESSAGE_THRESHOLD cfg) 0 msgs
        in io_when (member_msg_count < THREAD_DELETION_MESSAGE_THRESHOLD cfg)
             (io_bind (send cfg (thread_id thread) DeletionWarning) (\<lambda>_.
              io_then (sleep 300) (delete_thread (thread_id thread))))))
       is_HTTPException (io_return ())"

section \<open>The title rule in the words of the specification\<close>

text \<open>
  The specification describes the title classifier as: strip the canonical owner-id suffix,
  normalise whitespace, return every enabled rule that matches. This is that description,
  to be compared with \<open>get_help_forum_channel_thread_name_cautions\<close>.
\<close>

definition strip_owner_id_suffix :: "pystr \<Rightarrow> pystr \<Rightarrow> pystr" where
  "strip_owner_id_suffix s m = (if endswith s m then take (length s - length m) s else s)"

definition classify_title_spec :: "config \<Rightarrow> pystr \<Rightarrow> nat \<Rightarrow> caution_type list" where
  "classify_title_spec cfg title oid =
     filter (\<lambda>caution_type.
        INVALID_HELP_THREAD_TITLE_SCANNING_ENABLED cfg caution_type \<and>
        INVALID_HELP_THREAD_TITLE_REGEX_PATTERNS cfg caution_type
          (normalize_whitespace (strip_owner_id_suffix title (9474 # str_nat oid))))
      (INVALID_HELP_THREAD_TITLE_TYPES cfg)"

section \<open>Concrete data\<close>

text \<open>
  A configuration with two title rules: a title of 1 to 19 characters is too short, and a
  title that contains \<open>help\<close> asks for help. The forum \<open>regulars\<close> has id 500.
\<close>

definition example_config :: config where
  "example_config =
     \<lparr>HELP_FORUM_CHANNEL_IDS = [(''newbies'', 400), (''regulars'', 500), (''python'', 600)],
      FORUM_THREAD_TAG_LIMIT = 5,
      INVALID_HELP_THREAD_TITLE_TYPES = [''thread_title_too_short'', ''member_asking_for_help''],
      INVALID_HELP_THREAD_TITLE_SCANNING_ENABLED = (\<lambda>_. True),
      INVALID_HELP_THREAD_TITLE_REGEX_PATTERNS =
        (\<lambda>caution_type s.
           if caution_type = ''thread_title_too_short'' then 1 \<le> length s \<and> length s \<le> 19
           else contains (lower s) (ascii ''help'')),
      THREAD_TITLE_TOO_SHORT_SLOWMODE_DELAY = 300,
      THREAD_DELETION_MESSAGE_THRESHOLD = 2,
      bot_user_id = 7\<rparr>"

definition tag :: "nat \<Rightarrow> string \<Rightarrow> forum_tag" where
  "tag i n = \<lparr>tag_id = i, tag_name = ascii n\<rparr>"

definition example_thread :: thread where
  "example_thread =
     \<lparr>thread_id = 1001, parent_id = 500, owner_id = 42, name = ascii ''hi'',
      applied_tags = [], archived = False, locked = False, flags_pinned = False,
      archiver_id = None, created_at = Some 1420070400, slowmode_delay = 0,
      auto_archive_duration = 1440, message_count = 1, last_message_id = Some 1001\<rparr>"

definition five_tags_thread :: thread where
  "five_tags_thread =
     example_thread\<lparr>applied_tags :=
       [tag 1 ''issue: bug'', tag 2 ''collisions'', tag 3 ''audio'', tag 4 ''sprites'',
        tag 5 ''events'']\<rparr>"

definition marker_first_thread :: thread where
  "marker_first_thread = example_thread\<lparr>name := 9474 # ascii ''42 my sprite flickers''\<rparr>"

text \<open>Both tables are in order when neither holds two rows of one thread id.\<close>

definition tables_ok :: "world \<Rightarrow> bool" where
  "tables_ok w \<longleftrightarrow>
     unique_thread_ids bad_thread_id (bad_help_thread_data w) \<and>
     unique_thread_ids inactive_thread_id (inactive_help_thread_data w)"

text \<open>
  A state with the forum \<open>regulars\<close>, the starter message of \<open>example_thread\<close>, its owner
  and a moderator, in which no request fails. The engine has its default setting.
\<close>

definition starter_message :: message where
  "starter_message =
     \<lparr>message_id = 1001, channel_id = 1001, author_id = 42, author_bot = False,
      message_type = MT_default, message_pinned = False\<rparr>"

definition regulars_forum :: forum_channel where
  "regulars_forum =
     \<lparr>forum_id = 500, available_tags = [tag 10 ''unsolved'', tag 11 ''solved'', tag 1 ''issue: bug''],
      default_thread_slowmode_delay = 0, default_auto_archive_duration = 1440,
      threads = [], archived_threads = []\<rparr>"

definition example_world :: world where
  "example_world =
     \<lparr>bad_help_thread_data = [], inactive_help_thread_data = [], autocommit = False,
      messages = [starter_message], message_cache = [],
      members = [\<lparr>member_id = 42, manage_threads_in = [], administrator = False\<rparr>,
                 \<lparr>member_id = 9, manage_threads_in = [500], administrator = True\<rparr>],
      member_cache = [42, 9],
      channels = [ForumChannel regulars_forum], channel_cache = [500],
      audit_log = [], clock = 1420070500, next_message_id = 5000, faults = (\<lambda>_. None), effects = []\<rparr>"

text \<open>
  Thread 1001 after its starter message was deleted: what is left are two replies of
  members, the newest first.
\<close>

definition replies_world :: world where
  "replies_world =
     example_world\<lparr>messages :=
       [\<lparr>message_id = 1003, channel_id = 1001, author_id = 44, author_bot = False,
         message_type = MT_reply, message_pinned = False\<rparr>,
        \<lparr>message_id = 1002, channel_id = 1001, author_id = 43, author_bot = False,
         message_type = MT_reply, message_pinned = False\<rparr>]\<rparr>"

text \<open>
  A forum with two threads. Thread 1001 has its starter message, but the platform refuses
  to hand it out (\<open>Forbidden\<close>); thread 2002 has no message at all. The clock stands 90000
  seconds after the creation of both.
\<close>

definition silent_thread :: thread where
  "silent_thread = example_thread\<lparr>thread_id := 2002, last_message_id := None\<rparr>"

definition forbidden_world :: world where
  "forbidden_world =
     example_world\<lparr>
       channels := [ForumChannel (regulars_forum\<lparr>threads := [example_thread, silent_thread]\<rparr>)],
       clock := 1420160400,
       faults := (\<lambda>r. if r = FetchMessage 1001 1001 then Some Forbidden else None)\<rparr>"

definition one_forum_config :: config where
  "one_forum_config = example_config\<lparr>HELP_FORUM_CHANNEL_IDS := [(''regulars'', 500)]\<rparr>"

text \<open>A thread with a title of 75 characters, the owner id not among them.\<close>

definition long_title_thread :: thread where
  "long_title_thread =
     example_thread\<lparr>name :=
       ascii ''My platformer character keeps falling through the floor tiles when it lands''\<rparr>"

section \<open>Properties of handlers\<close>

text \<open>
  A handler \<open>only_emits ok\<close> when, from every state and whether it returns or raises, the
  effects it adds all satisfy \<open>ok\<close>. A handler \<open>returns P\<close> when every value it returns
  satisfies \<open>P\<close>.
\<close>

definition emits :: "(event \<Rightarrow> bool) \<Rightarrow> world \<Rightarrow> world \<Rightarrow> bool" where
  "emits ok w w' \<longleftrightarrow> (\<exists>evs. effects w' = effects w @ evs \<and> list_all ok evs)"

definition only_emits :: "(event \<Rightarrow> bool) \<Rightarrow> 'a io \<Rightarrow> bool" where
  "only_emits ok m \<longleftrightarrow> (\<forall>w. emits ok w (snd (m w)))"

text \<open>
  The name a thread gets with its owner id: the first 72 characters of its name, then
  \<open>...\<close> if the name has 72 characters or more, then the owner-id marker.
\<close>

definition marked_name :: "thread \<Rightarrow> pystr" where
  "marked_name thread =
     take 72 (name thread) @ (if length (name thread) < 72 then [] else ascii ''...'') @
     owner_id_suffix thread"

text \<open>
  An edit is in order for a thread when it leaves the name alone, or sets it to that name
  and the thread's name lacked the owner id.
\<close>

definition name_edit_ok :: "thread \<Rightarrow> event \<Rightarrow> bool" where
  "name_edit_ok thread ev =
     (case ev of
        Edited tid e \<Rightarrow>
          (case edit_name e of
             None \<Rightarrow> True
           | Some n \<Rightarrow> lacks_owner_id thread \<and> n = marked_name thread)
      | _ \<Rightarrow> True)"

text \<open>
  The effects a handler added between two states end with the name edit of a thread when
  the last of them is an edit of that thread which sets the name to \<open>marked_name\<close>.
\<close>

definition is_name_edit :: "thread \<Rightarrow> event \<Rightarrow> bool" where
  "is_name_edit thread ev =
     (case ev of
        Edited tid e \<Rightarrow> tid = thread_id thread \<and> edit_name e = Some (marked_name thread)
      | _ \<Rightarrow> False)"

definition new_effects :: "world \<Rightarrow> world \<Rightarrow> event list" where
  "new_effects w w' = drop (length (effects w)) (effects w')"

definition ends_with_name_edit :: "thread \<Rightarrow> event list \<Rightarrow> bool" where
  "ends_with_name_edit thread evs =
     (case rev evs of [] \<Rightarrow> False | ev # _ \<Rightarrow> is_name_edit thread ev)"

text \<open>
  A step \<open>succeeds\<close> when, from every state in which no request is refused, it returns,
  leaves such a state and only adds effects. A handler \<open>finishes_with P\<close> when, from every
  such state, it returns and the last effect it adds satisfies \<open>P\<close>.
\<close>

definition succeeds :: "'a io \<Rightarrow> bool" where
  "succeeds m \<longleftrightarrow>
     (\<forall>w. faults w = (\<lambda>_. None) \<longrightarrow>
        (\<exists>x w'. m w = (Inr x, w') \<and> faults w' = (\<lambda>_. None) \<and> emits (\<lambda>_. True) w w'))"

definition finishes_with :: "(event \<Rightarrow> bool) \<Rightarrow> unit io \<Rightarrow> bool" where
  "finishes_with P m \<longleftrightarrow>
     (\<forall>w. faults w = (\<lambda>_. None) \<longrightarrow>
        (\<exists>w' evs ev. m w = (Inr (), w') \<and> effects w' = effects w @ evs @ [ev] \<and> P ev))"

definition returns :: "('a \<Rightarrow> bool) \<Rightarrow> 'a io \<Rightarrow> bool" where
  "returns P m \<longleftrightarrow> (\<forall>w x w'. m w = (Inr x, w') \<longrightarrow> P x)"

section \<open>Flagging and resolving a thread\<close>

text \<open>
  What the bot did to a thread is read from the effects: the ids of the caution messages
  it sent there, and the ids of the messages it deleted there.
\<close>

definition is_caution :: "content \<Rightarrow> bool" where
  "is_caution c = (case c of TitleCaution _ \<Rightarrow> True | TagsCaution \<Rightarrow> True | _ \<Rightarrow> False)"

definition caution_ids_sent :: "nat \<Rightarrow> event list \<Rightarrow> nat list" where
  "caution_ids_sent tid evs =
     concat (map (\<lambda>ev. case ev of Sent t i c \<Rightarrow> if t = tid \<and> is_caution c then [i] else []
                              | _ \<Rightarrow> []) evs)"

definition ids_deleted :: "nat \<Rightarrow> event list \<Rightarrow> nat list" where
  "ids_deleted tid evs =
     concat (map (\<lambda>ev. case ev of Deleted t i \<Rightarrow> if t = tid then [i] else [] | _ \<Rightarrow> []) evs)"

text \<open>
  The message that \<open>send\<close> creates, the ids of a run of new messages, and the state after
  the bot has sent a list of contents to a thread without a refusal.
\<close>

definition bot_message :: "config \<Rightarrow> nat \<Rightarrow> nat \<Rightarrow> message" where
  "bot_message cfg tid i =
     \<lparr>message_id = i, channel_id = tid, author_id = bot_user_id cfg, author_bot = True,
      message_type = MT_default, message_pinned = False\<rparr>"

fun ids_from :: "nat \<Rightarrow> 'a list \<Rightarrow> nat list" where
  "ids_from n [] = []"
| "ids_from n (c # cs) = n # ids_from (Suc n) cs"

fun sent :: "config \<Rightarrow> nat \<Rightarrow> content list \<Rightarrow> world \<Rightarrow> world" where
  "sent cfg tid [] w = w"
| "sent cfg tid (c # cs) w =
     sent cfg tid cs
       (w\<lparr>messages := bot_message cfg tid (next_message_id w) # messages w,
          next_message_id := Suc (next_message_id w),
          effects := effects w @ [Sent tid (next_message_id w) c]\<rparr>)"

text \<open>
  The state after \<open>delete_if_found\<close> without a refusal: a message that is there is deleted,
  a message that is not there leaves the state alone. \<open>deleted\<close> is the state after the
  loop over a list of ids.
\<close>

definition message_deleted :: "nat \<Rightarrow> nat \<Rightarrow> world \<Rightarrow> world" where
  "message_deleted tid i w =
     (case find_message tid i w of
        None \<Rightarrow> w
      | Some _ \<Rightarrow>
          w\<lparr>messages := filter (\<lambda>m. \<not> (channel_id m = tid \<and> message_id m = i)) (messages w),
            effects := effects w @ [Deleted tid i]\<rparr>)"

fun deleted :: "nat \<Rightarrow> nat list \<Rightarrow> world \<Rightarrow> world" where
  "deleted tid [] w = w"
| "deleted tid (i # ids) w = deleted tid ids (message_deleted tid i w)"

text \<open>An effect other than a caution sent to the thread.\<close>

definition not_caution :: "nat \<Rightarrow> event \<Rightarrow> bool" where
  "not_caution tid ev = (case ev of Sent t i c \<Rightarrow> \<not> (t = tid \<and> is_caution c) | _ \<Rightarrow> True)"

text \<open>
  A handler \<open>keeps f\<close> when, from every state and whether it returns or raises, it leaves
  \<open>f\<close> of the state as it was.
\<close>

definition keeps :: "(world \<Rightarrow> 'b) \<Rightarrow> 'a io \<Rightarrow> bool" where
  "keeps f m \<longleftrightarrow> (\<forall>w. f (snd (m w)) = f w)"

text \<open>
  A thread is flagged when it has a record, the record holds at least one message id, the
  ids of the record are exactly the ids of the caution messages sent to the thread, and
  these messages are in the thread.
\<close>

definition flagged :: "nat \<Rightarrow> world \<Rightarrow> bool" where
  "flagged tid w =
     (case sql_select_first bad_thread_id tid (bad_help_thread_data w) of
        None \<Rightarrow> False
      | Some row \<Rightarrow>
          caution_message_ids row \<noteq> [] \<and>
          set (caution_message_ids row) = set (caution_ids_sent tid (effects w)) \<and>
          list_all (\<lambda>i. find_message tid i w \<noteq> None) (caution_message_ids row))"

text \<open>
  A thread of the forum \<open>regulars\<close> with a title of two characters and no issue tag; the
  same thread after its owner (user 42, by the audit log) gave it a longer title, an issue
  tag and an aspect tag; and the state after the bot has seen the creation of the first.
\<close>

definition untagged_thread :: thread where
  "untagged_thread = example_thread\<lparr>applied_tags := [tag 2 ''collisions'']\<rparr>"

definition repaired_thread :: thread where
  "repaired_thread =
     untagged_thread\<lparr>name := ascii ''My sprite falls through the floor tiles'',
       applied_tags := [tag 10 ''unsolved'', tag 1 ''issue: bug'', tag 2 ''collisions''],
       slowmode_delay := 300\<rparr>"

definition flagged_world :: world where
  "flagged_world =
     (snd (on_thread_create example_config untagged_thread example_world))
       \<lparr>audit_log := [\<lparr>target_id = Some 1001, user_id = Some 42\<rparr>]\<rparr>"

section \<open>The conditions of the inactivity alert\<close>

text \<open>
  What \<open>fetch_last_thread_message\<close> finds when no request is refused: the message of the
  thread's \<open>last_message_id\<close>, else the newest message of the thread. The last activity is
  the creation time of that message, else that of the thread.
\<close>

definition last_thread_message :: "thread \<Rightarrow> world \<Rightarrow> message option" where
  "last_thread_message thread w =
     (let newest = (case filter (\<lambda>m. channel_id m = thread_id thread) (messages w) of
                      [] \<Rightarrow> None | m # _ \<Rightarrow> Some m)
      in case last_message_id thread of
           None \<Rightarrow> newest
         | Some mid \<Rightarrow>
             (case find_message (thread_id thread) mid w of
                None \<Rightarrow> newest
              | Some m \<Rightarrow> Some m))"

definition last_thread_activity :: "thread \<Rightarrow> world \<Rightarrow> real option" where
  "last_thread_activity thread w =
     (case last_thread_message thread w of
        None \<Rightarrow> created_at thread
      | Some m \<Rightarrow> Some (message_created_at m))"

text \<open>
  The conditions in the words of the specification. A stored record is at least as fresh
  as the observed last activity; the thread was archived by someone (an archiver id of 0
  counts as none); the alert is suppressed when that archiver is the owner or a member with
  \<open>manage_threads\<close> in the forum. The alert is due, by the specification, when the thread
  is not locked, not pinned, not solved, its last activity lies more than 23 hours 30
  minutes before \<open>now_ts\<close>, no record is as fresh, and the alert is not suppressed.
\<close>

definition fresher_record :: "thread \<Rightarrow> real \<Rightarrow> world \<Rightarrow> bool" where
  "fresher_record thread ts w =
     (case sql_select_first inactive_thread_id (thread_id thread) (inactive_help_thread_data w) of
        None \<Rightarrow> False
      | Some row \<Rightarrow> last_active_ts row \<ge> ts)"

definition archiver_of :: "thread \<Rightarrow> nat option" where
  "archiver_of thread =
     (if archived thread
      then (case archiver_id thread of None \<Rightarrow> None | Some a \<Rightarrow> if a = 0 then None else Some a)
      else None)"

definition suppressed_by_archiver :: "forum_channel \<Rightarrow> thread \<Rightarrow> world \<Rightarrow> bool" where
  "suppressed_by_archiver forum_channel thread w =
     (case archiver_of thread of
        None \<Rightarrow> False
      | Some a \<Rightarrow>
          a = owner_id thread \<or>
          (case find (\<lambda>m. member_id m = a) (members w) of
             None \<Rightarrow> False
           | Some m \<Rightarrow> forum_id forum_channel \<in> set (manage_threads_in m)))"

definition inactivity_alert_conditions_spec ::
  "forum_channel \<Rightarrow> real \<Rightarrow> thread \<Rightarrow> world \<Rightarrow> bool" where
  "inactivity_alert_conditions_spec forum_channel now_ts thread w =
     (\<not> locked thread \<and> \<not> flags_pinned thread \<and>
      \<not> any_tag_startswith (applied_tags thread) [''solved''] \<and>
      (case last_thread_activity thread w of
         None \<Rightarrow> False
       | Some ts \<Rightarrow> now_ts - ts > 3600 * 23 + 1800 \<and> \<not> fresher_record thread ts w) \<and>
      \<not> suppressed_by_archiver forum_channel thread w)"

text \<open>The archiver, if one has to be looked up, is a member of the guild.\<close>

definition archiver_known :: "thread \<Rightarrow> world \<Rightarrow> bool" where
  "archiver_known thread w =
     (case archiver_of thread of
        None \<Rightarrow> True
      | Some a \<Rightarrow> a = owner_id thread \<or> find (\<lambda>m. member_id m = a) (members w) \<noteq> None)"

text \<open>
  Between two states an alert was posted to a thread when an inactivity alert to it is
  among the new effects. The thread was alerted when that alert is the one new effect and
  the table of inactive threads has the record of the alert put in: the id of the thread,
  the creation time of the alert and its id.
\<close>

definition is_inactive_alert :: "nat \<Rightarrow> event \<Rightarrow> bool" where
  "is_inactive_alert tid ev = (case ev of Sent t i c \<Rightarrow> t = tid \<and> c = InactiveAlert | _ \<Rightarrow> False)"

definition posted_alert :: "nat \<Rightarrow> world \<Rightarrow> world \<Rightarrow> bool" where
  "posted_alert tid w w' = list_ex (is_inactive_alert tid) (drop (length (effects w)) (effects w'))"

definition alerted :: "nat \<Rightarrow> world \<Rightarrow> world \<Rightarrow> bool" where
  "alerted tid w w' \<longleftrightarrow>
     effects w' = effects w @ [Sent tid (next_message_id w) InactiveAlert] \<and>
     inactive_help_thread_data w' =
       sql_insert_on_conflict_update inactive_thread_id
         \<lparr>inactive_thread_id = tid, last_active_ts = snowflake_time (next_message_id w),
          alert_message_id = Some (next_message_id w)\<rparr>
         (inactive_help_thread_data w)"

text \<open>
  A day after the creation of a thread, a state of the forum \<open>regulars\<close> with that thread
  alone. A thread whose creation time is not known (the platform gives none for threads
  older than 2022), and a thread archived by user 77, who is no member of the guild.
\<close>

definition idle_world :: "thread \<Rightarrow> world" where
  "idle_world thread =
     example_world\<lparr>channels := [ForumChannel (regulars_forum\<lparr>threads := [thread]\<rparr>)],
       clock := 1420160400\<rparr>"

definition undated_thread :: thread where
  "undated_thread = example_thread\<lparr>created_at := None\<rparr>"

definition abandoned_thread :: thread where
  "abandoned_thread = example_thread\<lparr>archived := True, archiver_id := Some 77\<rparr>"

text \<open>
  The thread with the title of 75 characters, archived with the tag \<open>solved\<close>.
\<close>

definition solved_archived_thread :: thread where
  "solved_archived_thread =
     long_title_thread\<lparr>applied_tags := [tag 11 ''solved''], archived := True\<rparr>"


section \<open>Facts about strings\<close>

lemma remove_all_absent: "\<not> sublist m s \<Longrightarrow> remove_all m s = s"
proof (induction s)
  case Nil
  then show ?case by simp
next
  case (Cons c cs)
  then have "\<not> prefix m (c # cs)" and "\<not> sublist m cs"
    by (auto simp: sublist_Cons_right)
  with Cons.IH show ?case by simp
qed

lemma remove_all_only_suffix:
  assumes "m \<noteq> []" and "suffix m s" and "\<not> sublist m (butlast s)"
  shows "remove_all m s = take (length s - length m) s"
  using assms(2,3)
proof (induction s)
  case Nil
  then show ?case by simp
next
  case (Cons c cs)
  show ?case
  proof (cases "prefix m (c # cs)")
    case True
    have "m = c # cs"
    proof (rule ccontr)
      assume ne: "m \<noteq> c # cs"
      from True obtain r where r: "c # cs = m @ r" by (auto simp: prefix_def)
      with ne have "r \<noteq> []" by auto
      then have "butlast (c # cs) = m @ butlast r" using r by (simp add: butlast_append)
      then have "sublist m (butlast (c # cs))" by (metis sublist_append_rightI)
      with Cons.prems show False by simp
    qed
    then show ?thesis using assms(1) by simp
  next
    case False
    then have ne: "m \<noteq> c # cs" by auto
    with Cons.prems(1) have suf: "suffix m cs" by (auto simp: suffix_Cons)
    with assms(1) have cs: "cs \<noteq> []" by auto
    have "\<not> sublist m (butlast cs)"
    proof
      assume "sublist m (butlast cs)"
      then have "sublist m (c # butlast cs)" by (simp add: sublist_Cons_right)
      with cs Cons.prems(2) show False by simp
    qed
    with suf Cons.IH have ih: "remove_all m cs = take (length cs - length m) cs" by simp
    have len: "length m \<le> length cs" using suf by (rule suffix_length_le)
    have "take (length (c # cs) - length m) (c # cs) = c # take (length cs - length m) cs"
      using len by (simp add: Suc_diff_le)
    with False ih show ?thesis by simp
  qed
qed

text \<open>
  Where the marker stands at the end of the name and nowhere else, or nowhere at all,
  removing every occurrence is stripping the suffix.
\<close>

lemma remove_all_strip_suffix:
  assumes "m \<noteq> []" and "\<not> sublist m (butlast s)"
  shows "remove_all m s = strip_owner_id_suffix s m"
proof (cases "suffix m s")
  case True
  with assms show ?thesis
    by (simp add: remove_all_only_suffix strip_owner_id_suffix_def endswith_def)
next
  case False
  have "\<not> sublist m s"
  proof
    assume "sublist m s"
    then obtain ps ss where s: "s = ps @ m @ ss" by (auto simp: sublist_def)
    show False
    proof (cases "ss = []")
      case True
      with s False show False by (simp add: suffix_def)
    next
      case ne: False
      with s have "butlast s = ps @ m @ butlast ss" by (simp add: butlast_append)
      then have "sublist m (butlast s)" by (metis sublist_appendI)
      with assms(2) show False by simp
    qed
  qed
  with False show ?thesis
    by (simp add: remove_all_absent strip_owner_id_suffix_def endswith_def)
qed

section \<open>The tag validator\<close>

text \<open>
  What the validator decides: the tag list is empty, or it holds a \<open>solved\<close> or \<open>invalid\<close>
  tag, or it holds exactly one issue tag and at least one aspect tag. There is no upper
  bound on the number of aspect tags.
\<close>

lemma validate_regulars_tags_iff:
  "validate_regulars_help_forum_channel_thread_tags thread \<longleftrightarrow>
     applied_tags thread = [] \<or>
     any_tag_startswith (applied_tags thread) [''solved'', ''invalid''] \<or>
     (length (filter (\<lambda>tag. startswith (lower (tag_name tag)) ''issue'') (applied_tags thread)) = 1 \<and>
      1 \<le> length (filter (\<lambda>tag. \<not> startswith_any (lower (tag_name tag)) [''issue'', ''unsolved''])
                   (applied_tags thread)))"
proof -
  have one: "(\<not> (length xs = 0 \<or> length xs > 1 \<or> ys = [])) = (length xs = 1 \<and> 1 \<le> length ys)"
    for xs ys :: "forum_tag list"
    by (cases ys; cases xs) auto
  show ?thesis
    unfolding validate_regulars_help_forum_channel_thread_tags_def Let_def
    using one by auto
qed

text \<open>With at most three aspect tags the validator and the specification's rule agree.\<close>

lemma validate_regulars_tags_spec_upto_three:
  assumes "length (filter (\<lambda>tag. \<not> startswith_any (lower (tag_name tag)) [''issue'', ''unsolved''])
             (applied_tags thread)) \<le> 3"
  shows "validate_regulars_help_forum_channel_thread_tags thread =
         validate_topic_tags_spec (applied_tags thread)"
  using assms unfolding validate_regulars_tags_iff validate_topic_tags_spec_def Let_def by auto

lemmas eval_strings =
  ascii_def startswith_def startswith_any_def endswith_def contains_def lower_def lower_cp_def
  suffix_to_prefix sublist_code str_nat.simps isspace_def split_def normalize_whitespace_def

lemmas eval_tags =
  any_tag_startswith_def tag_def validate_regulars_help_forum_channel_thread_tags_def
  validate_topic_tags_spec_def

text \<open>
  C1. The validator of the restricted forum is claimed to return false for more than three
  aspect tags. On a thread with one issue tag and four aspect tags, which is within the
  forum's limit of five tags, the validator returns true while the rule of the
  specification (and the validator's own caution text, "exactly 1 issue tag and 1-3 aspect
  tags") rejects the selection.
\<close>

theorem validate_regulars_tags_four_aspect_tags:
  "validate_regulars_help_forum_channel_thread_tags five_tags_thread \<and>
   \<not> validate_topic_tags_spec (applied_tags five_tags_thread) \<and>
   length (applied_tags five_tags_thread) = FORUM_THREAD_TAG_LIMIT example_config"
  by (simp add: five_tags_thread_def example_thread_def example_config_def eval_tags eval_strings)

section \<open>The title classifier\<close>

text \<open>
  C4, as the code has it. The classifier removes every occurrence of the owner-id marker
  from the name, not only a trailing one, normalises whitespace, and returns the enabled
  rules whose pattern matches, in the configured order. Where the marker occurs at the end
  of the name only, or not at all, this is the classifier the specification describes.
\<close>

theorem name_cautions_characterisation:
  "get_help_forum_channel_thread_name_cautions cfg thread =
     filter (\<lambda>c. INVALID_HELP_THREAD_TITLE_SCANNING_ENABLED cfg c \<and>
                 INVALID_HELP_THREAD_TITLE_REGEX_PATTERNS cfg c
                   (normalize_whitespace (remove_all (owner_id_suffix thread) (name thread))))
       (INVALID_HELP_THREAD_TITLE_TYPES cfg) \<and>
   subseq (get_help_forum_channel_thread_name_cautions cfg thread)
     (INVALID_HELP_THREAD_TITLE_TYPES cfg) \<and>
   (\<not> contains (butlast (name thread)) (owner_id_suffix thread) \<longrightarrow>
      get_help_forum_channel_thread_name_cautions cfg thread =
      classify_title_spec cfg (name thread) (owner_id thread))"
proof (intro conjI impI)
  show "get_help_forum_channel_thread_name_cautions cfg thread =
     filter (\<lambda>c. INVALID_HELP_THREAD_TITLE_SCANNING_ENABLED cfg c \<and>
                 INVALID_HELP_THREAD_TITLE_REGEX_PATTERNS cfg c
                   (normalize_whitespace (remove_all (owner_id_suffix thread) (name thread))))
       (INVALID_HELP_THREAD_TITLE_TYPES cfg)"
    by (simp add: get_help_forum_channel_thread_name_cautions_def normalized_thread_name_def
        owner_id_suffix_def)
  show "subseq (get_help_forum_channel_thread_name_cautions cfg thread)
     (INVALID_HELP_THREAD_TITLE_TYPES cfg)"
    by (simp add: get_help_forum_channel_thread_name_cautions_def)
next
  assume "\<not> contains (butlast (name thread)) (owner_id_suffix thread)"
  then have "remove_all (9474 # str_nat (owner_id thread)) (name thread) =
             strip_owner_id_suffix (name thread) (9474 # str_nat (owner_id thread))"
    by (intro remove_all_strip_suffix) (simp_all add: contains_def owner_id_suffix_def)
  then show "get_help_forum_channel_thread_name_cautions cfg thread =
      classify_title_spec cfg (name thread) (owner_id thread)"
    by (simp add: get_help_forum_channel_thread_name_cautions_def normalized_thread_name_def
        classify_title_spec_def)
qed

text \<open>
  The title \<open>help\<close> with the marker at its end: the marker is stripped, and both rules
  match at once.
\<close>

theorem name_cautions_characterisation_witness:
  "\<not> contains (butlast (name (example_thread\<lparr>name := ascii ''help'' @ [9474] @ ascii ''42''\<rparr>)))
       (owner_id_suffix (example_thread\<lparr>name := ascii ''help'' @ [9474] @ ascii ''42''\<rparr>)) \<and>
   get_help_forum_channel_thread_name_cautions example_config
       (example_thread\<lparr>name := ascii ''help'' @ [9474] @ ascii ''42''\<rparr>) =
     [''thread_title_too_short'', ''member_asking_for_help''] \<and>
   classify_title_spec example_config (ascii ''help'' @ [9474] @ ascii ''42'') 42 =
     [''thread_title_too_short'', ''member_asking_for_help'']"
proof -
  let ?t = "example_thread\<lparr>name := ascii ''help'' @ [9474] @ ascii ''42''\<rparr>"
  have h: "\<not> contains (butlast (name ?t)) (owner_id_suffix ?t)"
    by (simp add: example_thread_def owner_id_suffix_def eval_strings)
  have v: "classify_title_spec example_config (ascii ''help'' @ [9474] @ ascii ''42'') 42 =
     [''thread_title_too_short'', ''member_asking_for_help'']"
    by (simp add: classify_title_spec_def strip_owner_id_suffix_def example_config_def
        eval_strings)
  from name_cautions_characterisation [of example_config ?t] h
  have "get_help_forum_channel_thread_name_cautions example_config ?t =
        classify_title_spec example_config (name ?t) (owner_id ?t)"
    by blast
  with h v show ?thesis by (simp add: example_thread_def)
qed

text \<open>
  C4 as stated fails where the marker is not a suffix: in the name
  \<open>|42 my sprite flickers\<close> (with U+2502 for the bar) of owner 42 the marker stands first.
  Stripping the suffix leaves the 22 characters as they are, and no rule matches; the
  code removes the marker, and the remaining 18 characters are too short.
\<close>

theorem name_cautions_marker_not_suffix:
  "get_help_forum_channel_thread_name_cautions example_config marker_first_thread =
     [''thread_title_too_short''] \<and>
   classify_title_spec example_config (name marker_first_thread) (owner_id marker_first_thread) = []"
  by (simp add: get_help_forum_channel_thread_name_cautions_def normalized_thread_name_def
      classify_title_spec_def strip_owner_id_suffix_def marker_first_thread_def
      example_thread_def example_config_def eval_strings)

section \<open>The owner-id rule\<close>

lemma owner_id_suffix_not_lacking:
  "\<not> lacks_owner_id (thread\<lparr>name := name_with_owner_id_suffix thread\<rparr>)"
  by (simp add: lacks_owner_id_def name_with_owner_id_suffix_def owner_id_suffix_def
      endswith_def suffix_def)

text \<open>
  C5. The owner-id rule changes nothing on a name that ends with the owner-id suffix, and
  applying it twice is applying it once.
\<close>

theorem apply_owner_id_rule_idempotent:
  "apply_owner_id_rule (apply_owner_id_rule thread) = apply_owner_id_rule thread \<and>
   (endswith (name thread) (owner_id_suffix thread) \<longrightarrow> apply_owner_id_rule thread = thread)"
proof -
  have "apply_owner_id_rule (apply_owner_id_rule thread) = apply_owner_id_rule thread"
    using owner_id_suffix_not_lacking [of thread]
    by (simp add: apply_owner_id_rule_def owner_id_name_edit_def)
  moreover have "endswith (name thread) (owner_id_suffix thread) \<longrightarrow> apply_owner_id_rule thread = thread"
    by (simp add: apply_owner_id_rule_def owner_id_name_edit_def lacks_owner_id_def)
  ultimately show ?thesis by blast
qed

theorem apply_owner_id_rule_idempotent_witness:
  "name (apply_owner_id_rule example_thread) = ascii ''hi'' @ [9474] @ ascii ''42'' \<and>
   endswith (name (apply_owner_id_rule example_thread))
     (owner_id_suffix (apply_owner_id_rule example_thread)) \<and>
   apply_owner_id_rule (apply_owner_id_rule example_thread) = apply_owner_id_rule example_thread"
proof -
  have n: "name (apply_owner_id_rule example_thread) = ascii ''hi'' @ [9474] @ ascii ''42''"
    by (simp add: apply_owner_id_rule_def owner_id_name_edit_def lacks_owner_id_def
        name_with_owner_id_suffix_def owner_id_suffix_def example_thread_def eval_strings)
  have o: "owner_id (apply_owner_id_rule example_thread) = 42"
    by (simp add: apply_owner_id_rule_def example_thread_def split: option.splits)
  have e: "endswith (name (apply_owner_id_rule example_thread))
     (owner_id_suffix (apply_owner_id_rule example_thread))"
    by (simp add: n o owner_id_suffix_def eval_strings)
  from apply_owner_id_rule_idempotent [of "apply_owner_id_rule example_thread"] e
  have "apply_owner_id_rule (apply_owner_id_rule example_thread) = apply_owner_id_rule example_thread"
    by blast
  with n e show ?thesis by blast
qed

section \<open>Unpinning on reaction removal\<close>

text \<open>
  C10. Whether the handler unpins does not depend on the remover being an administrator:
  a count below 2 is below 4, so the guard is the one without the administrator clause.
\<close>

theorem unpin_guard_ignores_admin:
  "unpin_guard msg_pinned reaction by_admin = unpin_guard msg_pinned reaction by_admin' \<and>
   unpin_guard msg_pinned reaction by_admin =
     (msg_pinned \<and> (case reaction of None \<Rightarrow> True | Some count \<Rightarrow> count < 4))"
  by (cases reaction) (auto simp: unpin_guard_def)

theorem unpin_guard_ignores_admin_witness:
  "unpin_guard True (Some 1) True = unpin_guard True (Some 1) False \<and>
   unpin_guard True (Some 1) True \<and>
   unpin_guard True (Some 4) True = unpin_guard True (Some 4) False \<and>
   \<not> unpin_guard True (Some 4) True"
  using unpin_guard_ignores_admin [of True "Some 1" True False]
    unpin_guard_ignores_admin [of True "Some 4" True False]
  by (simp add: unpin_guard_def)

section \<open>The tables\<close>

lemma keys_insert_on_conflict_update:
  "set (map key (sql_insert_on_conflict_update key new rows)) = insert (key new) (set (map key rows))"
  by (induction rows) auto

lemma distinct_insert_on_conflict_update:
  "distinct (map key rows) \<Longrightarrow> distinct (map key (sql_insert_on_conflict_update key new rows))"
proof (induction rows)
  case Nil
  then show ?case by simp
next
  case (Cons row rows)
  show ?case
  proof (cases "key row = key new")
    case True
    with Cons.prems show ?thesis by simp
  next
    case False
    have "key row \<notin> set (map key (sql_insert_on_conflict_update key new rows))"
      using False Cons.prems unfolding keys_insert_on_conflict_update by auto
    with False Cons show ?thesis by simp
  qed
qed

lemma unique_insert_on_conflict_update:
  "unique_thread_ids key rows \<Longrightarrow> unique_thread_ids key (sql_insert_on_conflict_update key new rows)"
  unfolding unique_thread_ids_def by (rule distinct_insert_on_conflict_update)

lemma unique_sql_delete:
  "unique_thread_ids key rows \<Longrightarrow> unique_thread_ids key (sql_delete key k rows)"
  unfolding unique_thread_ids_def sql_delete_def by (simp add: distinct_map_filter)

lemma one_row_after_insert:
  "distinct (map key rows) \<Longrightarrow>
   filter (\<lambda>row. key row = key new) (sql_insert_on_conflict_update key new rows) = [new]"
proof (induction rows)
  case Nil
  then show ?case by simp
next
  case (Cons row rows)
  show ?case
  proof (cases "key row = key new")
    case True
    with Cons.prems have notin: "key new \<notin> key ` set rows" by simp
    have "\<forall>r \<in> set rows. key r \<noteq> key new"
    proof
      fix r assume "r \<in> set rows"
      then have "key r \<in> key ` set rows" by (rule imageI)
      with notin show "key r \<noteq> key new" by metis
    qed
    then have "filter (\<lambda>row. key row = key new) rows = []" by (simp add: filter_empty_conv)
    with True show ?thesis by simp
  next
    case False
    with Cons show ?thesis by simp
  qed
qed

lemma no_row_after_delete: "\<not> sql_exists key k (sql_delete key k rows)"
  by (simp add: sql_exists_def sql_delete_def list_ex_iff)

lemma select_after_insert:
  "sql_select_first key (key new) (sql_insert_on_conflict_update key new rows) = Some new"
  unfolding sql_select_first_def by (induction rows) auto

lemma select_after_insert_other:
  "k \<noteq> key new \<Longrightarrow>
   sql_select_first key k (sql_insert_on_conflict_update key new rows) = sql_select_first key k rows"
  unfolding sql_select_first_def by (induction rows) auto

lemma exists_iff_select: "sql_exists key k rows \<longleftrightarrow> sql_select_first key k rows \<noteq> None"
  unfolding sql_exists_def sql_select_first_def by (induction rows) auto

lemma other_rows_after_insert:
  "filter (\<lambda>row. key row \<noteq> key new) (sql_insert_on_conflict_update key new rows) =
   filter (\<lambda>row. key row \<noteq> key new) rows"
  by (induction rows) auto

text \<open>
  C9. Every persistence operation keeps both tables free of a second row for one thread
  id. A save leaves exactly one row of the saved thread id, the saved one, and the rows of
  the other thread ids as they were. A delete leaves the rows of the other thread ids as
  they were; of the rows of the deleted thread id it leaves none when the engine commits
  the \<open>DELETE\<close> and all when it does not. No operation touches the other table, and the
  reading operations change nothing.
\<close>

theorem persistence_keeps_unique_thread_ids:
  assumes "tables_ok w"
  shows "tables_ok (snd (save_bad_help_thread_data b w)) \<and>
         tables_ok (snd (delete_bad_help_thread_data k w)) \<and>
         tables_ok (snd (save_inactive_help_thread_data i w)) \<and>
         tables_ok (snd (delete_inactive_help_thread_data k w)) \<and>
         filter (\<lambda>row. bad_thread_id row = bad_thread_id b)
           (bad_help_thread_data (snd (save_bad_help_thread_data b w))) = [b] \<and>
         filter (\<lambda>row. bad_thread_id row \<noteq> bad_thread_id b)
           (bad_help_thread_data (snd (save_bad_help_thread_data b w))) =
         filter (\<lambda>row. bad_thread_id row \<noteq> bad_thread_id b) (bad_help_thread_data w) \<and>
         inactive_help_thread_data (snd (save_bad_help_thread_data b w)) =
           inactive_help_thread_data w \<and>
         filter (\<lambda>row. inactive_thread_id row = inactive_thread_id i)
           (inactive_help_thread_data (snd (save_inactive_help_thread_data i w))) = [i] \<and>
         filter (\<lambda>row. inactive_thread_id row \<noteq> inactive_thread_id i)
           (inactive_help_thread_data (snd (save_inactive_help_thread_data i w))) =
         filter (\<lambda>row. inactive_thread_id row \<noteq> inactive_thread_id i)
           (inactive_help_thread_data w) \<and>
         bad_help_thread_data (snd (save_inactive_help_thread_data i w)) =
           bad_help_thread_data w \<and>
         filter (\<lambda>row. bad_thread_id row \<noteq> k)
           (bad_help_thread_data (snd (delete_bad_help_thread_data k w))) =
         filter (\<lambda>row. bad_thread_id row \<noteq> k) (bad_help_thread_data w) \<and>
         filter (\<lambda>row. bad_thread_id row = k)
           (bad_help_thread_data (snd (delete_bad_help_thread_data k w))) =
         (if autocommit w then []
          else filter (\<lambda>row. bad_thread_id row = k) (bad_help_thread_data w)) \<and>
         inactive_help_thread_data (snd (delete_bad_help_thread_data k w)) =
           inactive_help_thread_data w \<and>
         filter (\<lambda>row. inactive_thread_id row \<noteq> k)
           (inactive_help_thread_data (snd (delete_inactive_help_thread_data k w))) =
         filter (\<lambda>row. inactive_thread_id row \<noteq> k) (inactive_help_thread_data w) \<and>
         filter (\<lambda>row. inactive_thread_id row = k)
           (inactive_help_thread_data (snd (delete_inactive_help_thread_data k w))) =
         (if autocommit w then []
          else filter (\<lambda>row. inactive_thread_id row = k) (inactive_help_thread_data w)) \<and>
         bad_help_thread_data (snd (delete_inactive_help_thread_data k w)) =
           bad_help_thread_data w \<and>
         snd (bad_help_thread_data_exists k w) = w \<and>
         snd (fetch_bad_help_thread_data k w) = w \<and>
         snd (inactive_help_thread_data_exists k w) = w \<and>
         snd (fetch_inactive_help_thread_data k w) = w"
proof -
  from assms have b: "unique_thread_ids bad_thread_id (bad_help_thread_data w)"
    and i: "unique_thread_ids inactive_thread_id (inactive_help_thread_data w)"
    by (simp_all add: tables_ok_def)
  have "tables_ok (snd (save_bad_help_thread_data b w))"
    using b i by (simp add: tables_ok_def save_bad_help_thread_data_def unique_insert_on_conflict_update)
  moreover have "tables_ok (snd (delete_bad_help_thread_data k w))"
    using b i by (simp add: tables_ok_def delete_bad_help_thread_data_def unique_sql_delete)
  moreover have "tables_ok (snd (save_inactive_help_thread_data i w))"
    using b i
    by (simp add: tables_ok_def save_inactive_help_thread_data_def unique_insert_on_conflict_update)
  moreover have "tables_ok (snd (delete_inactive_help_thread_data k w))"
    using b i by (simp add: tables_ok_def delete_inactive_help_thread_data_def unique_sql_delete)
  moreover have "filter (\<lambda>row. bad_thread_id row = bad_thread_id b)
           (bad_help_thread_data (snd (save_bad_help_thread_data b w))) = [b]"
    using b by (simp add: save_bad_help_thread_data_def unique_thread_ids_def one_row_after_insert)
  moreover have "filter (\<lambda>row. bad_thread_id row \<noteq> bad_thread_id b)
           (bad_help_thread_data (snd (save_bad_help_thread_data b w))) =
         filter (\<lambda>row. bad_thread_id row \<noteq> bad_thread_id b) (bad_help_thread_data w)"
    by (simp add: save_bad_help_thread_data_def other_rows_after_insert)
  moreover have "inactive_help_thread_data (snd (save_bad_help_thread_data b w)) =
           inactive_help_thread_data w"
    by (simp add: save_bad_help_thread_data_def)
  moreover have "filter (\<lambda>row. inactive_thread_id row = inactive_thread_id i)
           (inactive_help_thread_data (snd (save_inactive_help_thread_data i w))) = [i]"
    using i by (simp add: save_inactive_help_thread_data_def unique_thread_ids_def one_row_after_insert)
  moreover have "filter (\<lambda>row. inactive_thread_id row \<noteq> inactive_thread_id i)
           (inactive_help_thread_data (snd (save_inactive_help_thread_data i w))) =
         filter (\<lambda>row. inactive_thread_id row \<noteq> inactive_thread_id i)
           (inactive_help_thread_data w)"
    by (simp add: save_inactive_help_thread_data_def other_rows_after_insert)
  moreover have "bad_help_thread_data (snd (save_inactive_help_thread_data i w)) =
           bad_help_thread_data w"
    by (simp add: save_inactive_help_thread_data_def)
  moreover have "filter (\<lambda>row. bad_thread_id row \<noteq> k)
           (bad_help_thread_data (snd (delete_bad_help_thread_data k w))) =
         filter (\<lambda>row. bad_thread_id row \<noteq> k) (bad_help_thread_data w)"
    by (simp add: delete_bad_help_thread_data_def sql_delete_def)
  moreover have "filter (\<lambda>row. bad_thread_id row = k)
           (bad_help_thread_data (snd (delete_bad_help_thread_data k w))) =
         (if autocommit w then []
          else filter (\<lambda>row. bad_thread_id row = k) (bad_help_thread_data w))"
    by (simp add: delete_bad_help_thread_data_def sql_delete_def)
  moreover have "inactive_help_thread_data (snd (delete_bad_help_thread_data k w)) =
           inactive_help_thread_data w"
    by (simp add: delete_bad_help_thread_data_def)
  moreover have "filter (\<lambda>row. inactive_thread_id row \<noteq> k)
           (inactive_help_thread_data (snd (delete_inactive_help_thread_data k w))) =
         filter (\<lambda>row. inactive_thread_id row \<noteq> k) (inactive_help_thread_data w)"
    by (simp add: delete_inactive_help_thread_data_def sql_delete_def)
  moreover have "filter (\<lambda>row. inactive_thread_id row = k)
           (inactive_help_thread_data (snd (delete_inactive_help_thread_data k w))) =
         (if autocommit w then []
          else filter (\<lambda>row. inactive_thread_id row = k) (inactive_help_thread_data w))"
    by (simp add: delete_inactive_help_thread_data_def sql_delete_def)
  moreover have "bad_help_thread_data (snd (delete_inactive_help_thread_data k w)) =
           bad_help_thread_data w"
    by (simp add: delete_inactive_help_thread_data_def)
  moreover have "snd (bad_help_thread_data_exists k w) = w"
    by (simp add: bad_help_thread_data_exists_def)
  moreover have "snd (fetch_bad_help_thread_data k w) = w"
    by (simp add: fetch_bad_help_thread_data_def split: option.splits)
  moreover have "snd (inactive_help_thread_data_exists k w) = w"
    by (simp add: inactive_help_thread_data_exists_def)
  moreover have "snd (fetch_inactive_help_thread_data k w) = w"
    by (simp add: fetch_inactive_help_thread_data_def split: option.splits)
  ultimately show ?thesis by blast
qed

text \<open>
  Saving a record for thread 1001 twice, with different contents, leaves the one row
  saved last. Deleting it on the engine of \<open>example_world\<close>, which does not commit,
  leaves that row; on an engine that commits it leaves none.
\<close>

theorem persistence_keeps_unique_thread_ids_witness:
  "tables_ok (snd (save_bad_help_thread_data
      \<lparr>bad_thread_id = 1001, last_cautioned_ts = 1, caution_message_ids = [5000]\<rparr> example_world)) \<and>
   bad_help_thread_data
     (snd (save_bad_help_thread_data
        \<lparr>bad_thread_id = 1001, last_cautioned_ts = 2, caution_message_ids = [5000, 5001]\<rparr>
        (snd (save_bad_help_thread_data
           \<lparr>bad_thread_id = 1001, last_cautioned_ts = 1, caution_message_ids = [5000]\<rparr>
           example_world)))) =
     [\<lparr>bad_thread_id = 1001, last_cautioned_ts = 2, caution_message_ids = [5000, 5001]\<rparr>] \<and>
   bad_help_thread_data
     (snd (delete_bad_help_thread_data 1001
        (snd (save_bad_help_thread_data
           \<lparr>bad_thread_id = 1001, last_cautioned_ts = 1, caution_message_ids = [5000]\<rparr>
           example_world)))) =
     [\<lparr>bad_thread_id = 1001, last_cautioned_ts = 1, caution_message_ids = [5000]\<rparr>] \<and>
   bad_help_thread_data
     (snd (delete_bad_help_thread_data 1001
        (snd (save_bad_help_thread_data
           \<lparr>bad_thread_id = 1001, last_cautioned_ts = 1, caution_message_ids = [5000]\<rparr>
           (example_world\<lparr>autocommit := True\<rparr>))))) = []"
proof -
  let ?w1 = "snd (save_bad_help_thread_data
      \<lparr>bad_thread_id = 1001, last_cautioned_ts = 1, caution_message_ids = [5000]\<rparr> example_world)"
  have ok0: "tables_ok example_world"
    by (simp add: tables_ok_def unique_thread_ids_def example_world_def)
  from persistence_keeps_unique_thread_ids [OF ok0]
  have ok1: "tables_ok ?w1" by blast
  have "bad_help_thread_data
     (snd (save_bad_help_thread_data
        \<lparr>bad_thread_id = 1001, last_cautioned_ts = 2, caution_message_ids = [5000, 5001]\<rparr> ?w1)) =
     [\<lparr>bad_thread_id = 1001, last_cautioned_ts = 2, caution_message_ids = [5000, 5001]\<rparr>]"
    by (simp add: save_bad_help_thread_data_def example_world_def)
  moreover have "bad_help_thread_data (snd (delete_bad_help_thread_data 1001 ?w1)) =
     [\<lparr>bad_thread_id = 1001, last_cautioned_ts = 1, caution_message_ids = [5000]\<rparr>]"
    by (simp add: save_bad_help_thread_data_def delete_bad_help_thread_data_def example_world_def)
  moreover have "bad_help_thread_data
     (snd (delete_bad_help_thread_data 1001
        (snd (save_bad_help_thread_data
           \<lparr>bad_thread_id = 1001, last_cautioned_ts = 1, caution_message_ids = [5000]\<rparr>
           (example_world\<lparr>autocommit := True\<rparr>))))) = []"
    by (simp add: save_bad_help_thread_data_def delete_bad_help_thread_data_def sql_delete_def
        example_world_def)
  ultimately show ?thesis using ok1 by blast
qed

section \<open>Evaluating handlers\<close>

lemmas eval_io =
  io_return_def io_raise_def io_bind_def io_then_def io_when_def try_except_def try_finally_def
  request_def record_effect_def is_HTTPException_def is_NotFound_def Let_def

lemmas eval_platform =
  find_message_def fetch_message_def cached_message_def pin_def send_def delete_message_def
  edit_def delete_thread_def history_def sleep_def time_time_def get_or_fetch_channel_def
  get_or_fetch_member_def fetch_archived_threads_def audit_logs_def dict_get_def
  snowflake_time_def message_created_at_def is_system_def

lemmas eval_tables =
  bad_help_thread_data_exists_def fetch_bad_help_thread_data_def save_bad_help_thread_data_def
  delete_bad_help_thread_data_def inactive_help_thread_data_exists_def
  fetch_inactive_help_thread_data_def save_inactive_help_thread_data_def
  delete_inactive_help_thread_data_def sql_delete_def sql_exists_def sql_select_first_def

lemmas eval_examples =
  example_config_def example_thread_def example_world_def starter_message_def regulars_forum_def
  tag_def replies_world_def silent_thread_def forbidden_world_def one_forum_config_def

section \<open>The deletion checks\<close>

lemma count_member_messages_below:
  "count_member_messages threshold n ms < threshold \<longleftrightarrow>
   n + int (length (filter (\<lambda>m. \<not> author_bot m \<and> message_type m = MT_default) ms)) < threshold"
proof (induction ms arbitrary: n)
  case Nil
  then show ?case by simp
next
  case (Cons m ms)
  show ?case
  proof (cases "\<not> author_bot m \<and> message_type m = MT_default")
    case counted: True
    show ?thesis
    proof (cases "n + 1 \<ge> threshold")
      case True
      with counted show ?thesis by simp
    next
      case False
      with counted Cons.IH [of "n + 1"] show ?thesis by (simp add: algebra_simps)
    qed
  next
    case False
    with Cons.IH [of n] show ?thesis by auto
  qed
qed

text \<open>
  What the checks do when no request fails: the newest \<open>max(message_count, 100)\<close> messages
  of the thread are read, and the thread is warned, left alone for 300 seconds and
  deleted exactly when fewer than the threshold of them are of type \<open>default\<close> and not
  from a bot. Nothing else happens.
\<close>

lemma help_thread_deletion_checks_effects:
  assumes "faults w = (\<lambda>_. None)"
  shows "fst (help_thread_deletion_checks cfg thread w) = Inr () \<and>
         effects (snd (help_thread_deletion_checks cfg thread w)) =
           effects w @
           (if int (length (filter (\<lambda>m. \<not> author_bot m \<and> message_type m = MT_default)
                      (take (max (message_count thread) 100)
                         (filter (\<lambda>m. channel_id m = thread_id thread) (messages w)))))
               < THREAD_DELETION_MESSAGE_THRESHOLD cfg
            then [Sent (thread_id thread) (next_message_id w) DeletionWarning, Slept 300,
                  ThreadDeleted (thread_id thread)]
            else [])"
  using assms
  by (simp add: help_thread_deletion_checks_def count_member_messages_below eval_io history_def
      send_def sleep_def delete_thread_def Let_def)

text \<open>
  C7. The claim counts the messages that are neither from a bot nor system messages. In
  thread 1001 of \<open>replies_world\<close> the two messages left are replies of members: neither is
  a system message, so two member messages meet the threshold of two and the thread is to
  be left alone. The code counts only messages of type \<open>default\<close>, finds none, and warns,
  waits and deletes the thread.
\<close>

theorem help_thread_deletion_checks_ignores_replies:
  "length (filter (\<lambda>m. \<not> author_bot m \<and> \<not> is_system m) (messages replies_world)) = 2 \<and>
   THREAD_DELETION_MESSAGE_THRESHOLD example_config = 2 \<and>
   fst (help_thread_deletion_checks example_config example_thread replies_world) = Inr () \<and>
   effects (snd (help_thread_deletion_checks example_config example_thread replies_world)) =
     [Sent 1001 5000 DeletionWarning, Slept 300, ThreadDeleted 1001]"
  by (simp add: help_thread_deletion_checks_def eval_io eval_platform eval_examples)

section \<open>Failures inside the sweeps\<close>

text \<open>
  The iterations of the inactivity sweep and of the archive-timeout sweep are wrapped in
  \<open>except discord.HTTPException\<close>: what leaves such an iteration is no HTTP failure.
\<close>

lemma except_HTTPException_isolates:
  "fst (try_except m is_HTTPException (io_return ()) w) = Inl e \<Longrightarrow> \<not> is_HTTPException e"
  by (auto simp: try_except_def io_return_def split: prod.splits sum.splits if_splits)

text \<open>A loop whose body never raises visits every element.\<close>

lemma io_foreach_total:
  assumes "\<And>x w. x \<in> set xs \<Longrightarrow> fst (body x w) = Inr ()"
  shows "fst (io_foreach xs body w) = Inr ()"
  using assms
proof (induction xs arbitrary: w)
  case Nil
  then show ?case by (simp add: io_return_def)
next
  case (Cons x xs)
  obtain r w' where b: "body x w = (r, w')" by (cases "body x w")
  with Cons.prems [of x w] have "r = Inr ()" by simp
  with b Cons show ?case by (simp add: io_then_def io_bind_def)
qed

text \<open>
  C8. In \<open>forbidden_world\<close> the platform answers the fetch of the starter message of thread
  1001 with \<open>Forbidden\<close>. The inactivity sweep and the archive-timeout sweep get over it and
  go on to thread 2002, which they alert and edit. The sweep for threads without starter
  message handles \<open>NotFound\<close> only: the failure leaves the iteration and ends the sweep, and
  thread 2002, which has no starter message, is never looked at.
\<close>

theorem starter_message_sweep_stops_at_forbidden:
  "delete_help_threads_without_starter_message one_forum_config forbidden_world =
     (Inl Forbidden, forbidden_world) \<and>
   delete_help_threads_without_starter_message_thread silent_thread forbidden_world =
     (Inr (), forbidden_world\<lparr>effects := [TaskCreated 2002]\<rparr>) \<and>
   fst (inactive_help_thread_alert one_forum_config forbidden_world) = Inr () \<and>
   effects (snd (inactive_help_thread_alert one_forum_config forbidden_world)) =
     [Sent 2002 5000 InactiveAlert] \<and>
   fst (force_help_thread_archive_after_timeout one_forum_config forbidden_world) = Inr () \<and>
   effects (snd (force_help_thread_archive_after_timeout one_forum_config forbidden_world)) =
     [Edited 2002
        (no_edits\<lparr>edit_archived := Some False,
                  edit_name := Some (ascii ''hi'' @ [9474] @ ascii ''42'')\<rparr>)]"
proof -
  have "delete_help_threads_without_starter_message one_forum_config forbidden_world =
     (Inl Forbidden, forbidden_world)"
    by (simp add: delete_help_threads_without_starter_message_def
        delete_help_threads_without_starter_message_thread_def starter_message_of_def
        help_thread_deletion_checks_task_def eval_io eval_platform eval_examples)
  moreover have "delete_help_threads_without_starter_message_thread silent_thread forbidden_world =
     (Inr (), forbidden_world\<lparr>effects := [TaskCreated 2002]\<rparr>)"
    by (simp add: delete_help_threads_without_starter_message_thread_def starter_message_of_def
        help_thread_deletion_checks_task_def eval_io eval_platform eval_examples)
  moreover have "fst (inactive_help_thread_alert one_forum_config forbidden_world) = Inr () \<and>
     effects (snd (inactive_help_thread_alert one_forum_config forbidden_world)) =
       [Sent 2002 5000 InactiveAlert]"
    by (simp add: inactive_help_thread_alert_def inactive_help_thread_alert_thread_def
        inactive_help_thread_alert_body_def
        alert_inactive_thread_def retract_alert_def no_fresher_alert_def alert_suppressed_def
        fetch_last_thread_activity_dt_def fetch_last_thread_message_def timestamp_def
        any_tag_startswith_def eval_io eval_platform eval_tables eval_examples eval_strings)
  moreover have "fst (force_help_thread_archive_after_timeout one_forum_config forbidden_world) = Inr () \<and>
     effects (snd (force_help_thread_archive_after_timeout one_forum_config forbidden_world)) =
       [Edited 2002
          (no_edits\<lparr>edit_archived := Some False,
                    edit_name := Some (ascii ''hi'' @ [9474] @ ascii ''42'')\<rparr>)]"
    by (simp add: force_help_thread_archive_after_timeout_def
        force_help_thread_archive_after_timeout_body_def force_archive_edits_def
        owner_id_name_edit_def lacks_owner_id_def name_with_owner_id_suffix_def
        owner_id_suffix_def fetch_last_thread_activity_dt_def fetch_last_thread_message_def
        no_edits_def timestamp_def any_tag_startswith_def eval_io eval_platform eval_tables
        eval_examples eval_strings)
  ultimately show ?thesis by blast
qed

section \<open>The effects of handlers\<close>

named_theorems only_emits_intros

lemma emits_refl: "emits ok w w"
  by (simp add: emits_def)

lemma emits_trans: "emits ok w w' \<Longrightarrow> emits ok w' w'' \<Longrightarrow> emits ok w w''"
  by (auto simp: emits_def)

lemma emits_same_effects: "effects w' = effects w \<Longrightarrow> emits ok w w'"
  by (simp add: emits_def)

lemma emits_one: "effects w' = effects w @ [ev] \<Longrightarrow> ok ev \<Longrightarrow> emits ok w w'"
  by (simp add: emits_def)

lemma only_emits_return [only_emits_intros]: "only_emits ok (io_return x)"
  by (simp add: only_emits_def io_return_def emits_refl)

lemma only_emits_raise [only_emits_intros]: "only_emits ok (io_raise e)"
  by (simp add: only_emits_def io_raise_def emits_refl)

lemma only_emits_bind [only_emits_intros]:
  assumes "only_emits ok m" and "\<And>x. only_emits ok (f x)"
  shows "only_emits ok (io_bind m f)"
  unfolding only_emits_def
proof
  fix w
  obtain r w' where m: "m w = (r, w')" by (cases "m w")
  from assms(1) m have 1: "emits ok w w'" by (auto simp: only_emits_def dest: spec [of _ w])
  show "emits ok w (snd (io_bind m f w))"
  proof (cases r)
    case (Inl e)
    with m 1 show ?thesis by (simp add: io_bind_def)
  next
    case (Inr x)
    from assms(2) [of x] have "emits ok w' (snd (f x w'))" by (simp add: only_emits_def)
    with 1 m Inr show ?thesis by (auto simp: io_bind_def intro: emits_trans)
  qed
qed

lemma only_emits_then [only_emits_intros]:
  "only_emits ok m \<Longrightarrow> only_emits ok n \<Longrightarrow> only_emits ok (io_then m n)"
  by (simp add: io_then_def only_emits_bind)

lemma only_emits_when [only_emits_intros]:
  "(b \<Longrightarrow> only_emits ok m) \<Longrightarrow> only_emits ok (io_when b m)"
  by (simp add: io_when_def only_emits_return)

lemma only_emits_try_except [only_emits_intros]:
  assumes "only_emits ok m" and "only_emits ok h"
  shows "only_emits ok (try_except m c h)"
  unfolding only_emits_def
proof
  fix w
  obtain r w' where m: "m w = (r, w')" by (cases "m w")
  from assms(1) m have 1: "emits ok w w'" by (auto simp: only_emits_def dest: spec [of _ w])
  from assms(2) have 2: "emits ok w' (snd (h w'))" by (simp add: only_emits_def)
  from 1 2 have "emits ok w (snd (h w'))" by (rule emits_trans)
  with m 1 show "emits ok w (snd (try_except m c h w))"
    by (cases r) (simp_all add: try_except_def)
qed

lemma only_emits_try_finally [only_emits_intros]:
  assumes "only_emits ok m" and "only_emits ok f"
  shows "only_emits ok (try_finally m f)"
  unfolding only_emits_def
proof
  fix w
  obtain r w' where m: "m w = (r, w')" by (cases "m w")
  from assms(1) m have 1: "emits ok w w'" by (auto simp: only_emits_def dest: spec [of _ w])
  from assms(2) have 2: "emits ok w' (snd (f w'))" by (simp add: only_emits_def)
  from 1 2 have "emits ok w (snd (f w'))" by (rule emits_trans)
  with m show "emits ok w (snd (try_finally m f w))"
    by (auto simp: try_finally_def split: prod.splits sum.splits)
qed

lemma only_emits_foreach [only_emits_intros]:
  "(\<And>x. only_emits ok (body x)) \<Longrightarrow> only_emits ok (io_foreach xs body)"
  by (induction xs) (simp_all add: only_emits_return only_emits_then)

lemma only_emits_map [only_emits_intros]:
  "(\<And>x. only_emits ok (f x)) \<Longrightarrow> only_emits ok (io_map f xs)"
  by (induction xs) (simp_all add: only_emits_return only_emits_bind)

lemma only_emits_request [only_emits_intros]:
  "only_emits ok m \<Longrightarrow> only_emits ok (request r m)"
  by (auto simp: only_emits_def request_def emits_refl split: option.splits)

lemma only_emits_silent:
  "(\<And>w. effects (snd (m w)) = effects w) \<Longrightarrow> only_emits ok m"
  by (simp add: only_emits_def emits_same_effects)

lemma only_emits_fetch_message [only_emits_intros]: "only_emits ok (fetch_message tid mid)"
  unfolding fetch_message_def
  by (rule only_emits_request, rule only_emits_silent) (simp split: option.splits)

lemma only_emits_starter_message_of [only_emits_intros]: "only_emits ok (starter_message_of t)"
  using only_emits_fetch_message [of ok "thread_id t" "thread_id t"]
  by (auto simp: only_emits_def starter_message_of_def emits_refl split: option.splits)

lemma only_emits_pin [only_emits_intros]:
  "ok (Pinned tid mid) \<Longrightarrow> only_emits ok (pin tid mid)"
  by (auto simp: only_emits_def pin_def request_def record_effect_def emits_refl
      intro: emits_one split: option.splits)

lemma only_emits_send [only_emits_intros]:
  "(\<And>n. ok (Sent tid n c)) \<Longrightarrow> only_emits ok (send cfg tid c)"
  by (auto simp: only_emits_def send_def request_def record_effect_def emits_refl Let_def
      intro: emits_one split: option.splits)

lemma only_emits_delete_message [only_emits_intros]:
  "ok (Deleted tid mid) \<Longrightarrow> only_emits ok (delete_message tid mid)"
  by (auto simp: only_emits_def delete_message_def request_def record_effect_def emits_refl
      intro: emits_one split: option.splits)

lemma only_emits_edit [only_emits_intros]:
  "ok (Edited tid e) \<Longrightarrow> only_emits ok (edit tid e)"
  by (auto simp: only_emits_def edit_def request_def record_effect_def emits_refl
      intro: emits_one split: option.splits)

lemma only_emits_sleep [only_emits_intros]:
  "ok (Slept n) \<Longrightarrow> only_emits ok (sleep n)"
  by (auto simp: only_emits_def sleep_def record_effect_def intro: emits_one)

lemma only_emits_time [only_emits_intros]: "only_emits ok time_time"
  by (rule only_emits_silent) (simp add: time_time_def)

lemma only_emits_history [only_emits_intros]: "only_emits ok (history tid n)"
  unfolding history_def by (rule only_emits_request, rule only_emits_silent) simp

lemma only_emits_audit_logs [only_emits_intros]: "only_emits ok audit_logs"
  unfolding audit_logs_def by (rule only_emits_request, rule only_emits_silent) simp

lemma only_emits_get_or_fetch_channel [only_emits_intros]:
  "only_emits ok (get_or_fetch_channel cid)"
  by (auto simp: only_emits_def get_or_fetch_channel_def request_def io_return_def io_raise_def
      emits_refl split: option.splits)

lemma only_emits_get_or_fetch_member [only_emits_intros]:
  "only_emits ok (get_or_fetch_member uid)"
  by (auto simp: only_emits_def get_or_fetch_member_def request_def io_return_def io_raise_def
      emits_refl split: option.splits)

lemma only_emits_dict_get [only_emits_intros]: "only_emits ok (dict_get d k)"
  by (simp add: dict_get_def only_emits_return only_emits_raise split: option.splits)

lemma only_emits_tables [only_emits_intros]:
  "only_emits ok (bad_help_thread_data_exists tid)"
  "only_emits ok (fetch_bad_help_thread_data tid)"
  "only_emits ok (save_bad_help_thread_data b)"
  "only_emits ok (delete_bad_help_thread_data tid)"
  "only_emits ok (inactive_help_thread_data_exists tid)"
  "only_emits ok (fetch_inactive_help_thread_data tid)"
  "only_emits ok (save_inactive_help_thread_data i)"
  "only_emits ok (delete_inactive_help_thread_data tid)"
  by (rule only_emits_silent, simp add: eval_tables split: option.splits)+


named_theorems returns_intros

lemma returns_return [returns_intros]: "P x \<Longrightarrow> returns P (io_return x)"
  by (simp add: returns_def io_return_def)

lemma returns_raise [returns_intros]: "returns P (io_raise e)"
  by (simp add: returns_def io_raise_def)

lemma returns_bind [returns_intros]: "(\<And>x. returns P (f x)) \<Longrightarrow> returns P (io_bind m f)"
  by (auto simp: returns_def io_bind_def split: prod.splits sum.splits)

lemma only_emits_bind_returns:
  assumes "only_emits ok m" and "returns P m" and "\<And>x. P x \<Longrightarrow> only_emits ok (f x)"
  shows "only_emits ok (io_bind m f)"
  unfolding only_emits_def
proof
  fix w
  obtain r w' where m: "m w = (r, w')" by (cases "m w")
  from assms(1) m have 1: "emits ok w w'" by (auto simp: only_emits_def dest: spec [of _ w])
  show "emits ok w (snd (io_bind m f w))"
  proof (cases r)
    case (Inl e)
    with m 1 show ?thesis by (simp add: io_bind_def)
  next
    case (Inr x)
    with m assms(2) have "P x" by (auto simp: returns_def)
    then have "emits ok w' (snd (f x w'))" using assms(3) by (simp add: only_emits_def)
    with 1 m Inr show ?thesis by (auto simp: io_bind_def intro: emits_trans)
  qed
qed

lemma only_emits_if [only_emits_intros]:
  "(b \<Longrightarrow> only_emits ok m) \<Longrightarrow> (\<not> b \<Longrightarrow> only_emits ok n) \<Longrightarrow> only_emits ok (if b then m else n)"
  by simp

lemma only_emits_case_prod [only_emits_intros]:
  "(\<And>a b. only_emits ok (f a b)) \<Longrightarrow> only_emits ok (case p of (a, b) \<Rightarrow> f a b)"
  by (cases p) simp

lemma only_emits_case_option [only_emits_intros]:
  "only_emits ok m \<Longrightarrow> (\<And>x. only_emits ok (f x)) \<Longrightarrow>
   only_emits ok (case v of None \<Rightarrow> m | Some x \<Rightarrow> f x)"
  by (cases v) simp_all

lemma only_emits_case_list [only_emits_intros]:
  "only_emits ok m \<Longrightarrow> (\<And>x xs. only_emits ok (f x xs)) \<Longrightarrow>
   only_emits ok (case v of [] \<Rightarrow> m | x # xs \<Rightarrow> f x xs)"
  by (cases v) simp_all

lemma only_emits_case_channel [only_emits_intros]:
  "(\<And>x. only_emits ok (f x)) \<Longrightarrow> (\<And>x. only_emits ok (g x)) \<Longrightarrow>
   only_emits ok (case v of ForumChannel x \<Rightarrow> f x | OtherChannel x \<Rightarrow> g x)"
  by (cases v) simp_all

lemma only_emits_parent_forum [only_emits_intros]: "only_emits ok (parent_forum t)"
  unfolding parent_forum_def
  by (auto intro!: only_emits_intros split: channel.splits)

lemma only_emits_regulars_tags_invalid [only_emits_intros]:
  "only_emits ok (regulars_tags_invalid cfg t)"
  unfolding regulars_tags_invalid_def by (intro only_emits_intros)

lemma name_edit_ok_simps [simp]:
  "name_edit_ok t (Pinned a b)" "name_edit_ok t (Sent a b c)" "name_edit_ok t (Deleted a b)"
  "name_edit_ok t (ThreadDeleted a)" "name_edit_ok t (Slept n)" "name_edit_ok t (TaskCreated a)"
  "edit_name e = None \<Longrightarrow> name_edit_ok t (Edited a e)"
  "edit_name e = owner_id_name_edit t \<Longrightarrow> name_edit_ok t (Edited a e)"
  by (auto simp: name_edit_ok_def owner_id_name_edit_def name_with_owner_id_suffix_def
      marked_name_def split: option.splits)

lemma only_emits_cautions [only_emits_intros]:
  "only_emits (name_edit_ok t) (caution_about_help_forum_channel_thread_name cfg thread cts)"
  "only_emits (name_edit_ok t) (caution_about_regulars_help_forum_channel_thread_tags cfg thread)"
  "only_emits (name_edit_ok t) (send_help_thread_solved_alert cfg thread)"
  unfolding caution_about_help_forum_channel_thread_name_def
    caution_about_regulars_help_forum_channel_thread_tags_def send_help_thread_solved_alert_def
  by (intro only_emits_intros; simp)+

lemma only_emits_on_thread_create_tags [only_emits_intros]:
  "only_emits ok (on_thread_create_tags cfg parent thread)"
  unfolding on_thread_create_tags_def Let_def by (intro only_emits_intros)

lemma only_emits_on_thread_create:
  "only_emits (name_edit_ok thread) (on_thread_create cfg thread)"
  unfolding on_thread_create_def on_thread_create_body_def on_thread_create_checks_def Let_def
  by (intro only_emits_intros; simp)


lemma returns_if [returns_intros]:
  "(b \<Longrightarrow> returns P m) \<Longrightarrow> (\<not> b \<Longrightarrow> returns P n) \<Longrightarrow> returns P (if b then m else n)"
  by simp

lemma returns_case_prod [returns_intros]:
  "(\<And>a b. returns P (f a b)) \<Longrightarrow> returns P (case p of (a, b) \<Rightarrow> f a b)"
  by (cases p) simp

lemma returns_case_option [returns_intros]:
  "returns P m \<Longrightarrow> (\<And>x. returns P (f x)) \<Longrightarrow> returns P (case v of None \<Rightarrow> m | Some x \<Rightarrow> f x)"
  by (cases v) simp_all

lemma returns_check_name_or_tags:
  "returns (\<lambda>r. edit_name (fst r) = None) (check_name_or_tags cfg before after updater_id)"
  unfolding check_name_or_tags_def Let_def
  by (intro returns_intros; simp add: no_edits_def)

lemma returns_bind_returns:
  assumes "returns Q m" and "\<And>x. Q x \<Longrightarrow> returns P (f x)"
  shows "returns P (io_bind m f)"
  unfolding returns_def
proof (intro allI impI)
  fix w x w'
  assume r: "io_bind m f w = (Inr x, w')"
  obtain r1 w1 where m: "m w = (r1, w1)" by (cases "m w")
  with r obtain y where y: "r1 = Inr y" and f: "f y w1 = (Inr x, w')"
    by (cases r1) (auto simp: io_bind_def)
  from assms(1) m y have "Q y" by (auto simp: returns_def)
  from assms(2) [OF this] f show "P x" by (auto simp: returns_def)
qed

lemma returns_resolve_cautions:
  assumes e: "edit_name e = None"
  shows "returns (\<lambda>e'. edit_name e' = None) (resolve_cautions cfg after updater_id e)"
proof -
  have inner: "returns (\<lambda>e'. edit_name e' = None)
      (io_bind
         (if slowmode_delay after = THREAD_TITLE_TOO_SHORT_SLOWMODE_DELAY cfg
          then io_bind (parent_forum after) (\<lambda>parent.
                 io_return (e\<lparr>edit_slowmode_delay := Some (default_thread_slowmode_delay parent)\<rparr>))
          else io_return e)
         (\<lambda>thread_edits.
            io_bind (fetch_bad_help_thread_data (thread_id after)) (\<lambda>bad_thread_data.
            io_bind (io_foreach (caution_message_ids bad_thread_data)
                       (delete_if_found (thread_id after))) (\<lambda>_.
            io_bind (delete_bad_help_thread_data (thread_id after)) (\<lambda>_.
            io_return thread_edits)))))"
    by (rule returns_bind_returns [where Q = "\<lambda>e'. edit_name e' = None"])
      (intro returns_intros; simp add: e)+
  show ?thesis
    unfolding resolve_cautions_def
    by (intro inner returns_bind returns_if returns_return e)
qed

lemma returns_solved_transitions:
  "edit_name e = None \<Longrightarrow>
   returns (\<lambda>e'. edit_name e' = None) (solved_transitions cfg before after e)"
  unfolding solved_transitions_def Let_def
  by (intro returns_intros; simp)

lemma only_emits_find_updater_id [only_emits_intros]: "only_emits ok (find_updater_id after)"
  unfolding find_updater_id_def by (intro only_emits_intros)

lemma only_emits_delete_if_found [only_emits_intros]:
  "only_emits (name_edit_ok t) (delete_if_found tid mid)"
  unfolding delete_if_found_def by (intro only_emits_intros; simp)

lemma only_emits_check_name_or_tags:
  "only_emits (name_edit_ok t) (check_name_or_tags cfg before after updater_id)"
  unfolding check_name_or_tags_def Let_def by (intro only_emits_intros; simp)

lemma only_emits_record_cautions:
  "only_emits (name_edit_ok t) (record_cautions after msgs)"
  unfolding record_cautions_def by (intro only_emits_intros; simp)

lemma only_emits_resolve_cautions:
  "only_emits (name_edit_ok t) (resolve_cautions cfg after updater_id e)"
  unfolding resolve_cautions_def by (intro only_emits_intros; simp)

lemma only_emits_solved_transitions:
  "only_emits (name_edit_ok t) (solved_transitions cfg before after e)"
  unfolding solved_transitions_def Let_def by (intro only_emits_intros; simp)

lemma only_emits_on_thread_update_open:
  "only_emits (name_edit_ok after) (on_thread_update_open cfg before after)"
  unfolding on_thread_update_open_def
proof (rule only_emits_bind [OF only_emits_find_updater_id])
  fix updater_id
  let ?after_edits =
    "\<lambda>thread_edits. io_when (thread_edits \<noteq> no_edits)
       (io_then (sleep 5) (edit (thread_id after) thread_edits))"
  have last: "only_emits (name_edit_ok after) (?after_edits e)" if "edit_name e = None" for e
    using that by (intro only_emits_intros; simp)
  have middle: "only_emits (name_edit_ok after)
      (io_bind
         (if bad_thread_name \<or> bad_thread_tags
          then io_bind (record_cautions after caution_messages) (\<lambda>_. io_return e)
          else io_bind (resolve_cautions cfg after updater_id e)
                 (solved_transitions cfg before after))
         ?after_edits)"
    if e: "edit_name e = None" for e caution_messages bad_thread_name bad_thread_tags
  proof (rule only_emits_bind_returns [where P = "\<lambda>e'. edit_name e' = None"])
    show "only_emits (name_edit_ok after)
        (if bad_thread_name \<or> bad_thread_tags
         then io_bind (record_cautions after caution_messages) (\<lambda>_. io_return e)
         else io_bind (resolve_cautions cfg after updater_id e)
                (solved_transitions cfg before after))"
      by (intro only_emits_intros only_emits_record_cautions only_emits_resolve_cautions
          only_emits_solved_transitions)
    show "returns (\<lambda>e'. edit_name e' = None)
        (if bad_thread_name \<or> bad_thread_tags
         then io_bind (record_cautions after caution_messages) (\<lambda>_. io_return e)
         else io_bind (resolve_cautions cfg after updater_id e)
                (solved_transitions cfg before after))"
    proof (intro returns_if)
      show "returns (\<lambda>e'. edit_name e' = None)
          (io_bind (record_cautions after caution_messages) (\<lambda>_. io_return e))"
        by (intro returns_bind returns_return e)
      show "returns (\<lambda>e'. edit_name e' = None)
          (io_bind (resolve_cautions cfg after updater_id e) (solved_transitions cfg before after))"
        by (rule returns_bind_returns [OF returns_resolve_cautions [OF e]])
          (rule returns_solved_transitions)
    qed
    show "only_emits (name_edit_ok after) (?after_edits e')" if "edit_name e' = None" for e'
      using that by (rule last)
  qed
  show "only_emits (name_edit_ok after)
      (io_bind (check_name_or_tags cfg before after updater_id)
         (\<lambda>(thread_edits, caution_messages, bad_thread_name, bad_thread_tags).
            io_bind
              (if bad_thread_name \<or> bad_thread_tags
               then io_bind (record_cautions after caution_messages) (\<lambda>_. io_return thread_edits)
               else io_bind (resolve_cautions cfg after updater_id thread_edits)
                      (solved_transitions cfg before after))
              ?after_edits))"
  proof (rule only_emits_bind_returns [where P = "\<lambda>r. edit_name (fst r) = None"], goal_cases)
    case 1
    show ?case by (rule only_emits_check_name_or_tags)
  next
    case 2
    show ?case by (rule returns_check_name_or_tags)
  next
    case (3 r)
    then show ?case using middle by (cases r) auto
  qed
qed


lemma only_emits_on_thread_update_archived:
  "only_emits (name_edit_ok after) (on_thread_update_archived after)"
  unfolding on_thread_update_archived_def archived_thread_edits_def Let_def
  by (intro only_emits_intros; simp add: no_edits_def)

lemma only_emits_on_thread_update:
  "only_emits (name_edit_ok after) (on_thread_update cfg before after)"
  unfolding on_thread_update_def
  by (intro only_emits_intros only_emits_on_thread_update_open
      only_emits_on_thread_update_archived)

lemma only_emits_fetch_last_thread_message [only_emits_intros]:
  "only_emits ok (fetch_last_thread_message t)"
proof -
  have "only_emits ok
      (io_bind
         (case last_message_id t of
            None \<Rightarrow> io_return None
          | Some mid \<Rightarrow>
              try_except (io_bind (fetch_message (thread_id t) mid) (\<lambda>m. io_return (Some m)))
                is_NotFound (io_return None))
         (\<lambda>found. case found of
            Some m \<Rightarrow> io_return (Some m)
          | None \<Rightarrow>
              try_except
                (io_bind (history (thread_id t) 1)
                   (\<lambda>ms. io_return (case ms of [] \<Rightarrow> None | m # _ \<Rightarrow> Some m)))
                is_HTTPException (io_return None)))"
    by (intro only_emits_intros)
  then show ?thesis
    by (auto simp: only_emits_def fetch_last_thread_message_def emits_refl split: option.splits)
qed

lemma only_emits_fetch_last_thread_activity_dt [only_emits_intros]:
  "only_emits ok (fetch_last_thread_activity_dt t)"
  unfolding fetch_last_thread_activity_dt_def by (intro only_emits_intros)

lemma only_emits_timestamp [only_emits_intros]: "only_emits ok (timestamp dt)"
  unfolding timestamp_def by (intro only_emits_intros)

lemma only_emits_force_archive:
  "only_emits (name_edit_ok help_thread)
     (try_except (force_help_thread_archive_after_timeout_body forum_channel now_ts help_thread)
        is_HTTPException (io_return ()))"
  unfolding force_help_thread_archive_after_timeout_body_def force_archive_edits_def Let_def
  by (intro only_emits_intros; simp add: no_edits_def split: option.splits)

section \<open>The round trip of a flagged thread\<close>

lemma sent_fields [simp]:
  "faults (sent cfg tid cs w) = faults w"
  "channels (sent cfg tid cs w) = channels w"
  "channel_cache (sent cfg tid cs w) = channel_cache w"
  "bad_help_thread_data (sent cfg tid cs w) = bad_help_thread_data w"
  "inactive_help_thread_data (sent cfg tid cs w) = inactive_help_thread_data w"
  "clock (sent cfg tid cs w) = clock w"
  "audit_log (sent cfg tid cs w) = audit_log w"
  "next_message_id (sent cfg tid cs w) = next_message_id w + length cs"
  by (induction cs arbitrary: w; simp)+

lemma sent_effects:
  "effects (sent cfg tid cs w) =
     effects w @ map (\<lambda>(i, c). Sent tid i c) (zip (ids_from (next_message_id w) cs) cs)"
  by (induction cs arbitrary: w) simp_all

lemma sent_messages:
  "messages (sent cfg tid cs w) =
     rev (map (bot_message cfg tid) (ids_from (next_message_id w) cs)) @ messages w"
  by (induction cs arbitrary: w) simp_all

lemma sent_append: "sent cfg tid (cs @ ds) w = sent cfg tid ds (sent cfg tid cs w)"
  by (induction cs arbitrary: w) simp_all

lemma ids_from_append:
  "ids_from n (cs @ ds) = ids_from n cs @ ids_from (n + length cs) ds"
  by (induction cs arbitrary: n) simp_all

lemma ids_from_map [simp]: "ids_from n (map f cs) = ids_from n cs"
  by (induction cs arbitrary: n) simp_all

lemma length_ids_from [simp]: "length (ids_from n cs) = length cs"
  by (induction cs arbitrary: n) simp_all

lemma sent_Nil [simp]: "sent cfg tid [] w = w"
  by simp

lemma sent_single:
  "sent cfg tid [c] w =
     w\<lparr>messages := bot_message cfg tid (next_message_id w) # messages w,
       next_message_id := Suc (next_message_id w),
       effects := effects w @ [Sent tid (next_message_id w) c]\<rparr>"
  by simp

declare sent.simps(2) [simp del]

lemma send_ok:
  "faults w = (\<lambda>_. None) \<Longrightarrow>
   send cfg tid c w = (Inr (bot_message cfg tid (next_message_id w)), sent cfg tid [c] w)"
  by (simp add: send_def request_def bot_message_def record_effect_def Let_def sent_single)

lemma io_map_send:
  "faults w = (\<lambda>_. None) \<Longrightarrow>
   io_map (send cfg tid) cs w =
     (Inr (map (bot_message cfg tid) (ids_from (next_message_id w) cs)), sent cfg tid cs w)"
proof (induction cs arbitrary: w)
  case Nil
  then show ?case by (simp add: io_return_def)
next
  case (Cons c cs)
  let ?w = "sent cfg tid [c] w"
  have f: "faults ?w = (\<lambda>_. None)" using Cons.prems by simp
  have n: "next_message_id ?w = Suc (next_message_id w)" by simp
  from Cons.prems have s: "send cfg tid c w = (Inr (bot_message cfg tid (next_message_id w)), ?w)"
    by (rule send_ok)
  have "io_map (send cfg tid) cs ?w =
     (Inr (map (bot_message cfg tid) (ids_from (Suc (next_message_id w)) cs)), sent cfg tid cs ?w)"
    using Cons.IH [OF f] by (simp only: n)
  with s show ?case by (simp add: io_bind_def io_return_def sent.simps)
qed

lemma io_map_comp: "io_map (\<lambda>x. f (g x)) xs = io_map f (map g xs)"
  by (induction xs) simp_all

lemma ids_from_set: "set (ids_from n cs) = {n ..< n + length cs}"
  by (induction cs arbitrary: n) auto

lemma distinct_ids_from [simp]: "distinct (ids_from n cs)"
  by (induction cs arbitrary: n) (auto simp: ids_from_set)

lemma caution_ids_sent_append [simp]:
  "caution_ids_sent tid (evs @ evs') = caution_ids_sent tid evs @ caution_ids_sent tid evs'"
  by (simp add: caution_ids_sent_def)

lemma caution_ids_sent_simps [simp]:
  "caution_ids_sent tid [] = []"
  "caution_ids_sent tid (Pinned a b # evs) = caution_ids_sent tid evs"
  "caution_ids_sent tid (Edited a e # evs) = caution_ids_sent tid evs"
  "caution_ids_sent tid (Deleted a b # evs) = caution_ids_sent tid evs"
  "caution_ids_sent tid (Slept n # evs) = caution_ids_sent tid evs"
  by (simp_all add: caution_ids_sent_def)

lemma caution_ids_sent_cautions:
  "list_all is_caution cs \<Longrightarrow>
   caution_ids_sent tid (map (\<lambda>(i, c). Sent tid i c) (zip (ids_from n cs) cs)) = ids_from n cs"
  by (induction cs arbitrary: n) (simp_all add: caution_ids_sent_def)

lemma find_message_sent:
  assumes "i \<in> set (ids_from (next_message_id w) cs)"
  shows "find_message tid i (sent cfg tid cs w) \<noteq> None"
proof -
  have "bot_message cfg tid i \<in> set (messages (sent cfg tid cs w))"
    using assms by (simp add: sent_messages)
  moreover have "channel_id (bot_message cfg tid i) = tid \<and> message_id (bot_message cfg tid i) = i"
    by (simp add: bot_message_def)
  ultimately show ?thesis unfolding find_message_def find_None_iff by blast
qed

lemma get_or_fetch_channel_ok:
  assumes "faults w = (\<lambda>_. None)"
    and "find (\<lambda>c. id_of_channel c = cid) (channels w) = Some c"
  shows "get_or_fetch_channel cid w = (Inr c, w)"
  using assms by (simp add: get_or_fetch_channel_def request_def io_return_def)

lemma parent_forum_ok:
  assumes "faults w = (\<lambda>_. None)"
    and "find (\<lambda>c. id_of_channel c = parent_id t) (channels w) = Some (ForumChannel f)"
  shows "parent_forum t w = (Inr f, w)"
  using assms by (simp add: parent_forum_def io_bind_def io_return_def get_or_fetch_channel_ok)

lemma starter_message_of_ok:
  assumes "faults w = (\<lambda>_. None)" and "find_message (thread_id t) (thread_id t) w = Some sm"
  shows "starter_message_of t w = (Inr sm, w)"
  using assms
  by (simp add: starter_message_of_def cached_message_def fetch_message_def request_def)

text \<open>
  \<open>on_thread_create\<close> on a thread that breaks a title rule or the tag rule, when no request
  is refused: the record holds the ids of the cautions sent, in the order they were sent.
\<close>

lemma on_thread_create_flags:
  fixes cfg thread w regulars
  defines "contents \<equiv>
    map TitleCaution (get_help_forum_channel_thread_name_cautions cfg thread) @
    (if parent_id thread = regulars \<and> \<not> validate_regulars_help_forum_channel_thread_tags thread
     then [TagsCaution] else [])"
  defines "ids \<equiv> ids_from (next_message_id w) contents"
  defines "w1 \<equiv> snd (on_thread_create cfg thread w)"
  assumes forum: "in_help_forum cfg thread"
    and conf: "map_of (HELP_FORUM_CHANNEL_IDS cfg) ''regulars'' = Some regulars"
      "map_of (HELP_FORUM_CHANNEL_IDS cfg) ''python'' = Some python"
    and nofail: "faults w = (\<lambda>_. None)"
    and starter: "find_message (thread_id thread) (thread_id thread) w \<noteq> None"
    and parent: "find (\<lambda>c. id_of_channel c = parent_id thread) (channels w) =
                   Some (ForumChannel forum_channel)"
    and new: "\<not> sql_exists bad_thread_id (thread_id thread) (bad_help_thread_data w)"
    and flagged: "contents \<noteq> []"
  shows "bad_help_thread_data w1 =
           sql_insert_on_conflict_update bad_thread_id
             \<lparr>bad_thread_id = (thread_id thread), last_cautioned_ts = clock w, caution_message_ids = ids\<rparr>
             (bad_help_thread_data w)"
    and "caution_ids_sent (thread_id thread) (effects w1) = caution_ids_sent (thread_id thread) (effects w) @ ids"
    and "\<forall>i \<in> set ids. find_message (thread_id thread) i w1 \<noteq> None"
    and "faults w1 = faults w" and "channels w1 = channels w"
proof -
  let ?cts = "get_help_forum_channel_thread_name_cautions cfg thread"
  let ?bad = "parent_id thread = regulars \<and> \<not> validate_regulars_help_forum_channel_thread_tags thread"
  from starter obtain sm where sm: "find_message (thread_id thread) (thread_id thread) w = Some sm" by auto
  then have smid: "message_id sm = (thread_id thread)"
    by (auto simp: find_message_def find_Some_iff)
  define w_a where "w_a = record_effect (Pinned (thread_id thread) (thread_id thread))
    (w\<lparr>messages := map (\<lambda>m. if channel_id m = (thread_id thread) \<and> message_id m = (thread_id thread)
                             then m\<lparr>message_pinned := True\<rparr> else m) (messages w)\<rparr>)"
  have fa: "faults w_a = (\<lambda>_. None)" and cha: "channels w_a = channels w"
    and bada: "bad_help_thread_data w_a = bad_help_thread_data w"
    and cla: "clock w_a = clock w" and na: "next_message_id w_a = next_message_id w"
    and effa: "effects w_a = effects w @ [Pinned (thread_id thread) (thread_id thread)]"
    using nofail by (simp_all add: w_a_def record_effect_def)
  have st: "starter_message_of thread w = (Inr sm, w)"
    using nofail sm by (rule starter_message_of_ok)
  have pn: "pin (thread_id thread) (message_id sm) w = (Inr (), w_a)"
    using nofail sm by (simp add: pin_def request_def smid w_a_def)
  define te where "te = (if length (applied_tags thread) < FORUM_THREAD_TAG_LIMIT cfg \<or>
         (length (applied_tags thread) = FORUM_THREAD_TAG_LIMIT cfg \<and>
          any_tag_startswith (applied_tags thread) [''solved''])
      then no_edits\<lparr>edit_applied_tags :=
             Some (insert_unsolved_tag forum_channel
                     (filter (\<lambda>tag. \<not> startswith (lower (tag_name tag)) ''solved'')
                        (applied_tags thread)))\<rparr>
      else no_edits)"
  have gc: "get_or_fetch_channel (parent_id thread) w_a = (Inr (ForumChannel forum_channel), w_a)"
    using fa parent by (intro get_or_fetch_channel_ok) (simp_all add: cha)
  have tg: "on_thread_create_tags cfg (ForumChannel forum_channel) thread w' = (Inr te, w')" for w'
    by (simp add: on_thread_create_tags_def Let_def io_return_def te_def)
  define w_b where "w_b = sent cfg (thread_id thread) (map TitleCaution ?cts) w_a"
  have c1: "caution_about_help_forum_channel_thread_name cfg thread ?cts w_a =
      (Inr (map (bot_message cfg (thread_id thread)) (ids_from (next_message_id w) ?cts)), w_b)"
    using io_map_send [OF fa, of cfg "thread_id thread" "map TitleCaution ?cts"]
    by (simp add: caution_about_help_forum_channel_thread_name_def io_map_comp na w_b_def)
  have fb: "faults w_b = (\<lambda>_. None)" by (simp add: w_b_def fa)
  have rt: "regulars_tags_invalid cfg thread w' = (Inr ?bad, w')" for w'
    using conf(1) by (simp add: regulars_tags_invalid_def dict_get_def io_bind_def io_return_def)
  define w_c where "w_c = sent cfg (thread_id thread) contents w_a"
  have wc: "w_c = sent cfg (thread_id thread) (if ?bad then [TagsCaution] else []) w_b"
    by (simp add: w_c_def w_b_def contents_def sent_append)
  have c2: "caution_about_regulars_help_forum_channel_thread_tags cfg thread w_b =
      (Inr (bot_message cfg (thread_id thread) (next_message_id w_b)), sent cfg (thread_id thread) [TagsCaution] w_b)"
    using conf(2) send_ok [OF fb]
    by (simp add: caution_about_regulars_help_forum_channel_thread_tags_def dict_get_def
        io_bind_def io_return_def)
  have cautions: "list_all is_caution contents"
    by (auto simp: contents_def list_all_iff is_caution_def)
  have effc: "caution_ids_sent (thread_id thread) (effects w_c) = caution_ids_sent (thread_id thread) (effects w) @ ids"
    using caution_ids_sent_cautions [OF cautions, of "thread_id thread" "next_message_id w"]
    by (simp add: w_c_def sent_effects effa na ids_def)
  have fc: "faults w_c = (\<lambda>_. None)" and chc: "channels w_c = channels w"
    and badc: "bad_help_thread_data w_c = bad_help_thread_data w" and clc: "clock w_c = clock w"
    by (simp_all add: w_c_def fa cha bada cla)
  have ex: "bad_help_thread_data_exists (thread_id thread) w_c = (Inr False, w_c)"
    using new by (simp add: bad_help_thread_data_exists_def badc)
  have idsb: "ids = ids_from (next_message_id w) ?cts @
                    ids_from (next_message_id w_b) (if ?bad then [TagsCaution] else [])"
    by (simp add: ids_def contents_def ids_from_append w_b_def na)
  let ?goal = "\<lambda>W. bad_help_thread_data W =
           sql_insert_on_conflict_update bad_thread_id
             \<lparr>bad_thread_id = (thread_id thread), last_cautioned_ts = clock w, caution_message_ids = ids\<rparr>
             (bad_help_thread_data w) \<and>
         caution_ids_sent (thread_id thread) (effects W) = caution_ids_sent (thread_id thread) (effects w) @ ids \<and>
         messages W = messages w_c \<and> faults W = faults w \<and> channels W = channels w"
  define rest where "rest = (\<lambda>e. io_bind
       (io_bind time_time (\<lambda>now.
          save_bad_help_thread_data
            \<lparr>bad_thread_id = thread_id thread, last_cautioned_ts = now, caution_message_ids = ids\<rparr>))
       (\<lambda>_. io_when (e \<noteq> no_edits) (edit (thread_id thread) e)))"
  have tail: "?goal (snd (rest e w_c))" for e
    using fc nofail
    by (simp add: rest_def io_bind_def io_when_def io_return_def time_time_def
        save_bad_help_thread_data_def edit_def request_def record_effect_def badc clc effc chc)
  let ?e = "(if ?cts \<noteq> [] \<and> ''thread_title_too_short'' \<in> set ?cts
             then te\<lparr>edit_slowmode_delay := Some (THREAD_TITLE_TOO_SHORT_SLOWMODE_DELAY cfg)\<rparr>
             else te)\<lparr>edit_name := owner_id_name_edit thread\<rparr>"
  have "on_thread_create_body cfg thread w = rest ?e w_c"
  proof (cases "?cts = []")
    case True
    with flagged have b: ?bad by (auto simp: contents_def split: if_splits)
    from True have wb: "w_b = w_a" by (simp add: w_b_def)
    from True b have wcb: "sent cfg (thread_id thread) [TagsCaution] w_a = w_c"
      by (simp add: w_c_def contents_def)
    from True b have i: "id_set [bot_message cfg (thread_id thread) (next_message_id w_a)] = ids"
      by (simp add: id_set_def ids_def contents_def bot_message_def na)
    from b have rt': "regulars_tags_invalid cfg thread w' = (Inr True, w')" for w'
      by (simp add: rt)
    show ?thesis
      using True
      by (simp add: on_thread_create_body_def on_thread_create_checks_def Let_def io_bind_def io_return_def st pn gc tg rt'
          c2 [unfolded wb] wcb ex i rest_def)
  next
    case False
    have i: "id_set (map (bot_message cfg (thread_id thread)) (ids_from (next_message_id w) ?cts) @
               (if ?bad then [bot_message cfg (thread_id thread) (next_message_id w_b)] else [])) = ids"
    proof -
      have "map message_id (map (bot_message cfg (thread_id thread)) (ids_from (next_message_id w) ?cts) @
               (if ?bad then [bot_message cfg (thread_id thread) (next_message_id w_b)] else [])) = ids"
        by (simp add: idsb bot_message_def comp_def)
      then show ?thesis by (simp add: id_set_def ids_def)
    qed
    have wcb: "sent cfg (thread_id thread) [TagsCaution] w_b = w_c" if ?bad
      using that by (auto simp: wc)
    have wcb': "w_b = w_c" if "\<not> ?bad"
      using that by (auto simp: wc)
    show ?thesis
    proof (cases ?bad)
      case True
      with i have i': "id_set (map (bot_message cfg (thread_id thread)) (ids_from (next_message_id w) ?cts) @
               [bot_message cfg (thread_id thread) (next_message_id w_b)]) = ids" by simp
      from True have rt': "regulars_tags_invalid cfg thread w' = (Inr True, w')" for w'
        by (simp add: rt)
      show ?thesis
        using False
        by (simp add: on_thread_create_body_def on_thread_create_checks_def Let_def io_bind_def io_return_def st pn gc tg rt'
            c1 c2 wcb [OF True] ex i' rest_def)
    next
      case nb: False
      with i have i': "id_set (map (bot_message cfg (thread_id thread)) (ids_from (next_message_id w) ?cts)) = ids"
        by simp
      from nb have rt': "regulars_tags_invalid cfg thread w' = (Inr False, w')" for w'
        by (simp add: rt)
      show ?thesis
        using False
        by (simp add: on_thread_create_body_def on_thread_create_checks_def Let_def io_bind_def io_return_def st pn gc tg rt'
            c1 wcb' [OF nb] ex i' rest_def)
    qed
  qed
  with tail have "?goal (snd (on_thread_create_body cfg thread w))" by simp
  then have g: "?goal w1"
    using forum
    by (auto simp: w1_def on_thread_create_def io_when_def try_except_def io_return_def
        split: prod.splits sum.splits)
  from g show "bad_help_thread_data w1 =
           sql_insert_on_conflict_update bad_thread_id
             \<lparr>bad_thread_id = (thread_id thread), last_cautioned_ts = clock w, caution_message_ids = ids\<rparr>
             (bad_help_thread_data w)" by blast
  from g show "caution_ids_sent (thread_id thread) (effects w1) = caution_ids_sent (thread_id thread) (effects w) @ ids" by blast
  from g have "messages w1 = messages w_c" by blast
  then show "\<forall>i \<in> set ids. find_message (thread_id thread) i w1 \<noteq> None"
    using find_message_sent [of _ w_a contents "thread_id thread" cfg]
    by (simp add: find_message_def w_c_def ids_def na)
  from g show "faults w1 = faults w" and "channels w1 = channels w" by blast+
qed

lemma message_deleted_fields [simp]:
  "autocommit (message_deleted tid i w) = autocommit w"
  "faults (message_deleted tid i w) = faults w"
  "channels (message_deleted tid i w) = channels w"
  "channel_cache (message_deleted tid i w) = channel_cache w"
  "bad_help_thread_data (message_deleted tid i w) = bad_help_thread_data w"
  "audit_log (message_deleted tid i w) = audit_log w"
  by (simp_all add: message_deleted_def split: option.splits)

lemma deleted_fields [simp]:
  "autocommit (deleted tid ids w) = autocommit w"
  "faults (deleted tid ids w) = faults w"
  "channels (deleted tid ids w) = channels w"
  "channel_cache (deleted tid ids w) = channel_cache w"
  "bad_help_thread_data (deleted tid ids w) = bad_help_thread_data w"
  "audit_log (deleted tid ids w) = audit_log w"
  by (induction ids arbitrary: w; simp)+

lemma delete_if_found_ok:
  "faults w = (\<lambda>_. None) \<Longrightarrow> delete_if_found tid i w = (Inr (), message_deleted tid i w)"
  by (simp add: delete_if_found_def delete_message_def request_def try_except_def
      is_NotFound_def io_return_def record_effect_def message_deleted_def split: option.splits)

lemma io_foreach_delete:
  "faults w = (\<lambda>_. None) \<Longrightarrow>
   io_foreach ids (delete_if_found tid) w = (Inr (), deleted tid ids w)"
proof (induction ids arbitrary: w)
  case Nil
  then show ?case by (simp add: io_return_def)
next
  case (Cons i ids)
  from Cons.prems have "faults (message_deleted tid i w) = (\<lambda>_. None)" by simp
  then have "io_foreach ids (delete_if_found tid) (message_deleted tid i w) =
      (Inr (), deleted tid ids (message_deleted tid i w))"
    by (rule Cons.IH)
  with delete_if_found_ok [OF Cons.prems] show ?case by (simp add: io_then_def io_bind_def)
qed

lemma ids_deleted_append [simp]:
  "ids_deleted tid (evs @ evs') = ids_deleted tid evs @ ids_deleted tid evs'"
  by (simp add: ids_deleted_def)

lemma find_after_filter:
  "find (\<lambda>m. channel_id m = tid \<and> message_id m = j)
     (filter (\<lambda>m. \<not> (channel_id m = tid \<and> message_id m = i)) ms) =
   (if j = i then None else find (\<lambda>m. channel_id m = tid \<and> message_id m = j) ms)"
  by (induction ms) auto

lemma find_message_deleted:
  "find_message tid j (message_deleted tid i w) =
     (if j = i then None else find_message tid j w)"
proof (cases "find_message tid i w")
  case None
  then show ?thesis by (simp add: message_deleted_def)
next
  case (Some m)
  then have "messages (message_deleted tid i w) =
      filter (\<lambda>m. \<not> (channel_id m = tid \<and> message_id m = i)) (messages w)"
    by (simp add: message_deleted_def)
  then show ?thesis unfolding find_message_def by (simp only: find_after_filter)
qed

lemma message_deleted_effects:
  "effects (message_deleted tid i w) =
     effects w @ (if find_message tid i w = None then [] else [Deleted tid i])"
  by (simp add: message_deleted_def split: option.splits)

lemma deleted_effects:
  "caution_ids_sent tid (effects (deleted tid ids w)) = caution_ids_sent tid (effects w) \<and>
   set (ids_deleted tid (effects (deleted tid ids w))) =
     set (ids_deleted tid (effects w)) \<union> {i \<in> set ids. find_message tid i w \<noteq> None}"
proof (induction ids arbitrary: w)
  case Nil
  then show ?case by simp
next
  case (Cons i ids)
  let ?w = "message_deleted tid i w"
  have 1: "caution_ids_sent tid (effects ?w) = caution_ids_sent tid (effects w)"
    by (simp add: message_deleted_effects)
  have 2: "set (ids_deleted tid (effects ?w)) =
      set (ids_deleted tid (effects w)) \<union> (if find_message tid i w = None then {} else {i})"
    by (simp add: message_deleted_effects ids_deleted_def)
  have 3: "{j \<in> set (i # ids). find_message tid j w \<noteq> None} =
      (if find_message tid i w = None then {} else {i}) \<union>
      {j \<in> set ids. find_message tid j ?w \<noteq> None}"
    by (auto simp: find_message_deleted)
  from Cons.IH [of ?w] show ?case
    unfolding deleted.simps 1 2 3 by auto
qed

named_theorems keeps_intros

lemma keeps_return [keeps_intros]: "keeps f (io_return x)"
  by (simp add: keeps_def io_return_def)

lemma keeps_raise [keeps_intros]: "keeps f (io_raise e)"
  by (simp add: keeps_def io_raise_def)

lemma keeps_bind [keeps_intros]:
  assumes "keeps f m" and "\<And>x. keeps f (g x)"
  shows "keeps f (io_bind m g)"
  unfolding keeps_def
proof
  fix w
  obtain r w' where m: "m w = (r, w')" by (cases "m w")
  with assms(1) have 1: "f w' = f w" by (auto simp: keeps_def dest: spec [of _ w])
  show "f (snd (io_bind m g w)) = f w"
  proof (cases r)
    case (Inl e)
    with m 1 show ?thesis by (simp add: io_bind_def)
  next
    case (Inr x)
    from assms(2) [of x] have "f (snd (g x w')) = f w'" by (simp add: keeps_def)
    with 1 m Inr show ?thesis by (simp add: io_bind_def)
  qed
qed

lemma keeps_then [keeps_intros]: "keeps f m \<Longrightarrow> keeps f n \<Longrightarrow> keeps f (io_then m n)"
  by (simp add: io_then_def keeps_bind)

lemma keeps_when [keeps_intros]: "(b \<Longrightarrow> keeps f m) \<Longrightarrow> keeps f (io_when b m)"
  by (simp add: io_when_def keeps_return)

lemma keeps_if [keeps_intros]:
  "(b \<Longrightarrow> keeps f m) \<Longrightarrow> (\<not> b \<Longrightarrow> keeps f n) \<Longrightarrow> keeps f (if b then m else n)"
  by simp

lemma keeps_case_option [keeps_intros]:
  "(x = None \<Longrightarrow> keeps f m) \<Longrightarrow> (\<And>y. x = Some y \<Longrightarrow> keeps f (n y)) \<Longrightarrow>
   keeps f (case x of None \<Rightarrow> m | Some y \<Rightarrow> n y)"
  by (cases x) simp_all

lemma keeps_try_except [keeps_intros]:
  assumes "keeps f m" and "keeps f h"
  shows "keeps f (try_except m c h)"
  unfolding keeps_def
proof
  fix w
  obtain r w' where m: "m w = (r, w')" by (cases "m w")
  with assms(1) have 1: "f w' = f w" by (auto simp: keeps_def dest: spec [of _ w])
  from assms(2) have "f (snd (h w')) = f w'" by (simp add: keeps_def)
  with m 1 show "f (snd (try_except m c h w)) = f w"
    by (cases r) (simp_all add: try_except_def)
qed

lemma keeps_try_finally [keeps_intros]:
  assumes "keeps f m" and "keeps f h"
  shows "keeps f (try_finally m h)"
  unfolding keeps_def
proof
  fix w
  obtain r w' where m: "m w = (r, w')" by (cases "m w")
  with assms(1) have 1: "f w' = f w" by (auto simp: keeps_def dest: spec [of _ w])
  from assms(2) have "f (snd (h w')) = f w'" by (simp add: keeps_def)
  with m 1 show "f (snd (try_finally m h w)) = f w"
    by (auto simp: try_finally_def split: prod.splits sum.splits)
qed

lemma keeps_request [keeps_intros]: "keeps f m \<Longrightarrow> keeps f (request r m)"
  by (auto simp: keeps_def request_def split: option.splits)

lemma keeps_bad_platform [keeps_intros]:
  "keeps bad_help_thread_data (send cfg tid c)"
  "keeps bad_help_thread_data (delete_message tid mid)"
  "keeps bad_help_thread_data (edit tid e)"
  "keeps bad_help_thread_data (sleep n)"
  "keeps bad_help_thread_data (get_or_fetch_channel cid)"
  by (auto simp: keeps_def send_def delete_message_def edit_def sleep_def get_or_fetch_channel_def
      request_def record_effect_def io_return_def io_raise_def Let_def split: option.splits)

lemma keeps_bad_inactive_table [keeps_intros]:
  "keeps bad_help_thread_data (inactive_help_thread_data_exists tid)"
  "keeps bad_help_thread_data (fetch_inactive_help_thread_data tid)"
  "keeps bad_help_thread_data (delete_inactive_help_thread_data tid)"
  by (auto simp: keeps_def inactive_help_thread_data_exists_def
      fetch_inactive_help_thread_data_def delete_inactive_help_thread_data_def
      split: option.splits)

lemma keeps_bad_parent_forum [keeps_intros]: "keeps bad_help_thread_data (parent_forum t)"
  unfolding parent_forum_def
  by (intro keeps_bind keeps_bad_platform) (simp add: keeps_return keeps_raise split: channel.splits)

lemma keeps_bad_after_resolution:
  "keeps bad_help_thread_data
     (io_bind (solved_transitions cfg before after e)
        (\<lambda>e. io_when (e \<noteq> no_edits) (io_then (sleep 5) (edit (thread_id after) e))))"
  unfolding solved_transitions_def send_help_thread_solved_alert_def delete_if_found_def Let_def
  by (intro keeps_intros)

lemma not_caution_simps [simp]:
  "not_caution tid (Sent t i c) \<longleftrightarrow> \<not> (t = tid \<and> is_caution c)"
  "not_caution tid (Deleted t i)"
  "not_caution tid (Edited t e)"
  "not_caution tid (Slept n)"
  by (simp_all add: not_caution_def)

lemma only_emits_after_resolution:
  "only_emits (not_caution tid)
     (io_bind (solved_transitions cfg before after e)
        (\<lambda>e. io_when (e \<noteq> no_edits) (io_then (sleep 5) (edit (thread_id after) e))))"
  unfolding solved_transitions_def send_help_thread_solved_alert_def delete_if_found_def Let_def
  by (intro only_emits_intros; simp add: is_caution_def)

lemma emits_not_caution:
  assumes "emits (not_caution tid) w w'"
  shows "caution_ids_sent tid (effects w') = caution_ids_sent tid (effects w)"
    and "set (ids_deleted tid (effects w)) \<subseteq> set (ids_deleted tid (effects w'))"
proof -
  from assms obtain evs where e: "effects w' = effects w @ evs" and ok: "list_all (not_caution tid) evs"
    by (auto simp: emits_def)
  from ok have "caution_ids_sent tid evs = []"
    by (induction evs) (auto simp: caution_ids_sent_def not_caution_def split: event.splits)
  with e show "caution_ids_sent tid (effects w') = caution_ids_sent tid (effects w)" by simp
  from e show "set (ids_deleted tid (effects w)) \<subseteq> set (ids_deleted tid (effects w'))" by simp
qed

text \<open>
  \<open>on_thread_update\<close> on a thread with a record that breaks no rule any more: the messages
  of the record that are still there are deleted, then the \<open>DELETE\<close> of the record is run,
  which lasts on an engine that commits by itself and is rolled back on any other.
\<close>

lemma on_thread_update_resolves:
  assumes forum: "in_help_forum cfg after"
    and conf: "map_of (HELP_FORUM_CHANNEL_IDS cfg) ''regulars'' = Some regulars"
    and nofail: "faults w = (\<lambda>_. None)"
    and parent: "find (\<lambda>c. id_of_channel c = parent_id after) (channels w) =
                   Some (ForumChannel forum_channel)"
    and opened: "\<not> archived after" "\<not> locked after"
    and row: "sql_select_first bad_thread_id (thread_id after) (bad_help_thread_data w) = Some row"
    and titles: "get_help_forum_channel_thread_name_cautions cfg after = []"
    and tags: "\<not> (parent_id after = regulars \<and>
                  \<not> validate_regulars_help_forum_channel_thread_tags after)"
    and actor: "updater_in after (take 20 (audit_log w)) \<noteq> Some (bot_user_id cfg)"
  shows "bad_help_thread_data (snd (on_thread_update cfg before after w)) =
           (if autocommit w
            then sql_delete bad_thread_id (thread_id after) (bad_help_thread_data w)
            else bad_help_thread_data w)"
    and "caution_ids_sent (thread_id after) (effects (snd (on_thread_update cfg before after w))) =
         caution_ids_sent (thread_id after) (effects w)"
    and "{i \<in> set (caution_message_ids row). find_message (thread_id after) i w \<noteq> None} \<subseteq>
         set (ids_deleted (thread_id after) (effects (snd (on_thread_update cfg before after w))))"
proof -
  let ?u = "updater_in after (take 20 (audit_log w))"
  let ?ids = "caution_message_ids row"
  define rest where "rest = (\<lambda>e. io_bind (solved_transitions cfg before after e)
        (\<lambda>e. io_when (e \<noteq> no_edits) (io_then (sleep 5) (edit (thread_id after) e))))"
  define e' where "e' = (if slowmode_delay after = THREAD_TITLE_TOO_SHORT_SLOWMODE_DELAY cfg
      then no_edits\<lparr>edit_slowmode_delay := Some (default_thread_slowmode_delay forum_channel)\<rparr>
      else no_edits)"
  define w_d where "w_d = deleted (thread_id after) ?ids w"
  define w_r where "w_r = (if autocommit w
      then w_d\<lparr>bad_help_thread_data :=
             sql_delete bad_thread_id (thread_id after) (bad_help_thread_data w)\<rparr>
      else w_d)"
  have fu: "find_updater_id after w = (Inr ?u, w)"
    using nofail by (simp add: find_updater_id_def audit_logs_def request_def io_bind_def io_return_def)
  have rt: "regulars_tags_invalid cfg after w' = (Inr False, w')" for w'
    using conf tags by (simp add: regulars_tags_invalid_def dict_get_def io_bind_def io_return_def)
  have ck: "check_name_or_tags cfg before after ?u w = (Inr (no_edits, [], False, False), w)"
    by (simp add: check_name_or_tags_def titles rt io_bind_def io_return_def)
  from row have ex: "bad_help_thread_data_exists (thread_id after) w = (Inr True, w)"
    by (simp add: bad_help_thread_data_exists_def exists_iff_select)
  have pf: "parent_forum after w = (Inr forum_channel, w)"
    using nofail parent by (rule parent_forum_ok)
  have ft: "fetch_bad_help_thread_data (thread_id after) w = (Inr row, w)"
    using row by (simp add: fetch_bad_help_thread_data_def)
  have lp: "io_foreach ?ids (delete_if_found (thread_id after)) w = (Inr (), w_d)"
    unfolding w_d_def using nofail by (rule io_foreach_delete)
  have dl: "delete_bad_help_thread_data (thread_id after) w_d = (Inr (), w_r)"
    by (simp add: delete_bad_help_thread_data_def w_r_def w_d_def)
  have rs: "resolve_cautions cfg after ?u no_edits w = (Inr e', w_r)"
    using actor
    by (simp add: resolve_cautions_def io_bind_def io_return_def ex titles rt pf ft lp dl e'_def)
  have "on_thread_update_open cfg before after w = rest e' w_r"
    by (simp add: on_thread_update_open_def io_bind_def io_return_def fu ck rs rest_def)
  with forum opened have w2: "snd (on_thread_update cfg before after w) = snd (rest e' w_r)"
    by (auto simp: on_thread_update_def io_when_def try_except_def io_return_def
        split: prod.splits sum.splits)
  have "bad_help_thread_data (snd (rest e' w_r)) = bad_help_thread_data w_r"
    using keeps_bad_after_resolution [of cfg before after e'] by (simp add: keeps_def rest_def)
  then show "bad_help_thread_data (snd (on_thread_update cfg before after w)) =
           (if autocommit w
            then sql_delete bad_thread_id (thread_id after) (bad_help_thread_data w)
            else bad_help_thread_data w)"
    by (simp add: w2 w_r_def w_d_def)
  have "emits (not_caution (thread_id after)) w_r (snd (rest e' w_r))"
    using only_emits_after_resolution [of "thread_id after" cfg before after e']
    by (simp add: only_emits_def rest_def)
  note em = emits_not_caution [OF this]
  have er: "effects w_r = effects w_d" by (simp add: w_r_def)
  from em(1) show "caution_ids_sent (thread_id after)
         (effects (snd (on_thread_update cfg before after w))) =
         caution_ids_sent (thread_id after) (effects w)"
    using deleted_effects [of "thread_id after" ?ids w] by (simp add: w2 er w_d_def)
  from em(2) show "{i \<in> set ?ids. find_message (thread_id after) i w \<noteq> None} \<subseteq>
         set (ids_deleted (thread_id after) (effects (snd (on_thread_update cfg before after w))))"
    using deleted_effects [of "thread_id after" ?ids w] by (auto simp: w2 er w_d_def)
qed

lemma on_thread_create_flagged:
  assumes "in_help_forum cfg thread"
    and "map_of (HELP_FORUM_CHANNEL_IDS cfg) ''regulars'' = Some regulars"
    and "map_of (HELP_FORUM_CHANNEL_IDS cfg) ''python'' = Some python"
    and "faults w = (\<lambda>_. None)"
    and "find_message (thread_id thread) (thread_id thread) w \<noteq> None"
    and "find (\<lambda>c. id_of_channel c = parent_id thread) (channels w) =
           Some (ForumChannel forum_channel)"
    and "\<not> sql_exists bad_thread_id (thread_id thread) (bad_help_thread_data w)"
    and "caution_ids_sent (thread_id thread) (effects w) = []"
    and "get_help_forum_channel_thread_name_cautions cfg thread \<noteq> [] \<or>
         parent_id thread = regulars \<and> \<not> validate_regulars_help_forum_channel_thread_tags thread"
  shows "flagged (thread_id thread) (snd (on_thread_create cfg thread w))"
proof -
  let ?contents = "map TitleCaution (get_help_forum_channel_thread_name_cautions cfg thread) @
    (if parent_id thread = regulars \<and> \<not> validate_regulars_help_forum_channel_thread_tags thread
     then [TagsCaution] else [])"
  define ids where "ids = ids_from (next_message_id w) ?contents"
  define new where "new = \<lparr>bad_thread_id = thread_id thread, last_cautioned_ts = clock w,
    caution_message_ids = ids\<rparr>"
  from assms(9) have c: "?contents \<noteq> []" by auto
  note f = on_thread_create_flags [OF assms(1-7) c, folded ids_def, folded new_def]
  from c have ne: "caution_message_ids new \<noteq> []"
    by (cases ?contents) (simp_all add: ids_def new_def)
  have k: "bad_thread_id new = thread_id thread" and i: "caution_message_ids new = ids"
    by (simp_all add: new_def)
  have sel: "sql_select_first bad_thread_id (thread_id thread)
      (bad_help_thread_data (snd (on_thread_create cfg thread w))) = Some new"
    unfolding f(1) using select_after_insert [of bad_thread_id new] by (simp only: k)
  from f(2) assms(8) have sent: "caution_ids_sent (thread_id thread)
      (effects (snd (on_thread_create cfg thread w))) = ids" by simp
  show ?thesis
    unfolding flagged_def sel using ne f(3) by (simp add: i sent list_all_iff)
qed

text \<open>
  The round trip of a flagged thread in general. The thread, open, is edited by someone
  other than the bot so that no title rule matches and the tag rule holds, and no request
  is refused. After \<open>on_thread_update\<close> every id of a caution message sent to the thread
  is the id of a message deleted there; the record is gone when the engine commits the
  \<open>DELETE\<close>, and it is still there when the engine does not.
\<close>

lemma round_trip_of_flagged_thread:
  assumes "flagged (thread_id after) w"
    and "in_help_forum cfg after"
    and "map_of (HELP_FORUM_CHANNEL_IDS cfg) ''regulars'' = Some regulars"
    and "faults w = (\<lambda>_. None)"
    and "find (\<lambda>c. id_of_channel c = parent_id after) (channels w) =
           Some (ForumChannel forum_channel)"
    and "\<not> archived after" and "\<not> locked after"
    and "get_help_forum_channel_thread_name_cautions cfg after = []"
    and "\<not> (parent_id after = regulars \<and>
             \<not> validate_regulars_help_forum_channel_thread_tags after)"
    and "updater_in after (take 20 (audit_log w)) \<noteq> Some (bot_user_id cfg)"
  shows "sql_exists bad_thread_id (thread_id after)
           (bad_help_thread_data (snd (on_thread_update cfg before after w))) \<longleftrightarrow>
         \<not> autocommit w"
    and "set (caution_ids_sent (thread_id after)
                (effects (snd (on_thread_update cfg before after w)))) -
         set (ids_deleted (thread_id after)
                (effects (snd (on_thread_update cfg before after w)))) = {}"
proof -
  from assms(1) obtain row where
    row: "sql_select_first bad_thread_id (thread_id after) (bad_help_thread_data w) = Some row"
    and ids: "set (caution_message_ids row) = set (caution_ids_sent (thread_id after) (effects w))"
    and there: "\<forall>i \<in> set (caution_message_ids row). find_message (thread_id after) i w \<noteq> None"
    by (auto simp: flagged_def list_all_iff split: option.splits)
  note r = on_thread_update_resolves [OF assms(2-5) assms(6,7) row assms(8-10), of before]
  from row have "sql_exists bad_thread_id (thread_id after) (bad_help_thread_data w)"
    by (simp add: exists_iff_select)
  then show "sql_exists bad_thread_id (thread_id after)
           (bad_help_thread_data (snd (on_thread_update cfg before after w))) \<longleftrightarrow>
         \<not> autocommit w"
    by (simp add: r(1) no_row_after_delete)
  from there have "{i \<in> set (caution_message_ids row). find_message (thread_id after) i w \<noteq> None} =
      set (caution_message_ids row)" by auto
  with r(3) ids r(2) have "set (caution_ids_sent (thread_id after)
                (effects (snd (on_thread_update cfg before after w)))) \<subseteq>
         set (ids_deleted (thread_id after)
                (effects (snd (on_thread_update cfg before after w))))"
    by simp
  then show "set (caution_ids_sent (thread_id after)
                (effects (snd (on_thread_update cfg before after w)))) -
         set (ids_deleted (thread_id after)
                (effects (snd (on_thread_update cfg before after w)))) = {}"
    by blast
qed

lemmas eval_handlers =
  on_thread_create_def on_thread_create_body_def on_thread_create_checks_def
        on_thread_create_tags_def
  in_help_forum_def starter_message_of_def parent_forum_def insert_unsolved_tag_def
  regulars_tags_invalid_def get_help_forum_channel_thread_name_cautions_def
  normalized_thread_name_def owner_id_name_edit_def lacks_owner_id_def
  name_with_owner_id_suffix_def owner_id_suffix_def no_edits_def
  caution_about_help_forum_channel_thread_name_def
  caution_about_regulars_help_forum_channel_thread_tags_def id_set_def

lemmas eval_update =
  on_thread_update_def on_thread_update_open_def find_updater_id_def updater_in_def
  check_name_or_tags_def record_cautions_def resolve_cautions_def delete_if_found_def
  solved_transitions_def

lemma flagged_world_eval:
  "flagged_world =
     example_world\<lparr>
       bad_help_thread_data :=
         [\<lparr>bad_thread_id = 1001, last_cautioned_ts = 1420070500,
           caution_message_ids = [5000, 5001]\<rparr>],
       messages :=
         [bot_message example_config 1001 5001, bot_message example_config 1001 5000,
          starter_message\<lparr>message_pinned := True\<rparr>],
       audit_log := [\<lparr>target_id = Some 1001, user_id = Some 42\<rparr>],
       next_message_id := 5002,
       effects :=
         [Pinned 1001 1001, Sent 1001 5000 (TitleCaution ''thread_title_too_short''),
          Sent 1001 5001 TagsCaution,
          Edited 1001
            (no_edits\<lparr>edit_applied_tags := Some [tag 10 ''unsolved'', tag 2 ''collisions''],
               edit_slowmode_delay := Some 300,
               edit_name := Some (ascii ''hi'' @ [9474] @ ascii ''42'')\<rparr>)]\<rparr>"
  by (simp add: flagged_world_def untagged_thread_def bot_message_def eval_handlers
      eval_tags eval_io eval_platform eval_tables eval_examples eval_strings)

text \<open>
  C3. The round trip fails on an engine with its default setting. The thread
  \<open>untagged_thread\<close> is created in \<open>example_world\<close>: the bot sends the cautions 5000 and
  5001 and saves a record with exactly these ids, so the thread is flagged. Its owner then
  repairs title and tags, and no request is refused. \<open>on_thread_update\<close> deletes both
  caution messages, so the set difference of ids sent and ids deleted is empty as claimed;
  but the \<open>DELETE\<close> of the record is never committed, and the record is still there
  afterwards: \<open>bad_help_thread_data_exists\<close> answers \<open>True\<close>. On the same state with an
  engine that commits by itself the record is gone.
\<close>

theorem resolved_thread_keeps_record:
  "flagged 1001 flagged_world \<and> \<not> autocommit flagged_world \<and>
   caution_ids_sent 1001
     (effects (snd (on_thread_update example_config untagged_thread repaired_thread
                      flagged_world))) = [5000, 5001] \<and>
   ids_deleted 1001
     (effects (snd (on_thread_update example_config untagged_thread repaired_thread
                      flagged_world))) = [5000, 5001] \<and>
   bad_help_thread_data
     (snd (on_thread_update example_config untagged_thread repaired_thread flagged_world)) =
     [\<lparr>bad_thread_id = 1001, last_cautioned_ts = 1420070500,
       caution_message_ids = [5000, 5001]\<rparr>] \<and>
   fst (bad_help_thread_data_exists 1001
          (snd (on_thread_update example_config untagged_thread repaired_thread
                  flagged_world))) = Inr True \<and>
   bad_help_thread_data
     (snd (on_thread_update example_config untagged_thread repaired_thread
             (flagged_world\<lparr>autocommit := True\<rparr>))) = []"
proof -
  have fl: "flagged 1001 flagged_world"
    by (simp add: flagged_def flagged_world_eval sql_select_first_def find_message_def
        bot_message_def example_world_def caution_ids_sent_def is_caution_def)
  have ac: "\<not> autocommit flagged_world"
    by (simp add: flagged_world_eval example_world_def)
  have w2: "snd (on_thread_update example_config untagged_thread repaired_thread flagged_world) =
     flagged_world\<lparr>
       messages := [starter_message\<lparr>message_pinned := True\<rparr>],
       clock := 1420070505,
       effects := effects flagged_world @
         [Deleted 1001 5000, Deleted 1001 5001, Slept 5,
          Edited 1001 (no_edits\<lparr>edit_slowmode_delay := Some 0\<rparr>)]\<rparr>"
    by (simp add: flagged_world_eval eval_update repaired_thread_def untagged_thread_def
        bot_message_def eval_handlers eval_tags eval_io eval_platform eval_tables
        eval_examples eval_strings)
  have w2': "bad_help_thread_data
     (snd (on_thread_update example_config untagged_thread repaired_thread
             (flagged_world\<lparr>autocommit := True\<rparr>))) = []"
    by (simp add: flagged_world_eval eval_update repaired_thread_def untagged_thread_def
        bot_message_def eval_handlers eval_tags eval_io eval_platform eval_tables
        eval_examples eval_strings)
  have "caution_ids_sent 1001 (effects flagged_world) = [5000, 5001]"
    by (simp add: flagged_world_eval caution_ids_sent_def is_caution_def)
  moreover have "ids_deleted 1001 (effects flagged_world) = []"
    by (simp add: flagged_world_eval ids_deleted_def)
  moreover have "bad_help_thread_data flagged_world =
     [\<lparr>bad_thread_id = 1001, last_cautioned_ts = 1420070500,
       caution_message_ids = [5000, 5001]\<rparr>]"
    by (simp add: flagged_world_eval)
  ultimately show ?thesis
    using fl ac w2'
    by (simp add: w2 ids_deleted_def bad_help_thread_data_exists_def sql_exists_def)
qed
section \<open>The inactivity sweep\<close>

lemma fetch_last_thread_message_ok:
  assumes "faults w = (\<lambda>_. None)"
  shows "fetch_last_thread_message thread w = (Inr (last_thread_message thread w), w)"
  using assms
  by (auto simp: fetch_last_thread_message_def last_thread_message_def cached_message_def
      fetch_message_def history_def request_def try_except_def io_bind_def io_return_def
      is_NotFound_def is_HTTPException_def Let_def
      split: option.splits list.splits)

lemma last_activity_ok:
  assumes "faults w = (\<lambda>_. None)" and "last_thread_activity thread w = Some ts"
  shows "io_bind (fetch_last_thread_activity_dt thread) timestamp w = (Inr ts, w)"
  using assms(2)
  by (simp add: fetch_last_thread_activity_dt_def io_bind_def io_return_def timestamp_def
      fetch_last_thread_message_ok [OF assms(1)] last_thread_activity_def split: option.splits)

lemma last_activity_known:
  "created_at thread = Some c \<Longrightarrow> \<exists>ts. last_thread_activity thread w = Some ts"
  by (simp add: last_thread_activity_def split: option.splits)

lemma no_fresher_alert_ok:
  "no_fresher_alert thread ts w = (Inr (\<not> fresher_record thread ts w), w)"
  by (auto simp: no_fresher_alert_def fresher_record_def inactive_help_thread_data_exists_def
      fetch_inactive_help_thread_data_def exists_iff_select io_bind_def io_return_def
      split: option.splits)

lemma alert_suppressed_ok:
  assumes "faults w = (\<lambda>_. None)"
  shows "alert_suppressed forum_channel thread w =
     (if archiver_known thread w then Inr (suppressed_by_archiver forum_channel thread w)
      else Inl NotFound, w)"
  using assms
  by (auto simp: alert_suppressed_def archiver_known_def suppressed_by_archiver_def archiver_of_def
      get_or_fetch_member_def request_def io_bind_def io_return_def io_raise_def
      split: option.splits)

lemma alert_inactive_thread_ok:
  assumes "faults w = (\<lambda>_. None)"
  shows "snd (try_except (alert_inactive_thread cfg forum_channel thread ts) is_HTTPException
                (io_return ()) w) =
     (if \<not> fresher_record thread ts w \<and> archiver_known thread w \<and>
         \<not> suppressed_by_archiver forum_channel thread w
      then (sent cfg (thread_id thread) [InactiveAlert] w)
             \<lparr>inactive_help_thread_data :=
                sql_insert_on_conflict_update inactive_thread_id
                  \<lparr>inactive_thread_id = thread_id thread,
                   last_active_ts = snowflake_time (next_message_id w),
                   alert_message_id = Some (next_message_id w)\<rparr>
                  (inactive_help_thread_data w)\<rparr>
      else w)"
  by (simp add: alert_inactive_thread_def no_fresher_alert_ok alert_suppressed_ok [OF assms]
      send_ok [OF assms] io_bind_def io_when_def io_return_def try_except_def
      is_HTTPException_def save_inactive_help_thread_data_def bot_message_def
      message_created_at_def)

lemma only_emits_retract_alert:
  "only_emits (\<lambda>ev. \<not> is_inactive_alert tid ev) (retract_alert thread ts)"
  unfolding retract_alert_def delete_if_found_def
  by (intro only_emits_intros; simp add: is_inactive_alert_def)

lemma emits_no_alert:
  assumes "emits (\<lambda>ev. \<not> is_inactive_alert tid ev) w w'"
  shows "\<not> posted_alert tid w w'" and "\<not> alerted tid w w'"
proof -
  from assms obtain evs where e: "effects w' = effects w @ evs"
    and ok: "list_all (\<lambda>ev. \<not> is_inactive_alert tid ev) evs"
    by (auto simp: emits_def)
  from e ok show "\<not> posted_alert tid w w'"
    by (simp add: posted_alert_def list_ex_iff list_all_iff)
  from e ok show "\<not> alerted tid w w'"
    by (auto simp: alerted_def is_inactive_alert_def)
qed

lemma no_alert_unchanged: "\<not> posted_alert tid w w" "\<not> alerted tid w w"
  by (simp_all add: posted_alert_def alerted_def)

lemma alerted_after_alert:
  "alerted tid w ((sent cfg tid [InactiveAlert] w)
             \<lparr>inactive_help_thread_data :=
                sql_insert_on_conflict_update inactive_thread_id
                  \<lparr>inactive_thread_id = tid,
                   last_active_ts = snowflake_time (next_message_id w),
                   alert_message_id = Some (next_message_id w)\<rparr>
                  (inactive_help_thread_data w)\<rparr>)"
  "posted_alert tid w ((sent cfg tid [InactiveAlert] w)
             \<lparr>inactive_help_thread_data := tbl\<rparr>)"
  by (simp_all add: alerted_def posted_alert_def sent_single is_inactive_alert_def)

text \<open>
  C2, amended. One iteration of the inactivity sweep, for one thread, when no request is
  refused: the thread is alerted (the alert is posted and its record is put into the table)
  exactly when its creation time is known, its archiver (if one has to be looked up) is a
  member of the guild, and the conditions of the specification hold; and an inactivity
  alert is posted at all exactly then.
\<close>

theorem inactive_alert_exactly_when_due:
  assumes "faults w = (\<lambda>_. None)"
  shows "(alerted (thread_id thread) w
            (snd (inactive_help_thread_alert_thread cfg forum_channel now_ts thread w)) \<longleftrightarrow>
          created_at thread \<noteq> None \<and> archiver_known thread w \<and>
          inactivity_alert_conditions_spec forum_channel now_ts thread w) \<and>
         (posted_alert (thread_id thread) w
            (snd (inactive_help_thread_alert_thread cfg forum_channel now_ts thread w)) \<longleftrightarrow>
          created_at thread \<noteq> None \<and> archiver_known thread w \<and>
          inactivity_alert_conditions_spec forum_channel now_ts thread w)"
proof (cases "created_at thread")
  case None
  then show ?thesis
    by (simp add: inactive_help_thread_alert_thread_def inactive_help_thread_alert_body_def
        try_except_def io_return_def no_alert_unchanged)
next
  case (Some c)
  let ?skip = "locked thread \<or> flags_pinned thread \<or>
    any_tag_startswith (applied_tags thread) [''solved'']"
  show ?thesis
  proof (cases ?skip)
    case True
    with Some show ?thesis
      by (auto simp: inactive_help_thread_alert_thread_def inactive_help_thread_alert_body_def
          inactivity_alert_conditions_spec_def try_except_def io_return_def io_when_def
          no_alert_unchanged)
  next
    case False
    from Some obtain ts where ts: "last_thread_activity thread w = Some ts"
      using last_activity_known by blast
    note la = last_activity_ok [OF assms ts]
    show ?thesis
    proof (cases "now_ts - ts > 3600 * 23 + 1800")
      case True
      with Some False la have "snd (inactive_help_thread_alert_thread cfg forum_channel now_ts thread w) =
        snd (try_except (alert_inactive_thread cfg forum_channel thread ts) is_HTTPException
                (io_return ()) w)"
        by (simp add: inactive_help_thread_alert_thread_def inactive_help_thread_alert_body_def
            io_when_def io_bind_def try_except_def)
      with Some False True ts show ?thesis
        by (simp add: alert_inactive_thread_ok [OF assms] inactivity_alert_conditions_spec_def
            alerted_after_alert no_alert_unchanged)
    next
      case late: False
      with Some False la have "snd (inactive_help_thread_alert_thread cfg forum_channel now_ts thread w) =
        snd (try_except (retract_alert thread ts) is_HTTPException (io_return ()) w)"
        by (simp add: inactive_help_thread_alert_thread_def inactive_help_thread_alert_body_def
            io_when_def io_bind_def try_except_def)
      moreover have "only_emits (\<lambda>ev. \<not> is_inactive_alert (thread_id thread) ev)
          (try_except (retract_alert thread ts) is_HTTPException (io_return ()))"
        by (intro only_emits_try_except only_emits_retract_alert only_emits_return)
      ultimately have "emits (\<lambda>ev. \<not> is_inactive_alert (thread_id thread) ev) w
          (snd (inactive_help_thread_alert_thread cfg forum_channel now_ts thread w))"
        by (simp add: only_emits_def)
      from emits_no_alert [OF this] late ts show ?thesis
        by (simp add: inactivity_alert_conditions_spec_def)
    qed
  qed
qed

lemmas eval_sweep =
  inactive_help_thread_alert_def inactive_help_thread_alert_thread_def
  inactive_help_thread_alert_body_def alert_inactive_thread_def retract_alert_def
  no_fresher_alert_def alert_suppressed_def fetch_last_thread_activity_dt_def
  fetch_last_thread_message_def timestamp_def any_tag_startswith_def

lemmas eval_conditions =
  inactivity_alert_conditions_spec_def last_thread_activity_def last_thread_message_def
  fresher_record_def suppressed_by_archiver_def archiver_of_def archiver_known_def
  any_tag_startswith_def

text \<open>
  Thread 1001, created 90000 seconds ago with its starter message as last message: it is
  alerted, and the whole sweep posts that one alert.
\<close>

theorem inactive_alert_exactly_when_due_witness:
  "faults (idle_world example_thread) = (\<lambda>_. None) \<and>
   archiver_known example_thread (idle_world example_thread) \<and>
   inactivity_alert_conditions_spec regulars_forum 1420160400 example_thread
     (idle_world example_thread) \<and>
   alerted 1001 (idle_world example_thread)
     (snd (inactive_help_thread_alert_thread example_config regulars_forum 1420160400
             example_thread (idle_world example_thread))) \<and>
   effects (snd (inactive_help_thread_alert one_forum_config (idle_world example_thread))) =
     [Sent 1001 5000 InactiveAlert]"
proof -
  have f: "faults (idle_world example_thread) = (\<lambda>_. None)"
    by (simp add: idle_world_def example_world_def)
  have k: "archiver_known example_thread (idle_world example_thread)"
    by (simp add: archiver_known_def archiver_of_def example_thread_def)
  have c: "inactivity_alert_conditions_spec regulars_forum 1420160400 example_thread
     (idle_world example_thread)"
    by (simp add: eval_conditions idle_world_def eval_platform eval_tables eval_examples
        eval_strings)
  have t: "thread_id example_thread = 1001" "created_at example_thread \<noteq> None"
    by (simp_all add: example_thread_def)
  from inactive_alert_exactly_when_due [OF f, of example_thread example_config regulars_forum
      1420160400] k c t
  have "alerted 1001 (idle_world example_thread)
     (snd (inactive_help_thread_alert_thread example_config regulars_forum 1420160400
             example_thread (idle_world example_thread)))"
    by simp
  moreover have "effects (snd (inactive_help_thread_alert one_forum_config
      (idle_world example_thread))) = [Sent 1001 5000 InactiveAlert]"
    by (simp add: eval_sweep idle_world_def eval_io eval_platform eval_tables eval_examples
        eval_strings)
  ultimately show ?thesis using f k c by simp
qed

text \<open>
  C2 as stated fails. The same thread with no known creation time meets the six conditions
  of the specification, and so does the same thread archived by user 77, who has left the
  guild: the sweep leaves the state as it was, without an alert and without a record. The
  first thread is skipped by \<open>if not help_thread.created_at: continue\<close>, for the second the
  lookup of the archiver raises \<open>NotFound\<close>, which ends the iteration.
\<close>

theorem inactive_alert_skips_undated_thread:
  "inactivity_alert_conditions_spec regulars_forum 1420160400 undated_thread
     (idle_world undated_thread) \<and>
   inactive_help_thread_alert one_forum_config (idle_world undated_thread) =
     (Inr (), idle_world undated_thread) \<and>
   inactivity_alert_conditions_spec regulars_forum 1420160400 abandoned_thread
     (idle_world abandoned_thread) \<and>
   inactive_help_thread_alert one_forum_config (idle_world abandoned_thread) =
     (Inr (), idle_world abandoned_thread)"
proof -
  have "inactivity_alert_conditions_spec regulars_forum 1420160400 undated_thread
     (idle_world undated_thread)"
    by (simp add: eval_conditions idle_world_def undated_thread_def eval_platform eval_tables
        eval_examples eval_strings)
  moreover have "inactive_help_thread_alert one_forum_config (idle_world undated_thread) =
     (Inr (), idle_world undated_thread)"
    by (simp add: eval_sweep idle_world_def undated_thread_def eval_io eval_platform eval_tables
        eval_examples eval_strings)
  moreover have "inactivity_alert_conditions_spec regulars_forum 1420160400 abandoned_thread
     (idle_world abandoned_thread)"
    by (simp add: eval_conditions idle_world_def abandoned_thread_def eval_platform eval_tables
        eval_examples eval_strings)
  moreover have "inactive_help_thread_alert one_forum_config (idle_world abandoned_thread) =
     (Inr (), idle_world abandoned_thread)"
    by (simp add: eval_sweep idle_world_def abandoned_thread_def eval_io eval_platform
        eval_tables eval_examples eval_strings)
  ultimately show ?thesis by simp
qed
section \<open>The owner-id marker\<close>

named_theorems succeeds_intros

lemma succeeds_return [succeeds_intros]: "succeeds (io_return x)"
  by (simp add: succeeds_def io_return_def emits_refl)

lemma succeeds_bind [succeeds_intros]:
  assumes "succeeds m" and "\<And>x. succeeds (f x)"
  shows "succeeds (io_bind m f)"
  unfolding succeeds_def
proof (intro allI impI)
  fix w :: world assume "faults w = (\<lambda>_. None)"
  with assms(1) obtain x w' where m: "m w = (Inr x, w')" and f: "faults w' = (\<lambda>_. None)"
    and e: "emits (\<lambda>_. True) w w'"
    unfolding succeeds_def by blast
  from assms(2) [of x] f obtain y w'' where g: "f x w' = (Inr y, w'')"
    and f': "faults w'' = (\<lambda>_. None)" and e': "emits (\<lambda>_. True) w' w''"
    unfolding succeeds_def by blast
  from e e' have "emits (\<lambda>_. True) w w''" by (rule emits_trans)
  with m g f' show "\<exists>x w'. io_bind m f w = (Inr x, w') \<and> faults w' = (\<lambda>_. None) \<and>
      emits (\<lambda>_. True) w w'"
    by (simp add: io_bind_def)
qed

lemma succeeds_if [succeeds_intros]:
  "(b \<Longrightarrow> succeeds m) \<Longrightarrow> (\<not> b \<Longrightarrow> succeeds n) \<Longrightarrow> succeeds (if b then m else n)"
  by simp

lemma succeeds_case_prod [succeeds_intros]:
  "(\<And>a b. succeeds (f a b)) \<Longrightarrow> succeeds (case x of (a, b) \<Rightarrow> f a b)"
  by (cases x) simp

lemma succeeds_map [succeeds_intros]:
  "(\<And>x. succeeds (f x)) \<Longrightarrow> succeeds (io_map f xs)"
  by (induction xs) (simp_all add: succeeds_return succeeds_bind)

lemma succeeds_platform [succeeds_intros]:
  "succeeds (send cfg tid c)"
  "succeeds (edit tid e)"
  "succeeds (sleep n)"
  "succeeds time_time"
  by (auto simp: succeeds_def send_def edit_def sleep_def time_time_def request_def
      record_effect_def Let_def emits_def)

lemma succeeds_tables [succeeds_intros]:
  "succeeds (bad_help_thread_data_exists tid)"
  "succeeds (save_bad_help_thread_data row)"
  by (simp_all add: succeeds_def bad_help_thread_data_exists_def save_bad_help_thread_data_def
      emits_def)

lemma succeeds_dict_get [succeeds_intros]:
  "map_of d k = Some v \<Longrightarrow> succeeds (dict_get d k)"
  by (simp add: dict_get_def succeeds_return)

named_theorems finishes_intros

lemma finishes_bind [finishes_intros]:
  assumes "succeeds m" and "\<And>x. finishes_with P (f x)"
  shows "finishes_with P (io_bind m f)"
  unfolding finishes_with_def
proof (intro allI impI)
  fix w :: world assume "faults w = (\<lambda>_. None)"
  with assms(1) obtain x w' evs where m: "m w = (Inr x, w')" and f: "faults w' = (\<lambda>_. None)"
    and e: "effects w' = effects w @ evs"
    unfolding succeeds_def emits_def by blast
  from assms(2) [of x] f obtain w'' evs' ev where g: "f x w' = (Inr (), w'')"
    and e': "effects w'' = effects w' @ evs' @ [ev]" and p: "P ev"
    unfolding finishes_with_def by blast
  from e e' have "effects w'' = effects w @ (evs @ evs') @ [ev]" by simp
  with m g p show "\<exists>w' evs ev. io_bind m f w = (Inr (), w') \<and>
      effects w' = effects w @ evs @ [ev] \<and> P ev"
    unfolding io_bind_def by (simp del: append_assoc)
qed

lemma finishes_then [finishes_intros]:
  "succeeds m \<Longrightarrow> finishes_with P n \<Longrightarrow> finishes_with P (io_then m n)"
  by (simp add: io_then_def finishes_bind)

lemma finishes_when [finishes_intros]:
  "b \<Longrightarrow> finishes_with P m \<Longrightarrow> finishes_with P (io_when b m)"
  by (simp add: io_when_def)

lemma finishes_case_prod [finishes_intros]:
  "(\<And>a b. finishes_with P (f a b)) \<Longrightarrow> finishes_with P (case x of (a, b) \<Rightarrow> f a b)"
  by (cases x) simp

lemma finishes_edit [finishes_intros]:
  "P (Edited tid e) \<Longrightarrow> finishes_with P (edit tid e)"
  by (auto simp: finishes_with_def edit_def request_def record_effect_def)

lemma finishes_try_except:
  "finishes_with P m \<Longrightarrow> finishes_with P (try_except m c h)"
  by (auto simp: finishes_with_def try_except_def) 

lemma finishes_ends:
  assumes "finishes_with (is_name_edit thread) m" and "faults w = (\<lambda>_. None)"
  shows "fst (m w) = Inr () \<and> ends_with_name_edit thread (new_effects w (snd (m w)))"
proof -
  from assms obtain w' evs ev where "m w = (Inr (), w')"
    and "effects w' = effects w @ evs @ [ev]" and "is_name_edit thread ev"
    unfolding finishes_with_def by blast
  then show ?thesis by (simp add: new_effects_def ends_with_name_edit_def)
qed

lemma edit_with_name: "edit_name e = Some n \<Longrightarrow> e \<noteq> no_edits"
  by (auto simp: no_edits_def)

lemma marked_name_edit:
  "lacks_owner_id thread \<Longrightarrow> owner_id_name_edit thread = Some (marked_name thread)"
  by (simp add: owner_id_name_edit_def name_with_owner_id_suffix_def marked_name_def)

lemma succeeds_cautions [succeeds_intros]:
  "succeeds (caution_about_help_forum_channel_thread_name cfg thread cts)"
  "map_of (HELP_FORUM_CHANNEL_IDS cfg) ''python'' = Some python \<Longrightarrow>
   succeeds (caution_about_regulars_help_forum_channel_thread_tags cfg thread)"
  "map_of (HELP_FORUM_CHANNEL_IDS cfg) ''regulars'' = Some regulars \<Longrightarrow>
   succeeds (regulars_tags_invalid cfg thread)"
  unfolding caution_about_help_forum_channel_thread_name_def
    caution_about_regulars_help_forum_channel_thread_tags_def regulars_tags_invalid_def
  by (intro succeeds_intros; simp)+

lemma finishes_on_thread_create_checks:
  assumes "map_of (HELP_FORUM_CHANNEL_IDS cfg) ''regulars'' = Some regulars"
    and "map_of (HELP_FORUM_CHANNEL_IDS cfg) ''python'' = Some python"
    and "lacks_owner_id thread"
  shows "finishes_with (is_name_edit thread) (on_thread_create_checks cfg thread thread_edits)"
  unfolding on_thread_create_checks_def Let_def
  by (intro finishes_intros succeeds_intros;
      simp add: assms is_name_edit_def marked_name_edit edit_with_name)

lemma ends_with_name_edit_snoc:
  "effects w' = effects w @ evs @ [ev] \<Longrightarrow> is_name_edit thread ev \<Longrightarrow>
   ends_with_name_edit thread (new_effects w w')"
  by (simp add: new_effects_def ends_with_name_edit_def)

text \<open>
  The three sites. On creation, on the repair of an archived thread and on the closure
  after the timeout, a handler that meets no refusal ends with the edit that gives a
  thread lacking its owner id the name \<open>marked_name\<close>.
\<close>

lemma on_thread_create_appends_marker:
  assumes forum: "in_help_forum cfg thread"
    and conf: "map_of (HELP_FORUM_CHANNEL_IDS cfg) ''regulars'' = Some regulars"
      "map_of (HELP_FORUM_CHANNEL_IDS cfg) ''python'' = Some python"
    and nofail: "faults w = (\<lambda>_. None)"
    and starter: "find_message (thread_id thread) (thread_id thread) w \<noteq> None"
    and parent: "find (\<lambda>c. id_of_channel c = parent_id thread) (channels w) =
                   Some (ForumChannel forum_channel)"
    and lacks: "lacks_owner_id thread"
  shows "ends_with_name_edit thread (new_effects w (snd (on_thread_create cfg thread w)))"
proof -
  from starter obtain sm where sm: "find_message (thread_id thread) (thread_id thread) w = Some sm"
    by auto
  then have smid: "message_id sm = thread_id thread"
    by (auto simp: find_message_def find_Some_iff)
  define w_a where "w_a = record_effect (Pinned (thread_id thread) (thread_id thread))
    (w\<lparr>messages := map (\<lambda>m. if channel_id m = thread_id thread \<and> message_id m = thread_id thread
                             then m\<lparr>message_pinned := True\<rparr> else m) (messages w)\<rparr>)"
  have fa: "faults w_a = (\<lambda>_. None)" and cha: "channels w_a = channels w"
    and effa: "effects w_a = effects w @ [Pinned (thread_id thread) (thread_id thread)]"
    using nofail by (simp_all add: w_a_def record_effect_def)
  have st: "starter_message_of thread w = (Inr sm, w)"
    using nofail sm by (rule starter_message_of_ok)
  have pn: "pin (thread_id thread) (message_id sm) w = (Inr (), w_a)"
    using nofail sm by (simp add: pin_def request_def smid w_a_def)
  have gc: "get_or_fetch_channel (parent_id thread) w_a = (Inr (ForumChannel forum_channel), w_a)"
    using fa parent by (intro get_or_fetch_channel_ok) (simp_all add: cha)
  have "\<exists>te. on_thread_create_tags cfg (ForumChannel forum_channel) thread w_a = (Inr te, w_a)"
    by (auto simp: on_thread_create_tags_def Let_def io_return_def)
  then obtain te where tg: "on_thread_create_tags cfg (ForumChannel forum_channel) thread w_a =
      (Inr te, w_a)" ..
  from finishes_on_thread_create_checks [OF conf lacks, of te] fa
  obtain w' evs ev where ck: "on_thread_create_checks cfg thread te w_a = (Inr (), w')"
    and e: "effects w' = effects w_a @ evs @ [ev]" and p: "is_name_edit thread ev"
    unfolding finishes_with_def by blast
  have "on_thread_create_body cfg thread w = (Inr (), w')"
    by (simp add: on_thread_create_body_def io_bind_def st pn gc tg ck)
  with forum have "snd (on_thread_create cfg thread w) = w'"
    by (simp add: on_thread_create_def io_when_def try_except_def)
  moreover from e have "effects w' =
      effects w @ (Pinned (thread_id thread) (thread_id thread) # evs) @ [ev]"
    by (simp add: effa)
  ultimately show ?thesis using p by (simp add: ends_with_name_edit_snoc)
qed

lemma on_thread_update_archived_appends_marker:
  assumes forum: "in_help_forum cfg after"
    and state: "archived after" "\<not> locked after"
      "any_tag_startswith (applied_tags after) [''solved'']"
    and nofail: "faults w = (\<lambda>_. None)"
    and parent: "find (\<lambda>c. id_of_channel c = parent_id after) (channels w) =
                   Some (ForumChannel forum_channel)"
    and lacks: "lacks_owner_id after"
  shows "ends_with_name_edit after (new_effects w (snd (on_thread_update cfg before after w)))"
proof -
  define e where "e = archived_thread_edits forum_channel after"
  have n: "edit_name e = Some (marked_name after)"
    using lacks by (simp add: e_def archived_thread_edits_def Let_def marked_name_edit)
  then have ne: "e \<noteq> no_edits" by (rule edit_with_name)
  have pf: "parent_forum after w = (Inr forum_channel, w)"
    using nofail parent by (rule parent_forum_ok)
  have eff: "effects (snd (on_thread_update_archived after w)) =
      effects w @ [Edited (thread_id after) (no_edits\<lparr>edit_archived := Some False\<rparr>), Slept 5] @
        [Edited (thread_id after) (e\<lparr>edit_archived := Some True\<rparr>)]"
    and res: "fst (on_thread_update_archived after w) = Inr ()"
    using state(3) ne nofail
    by (simp_all add: on_thread_update_archived_def io_when_def io_bind_def io_then_def pf
        Let_def e_def [symmetric] edit_def sleep_def request_def record_effect_def)
  from res obtain w' where "on_thread_update_archived after w = (Inr (), w')"
    by (cases "on_thread_update_archived after w") simp
  with forum state
  have "snd (on_thread_update cfg before after w) = snd (on_thread_update_archived after w)"
    by (simp add: on_thread_update_def io_when_def try_except_def)
  with eff have "effects (snd (on_thread_update cfg before after w)) =
      effects w @ [Edited (thread_id after) (no_edits\<lparr>edit_archived := Some False\<rparr>), Slept 5] @
        [Edited (thread_id after) (e\<lparr>edit_archived := Some True\<rparr>)]"
    by simp
  moreover from n have "is_name_edit after (Edited (thread_id after) (e\<lparr>edit_archived := Some True\<rparr>))"
    by (simp add: is_name_edit_def)
  ultimately show ?thesis by (rule ends_with_name_edit_snoc)
qed

lemma force_archive_appends_marker:
  assumes dated: "created_at help_thread \<noteq> None"
    and state: "\<not> archived help_thread" "\<not> locked help_thread" "\<not> flags_pinned help_thread"
    and nofail: "faults w = (\<lambda>_. None)"
    and idle: "last_thread_activity help_thread w = Some ts"
      "(now_ts - ts) / 60 > real (auto_archive_duration help_thread)"
    and lacks: "lacks_owner_id help_thread"
  shows "ends_with_name_edit help_thread
           (new_effects w
              (snd (try_except
                      (force_help_thread_archive_after_timeout_body forum_channel now_ts
                         help_thread)
                      is_HTTPException (io_return ()) w)))"
proof -
  define e where "e = force_archive_edits forum_channel help_thread"
  have n: "edit_name e = Some (marked_name help_thread)"
    using lacks by (simp add: e_def force_archive_edits_def Let_def marked_name_edit)
  note la = last_activity_ok [OF nofail idle(1)]
  from dated obtain c where c: "created_at help_thread = Some c" by auto
  have "effects (snd (try_except
                      (force_help_thread_archive_after_timeout_body forum_channel now_ts
                         help_thread)
                      is_HTTPException (io_return ()) w)) =
        effects w @ [] @ [Edited (thread_id help_thread) e]"
    using state idle(2) nofail
    by (simp add: force_help_thread_archive_after_timeout_body_def c io_when_def io_bind_def
        la [unfolded io_bind_def] try_except_def e_def [symmetric] edit_def request_def
        record_effect_def)
  moreover from n have "is_name_edit help_thread (Edited (thread_id help_thread) e)"
    by (simp add: is_name_edit_def)
  ultimately show ?thesis by (rule ends_with_name_edit_snoc)
qed

text \<open>
  C6. A thread whose name lacks the owner id gets, at each of the three sites, the name
  \<open>marked_name\<close>: the first 72 characters of its name, \<open>...\<close> where the name had 72
  characters or more, and the owner-id marker. When no request is refused, the edit that
  sets this name is the last effect of \<open>on_thread_create\<close> (for a thread of a help forum
  with its starter message), of \<open>on_thread_update\<close> on an archived, unlocked, solved thread,
  and of an iteration of \<open>force_help_thread_archive_after_timeout\<close> on an open thread that
  has been idle for longer than its archive duration. And whatever happens to the
  requests, no edit of these handlers sets any other name.
\<close>

theorem owner_id_marker_after_72_characters:
  "(in_help_forum cfg thread \<and>
    map_of (HELP_FORUM_CHANNEL_IDS cfg) ''regulars'' = Some regulars \<and>
    map_of (HELP_FORUM_CHANNEL_IDS cfg) ''python'' = Some python \<and>
    faults w = (\<lambda>_. None) \<and>
    find_message (thread_id thread) (thread_id thread) w \<noteq> None \<and>
    find (\<lambda>c. id_of_channel c = parent_id thread) (channels w) =
      Some (ForumChannel forum_channel) \<and>
    lacks_owner_id thread \<longrightarrow>
    ends_with_name_edit thread (new_effects w (snd (on_thread_create cfg thread w)))) \<and>
   (in_help_forum cfg thread \<and> archived thread \<and> \<not> locked thread \<and>
    any_tag_startswith (applied_tags thread) [''solved''] \<and>
    faults w = (\<lambda>_. None) \<and>
    find (\<lambda>c. id_of_channel c = parent_id thread) (channels w) =
      Some (ForumChannel forum_channel) \<and>
    lacks_owner_id thread \<longrightarrow>
    ends_with_name_edit thread (new_effects w (snd (on_thread_update cfg before thread w)))) \<and>
   (created_at thread \<noteq> None \<and> \<not> archived thread \<and> \<not> locked thread \<and>
    \<not> flags_pinned thread \<and>
    faults w = (\<lambda>_. None) \<and>
    last_thread_activity thread w = Some ts \<and>
    (now_ts - ts) / 60 > real (auto_archive_duration thread) \<and>
    lacks_owner_id thread \<longrightarrow>
    ends_with_name_edit thread
      (new_effects w
         (snd (try_except
                 (force_help_thread_archive_after_timeout_body forum_channel now_ts thread)
                 is_HTTPException (io_return ()) w)))) \<and>
   only_emits (name_edit_ok thread) (on_thread_create cfg thread) \<and>
   only_emits (name_edit_ok thread) (on_thread_update cfg before thread) \<and>
   only_emits (name_edit_ok thread)
     (try_except (force_help_thread_archive_after_timeout_body forum_channel now_ts thread)
        is_HTTPException (io_return ()))"
  using on_thread_create_appends_marker [of cfg thread regulars python w forum_channel]
    on_thread_update_archived_appends_marker [of cfg thread w forum_channel before]
    force_archive_appends_marker [of thread w ts now_ts forum_channel]
    only_emits_on_thread_create [of thread cfg]
    only_emits_on_thread_update [of thread cfg before]
    only_emits_force_archive [of thread forum_channel now_ts]
  by blast

text \<open>
  A title of 75 characters: its marked name keeps the first 72 characters and adds the
  dots and the marker of owner 42. The edit with this name ends the creation of the thread,
  the repair of the thread when it is archived and solved, and its closure a day later.
\<close>

theorem owner_id_marker_after_72_characters_witness:
  "marked_name long_title_thread =
     ascii ''My platformer character keeps falling through the floor tiles when it la'' @
     ascii ''...'' @ [9474] @ ascii ''42'' \<and>
   effects (snd (on_thread_create example_config long_title_thread example_world)) =
     [Pinned 1001 1001,
      Edited 1001
        (no_edits\<lparr>edit_applied_tags := Some [tag 10 ''unsolved''],
           edit_name := Some (marked_name long_title_thread)\<rparr>)] \<and>
   ends_with_name_edit long_title_thread
     (new_effects example_world
        (snd (on_thread_create example_config long_title_thread example_world))) \<and>
   ends_with_name_edit solved_archived_thread
     (new_effects example_world
        (snd (on_thread_update example_config long_title_thread solved_archived_thread
                example_world))) \<and>
   ends_with_name_edit long_title_thread
     (new_effects (idle_world long_title_thread)
        (snd (try_except
                (force_help_thread_archive_after_timeout_body regulars_forum 1420160400
                   long_title_thread)
                is_HTTPException (io_return ()) (idle_world long_title_thread)))) \<and>
   list_all (name_edit_ok long_title_thread)
     (effects (snd (on_thread_create example_config long_title_thread example_world)))"
proof -
  have lacks: "lacks_owner_id long_title_thread" "lacks_owner_id solved_archived_thread"
    by (simp_all add: lacks_owner_id_def owner_id_suffix_def solved_archived_thread_def
        long_title_thread_def example_thread_def eval_strings)
  have forum: "in_help_forum example_config long_title_thread"
    "in_help_forum example_config solved_archived_thread"
    by (simp_all add: in_help_forum_def solved_archived_thread_def long_title_thread_def
        eval_examples)
  have keys: "map_of (HELP_FORUM_CHANNEL_IDS example_config) ''regulars'' = Some 500"
    "map_of (HELP_FORUM_CHANNEL_IDS example_config) ''python'' = Some 600"
    by (simp_all add: example_config_def)
  have nofail: "faults example_world = (\<lambda>_. None)"
    "faults (idle_world long_title_thread) = (\<lambda>_. None)"
    by (simp_all add: idle_world_def example_world_def)
  have starter: "find_message (thread_id long_title_thread) (thread_id long_title_thread)
      example_world \<noteq> None"
    by (simp add: find_message_def long_title_thread_def eval_examples)
  have parent: "find (\<lambda>c. id_of_channel c = parent_id long_title_thread)
      (channels example_world) = Some (ForumChannel regulars_forum)"
    "find (\<lambda>c. id_of_channel c = parent_id solved_archived_thread)
      (channels example_world) = Some (ForumChannel regulars_forum)"
    by (simp_all add: solved_archived_thread_def long_title_thread_def eval_examples)
  have closed: "archived solved_archived_thread" "\<not> locked solved_archived_thread"
    "any_tag_startswith (applied_tags solved_archived_thread) [''solved'']"
    by (simp_all add: solved_archived_thread_def long_title_thread_def example_thread_def
        eval_tags eval_strings)
  have opened: "created_at long_title_thread \<noteq> None" "\<not> archived long_title_thread"
    "\<not> locked long_title_thread" "\<not> flags_pinned long_title_thread"
    by (simp_all add: long_title_thread_def example_thread_def)
  have idle: "last_thread_activity long_title_thread (idle_world long_title_thread) =
      Some 1420070400"
    "(1420160400 - 1420070400) / 60 > real (auto_archive_duration long_title_thread)"
    by (simp_all add: last_thread_activity_def last_thread_message_def idle_world_def
        long_title_thread_def eval_platform eval_examples)
  have 1: "ends_with_name_edit long_title_thread
     (new_effects example_world
        (snd (on_thread_create example_config long_title_thread example_world)))"
    using owner_id_marker_after_72_characters [of example_config long_title_thread 500 600
        example_world regulars_forum]
      forum(1) keys nofail(1) starter parent(1) lacks(1)
    by blast
  have 2: "ends_with_name_edit solved_archived_thread
     (new_effects example_world
        (snd (on_thread_update example_config long_title_thread solved_archived_thread
                example_world)))"
    using owner_id_marker_after_72_characters [of example_config solved_archived_thread _ _
        example_world regulars_forum long_title_thread]
      forum(2) closed nofail(1) parent(2) lacks(2)
    by blast
  have 3: "ends_with_name_edit long_title_thread
     (new_effects (idle_world long_title_thread)
        (snd (try_except
                (force_help_thread_archive_after_timeout_body regulars_forum 1420160400
                   long_title_thread)
                is_HTTPException (io_return ()) (idle_world long_title_thread))))"
    using owner_id_marker_after_72_characters [of _ long_title_thread _ _
        "idle_world long_title_thread" regulars_forum _ 1420070400 1420160400]
      opened nofail(2) idle lacks(1)
    by blast
  have "only_emits (name_edit_ok long_title_thread)
          (on_thread_create example_config long_title_thread)"
    using owner_id_marker_after_72_characters [of example_config long_title_thread] by blast
  then have "emits (name_edit_ok long_title_thread) example_world
      (snd (on_thread_create example_config long_title_thread example_world))"
    by (simp add: only_emits_def)
  then have ok: "list_all (name_edit_ok long_title_thread)
      (effects (snd (on_thread_create example_config long_title_thread example_world)))"
    by (auto simp: emits_def example_world_def)
  have m: "marked_name long_title_thread =
     ascii ''My platformer character keeps falling through the floor tiles when it la'' @
     ascii ''...'' @ [9474] @ ascii ''42''"
    by (simp add: marked_name_def owner_id_suffix_def long_title_thread_def example_thread_def
        eval_strings)
  have "effects (snd (on_thread_create example_config long_title_thread example_world)) =
     [Pinned 1001 1001,
      Edited 1001
        (no_edits\<lparr>edit_applied_tags := Some [tag 10 ''unsolved''],
           edit_name := Some (marked_name long_title_thread)\<rparr>)]"
    unfolding m
    by (simp add: on_thread_create_def on_thread_create_body_def on_thread_create_checks_def
        on_thread_create_tags_def
        in_help_forum_def starter_message_of_def parent_forum_def insert_unsolved_tag_def
        regulars_tags_invalid_def get_help_forum_channel_thread_name_cautions_def
        normalized_thread_name_def owner_id_name_edit_def lacks_owner_id_def
        name_with_owner_id_suffix_def owner_id_suffix_def no_edits_def long_title_thread_def
        eval_tags eval_io eval_platform eval_tables eval_examples eval_strings)
  with 1 2 3 ok m show ?thesis by simp
qed

end
